theory Spec2Isabelle
  imports Complex_Main "HOL-Library.AList"
begin

section \<open>Python values and exceptions\<close>

text \<open>
  The exceptions the modelled code raises, explicitly or through a library call.
  \<open>KeyboardInterrupt\<close> and \<open>SystemExit\<close> derive from \<open>BaseException\<close> only; every other
  constructor is a subclass of Python's \<open>Exception\<close>, which is what an
  \<^verbatim>\<open>except Exception\<close> clause catches.
\<close>

datatype py_exception =
    ValueError
  | TypeError
  | KeyError
  | AttributeError
  | IndexError
  | OverflowError
  | AssertionError
  | NotImplementedError string
  | InterruptedError string
  | FileNotFoundError
  | OtherException string
  | KeyboardInterrupt
  | SystemExit

fun is_Exception :: "py_exception \<Rightarrow> bool" where
  "is_Exception KeyboardInterrupt = False"
| "is_Exception SystemExit = False"
| "is_Exception _ = True"

text \<open>Parameter values: the scalars that are passed around in parameter dictionaries.\<close>

datatype pyval = PyInt int | PyFloat real | PyStr string | PyBool bool | PyNone

text \<open>
  A Python \<open>dict\<close> with string keys, as an association list in insertion order.
  \<open>AList.update\<close> replaces the value of a key that is present, in place, and appends a
  new key at the end: what \<^verbatim>\<open>d[k] = v\<close> does.
\<close>

type_synonym 'v dict = "(string \<times> 'v) list"

definition update_from :: "'v dict \<Rightarrow> 'v dict \<Rightarrow> 'v dict" where
  \<comment> \<open>\<^verbatim>\<open>d.update(u)\<close>: the items of \<open>u\<close> are stored into \<open>d\<close> in the order of \<open>u\<close>\<close>
  "update_from d u = fold (\<lambda>(k, v). AList.update k v) u d"

section \<open>Parameter management (recommender\_base.py, BaseDFRecommender)\<close>

text \<open>
  \<^verbatim>\<open>
  def _dict_update(d, u):
      d = d.copy()
      if u: d.update(u)
      return d
  \<close>
  \<open>u\<close> is \<open>None\<close> (the constructor's default) or a dictionary; both \<open>None\<close> and the empty
  dictionary are falsy. The copy makes the result a new dictionary: the model returns it.
\<close>

definition dict_update :: "'v dict \<Rightarrow> 'v dict option \<Rightarrow> 'v dict" where
  "dict_update d u =
     (case u of
        None \<Rightarrow> d
      | Some u' \<Rightarrow> if u' = [] then d else update_from d u')"

text \<open>
  \<^verbatim>\<open>
  def _pop_set_dict(d, params, pop_params):
      for p in pop_params:
          if p in params:
              d[p] = params.pop(p)
      return params
  \<close>
  Both dictionaries are mutated; the model returns the pair (\<open>d\<close>, \<open>params\<close>).
\<close>

fun pop_set_dict :: "'v dict \<Rightarrow> 'v dict \<Rightarrow> string list \<Rightarrow> 'v dict \<times> 'v dict" where
  "pop_set_dict d params [] = (d, params)"
| "pop_set_dict d params (p # ps) =
     (case map_of params p of
        Some v \<Rightarrow> pop_set_dict (AList.update p v d) (AList.delete p params) ps
      | None \<Rightarrow> pop_set_dict d params ps)"

text \<open>
  The part of a recommender object that parameter management touches: the two stored
  parameter dictionaries, and the other instance attributes (\<open>__dict__\<close>) that
  \<open>_pop_set_params\<close> writes to.
\<close>

record base_recommender =
  model_params :: "pyval dict"
  fit_params :: "pyval dict"
  attrs :: "pyval dict"

definition pop_set_params ::
  "'a base_recommender_scheme \<Rightarrow> pyval dict \<Rightarrow> string list
     \<Rightarrow> 'a base_recommender_scheme \<times> pyval dict" where
  "pop_set_params r params pop_params =
     (case pop_set_dict (attrs r) params pop_params of
        (d, params') \<Rightarrow> (r\<lparr>attrs := d\<rparr>, params'))"

definition set_model_params ::
  "'a base_recommender_scheme \<Rightarrow> pyval dict option \<Rightarrow> 'a base_recommender_scheme" where
  "set_model_params r params = r\<lparr>model_params := dict_update (model_params r) params\<rparr>"

definition set_fit_params ::
  "'a base_recommender_scheme \<Rightarrow> pyval dict option \<Rightarrow> 'a base_recommender_scheme" where
  "set_fit_params r params = r\<lparr>fit_params := dict_update (fit_params r) params\<rparr>"

definition set_params ::
  "'a base_recommender_scheme \<Rightarrow> pyval dict \<Rightarrow> 'a base_recommender_scheme" where
  \<comment> \<open>\<^verbatim>\<open>def set_params(self, **params): self._set_model_params(params)\<close>\<close>
  "set_params r params = set_model_params r (Some params)"

subsection \<open>SubdivisionEnsembleBase.set\_params (ensembles\_base.py)\<close>

text \<open>
  \<^verbatim>\<open>
  def _init_sub_models(self, **params):
      self.sub_models = [self.sub_class_type(**params.copy())
                         for _ in range(self.n_models)]

  def set_params(self, **params):
      params = self._pop_set_params(params, ['n_models'])
      super().set_params(**params.copy())
      self._init_sub_models()
      for model in self.sub_models:
          model.set_params(**params.copy())
  \<close>
  The class of the sub-models is abstract here: \<open>sub_class_type\<close> is \<open>None\<close> (as the base
  class leaves it; calling it raises \<open>TypeError\<close>) or the instance its constructor builds
  from no arguments, and \<open>sub_set_params\<close> is the sub-model's own \<open>set_params\<close>.
\<close>

record 's subdivision_ensemble = base_recommender +
  sub_class_type :: "'s option"
  sub_models :: "'s list"

definition py_range :: "pyval \<Rightarrow> py_exception + nat" where
  \<comment> \<open>the number of iterations of \<^verbatim>\<open>range(v)\<close>; a \<open>bool\<close> is an \<open>int\<close> in Python\<close>
  "py_range v =
     (case v of
        PyInt n \<Rightarrow> Inr (nat n)
      | PyBool b \<Rightarrow> Inr (if b then 1 else 0)
      | _ \<Rightarrow> Inl TypeError)"

definition init_sub_models ::
  "'s subdivision_ensemble \<Rightarrow> py_exception + 's subdivision_ensemble" where
  "init_sub_models e =
     (case map_of (attrs e) ''n_models'' of
        None \<Rightarrow> Inl AttributeError
      | Some v \<Rightarrow>
          (case py_range v of
             Inl err \<Rightarrow> Inl err
           | Inr n \<Rightarrow>
               (if n = 0 then Inr (e\<lparr>sub_models := []\<rparr>)
                else case sub_class_type e of
                       None \<Rightarrow> Inl TypeError
                     | Some m \<Rightarrow> Inr (e\<lparr>sub_models := replicate n m\<rparr>))))"

fun set_params_each ::
  "('s \<Rightarrow> pyval dict \<Rightarrow> py_exception + 's) \<Rightarrow> pyval dict \<Rightarrow> 's list
     \<Rightarrow> py_exception + 's list" where
  "set_params_each f params [] = Inr []"
| "set_params_each f params (m # ms) =
     (case f m params of
        Inl err \<Rightarrow> Inl err
      | Inr m' \<Rightarrow>
          (case set_params_each f params ms of
             Inl err \<Rightarrow> Inl err
           | Inr ms' \<Rightarrow> Inr (m' # ms')))"

definition subdivision_set_params ::
  "('s \<Rightarrow> pyval dict \<Rightarrow> py_exception + 's) \<Rightarrow> 's subdivision_ensemble \<Rightarrow> pyval dict
     \<Rightarrow> py_exception + 's subdivision_ensemble" where
  "subdivision_set_params sub_set_params e params =
     (case pop_set_params e params [''n_models''] of
        (e1, params') \<Rightarrow>
          (case init_sub_models (set_params e1 params') of
             Inl err \<Rightarrow> Inl err
           | Inr e2 \<Rightarrow>
               (case set_params_each sub_set_params params' (sub_models e2) of
                  Inl err \<Rightarrow> Inl err
                | Inr ms \<Rightarrow> Inr (e2\<lparr>sub_models := ms\<rparr>))))"

section \<open>Strings and files\<close>

primrec starts_with :: "string \<Rightarrow> string \<Rightarrow> bool" where
  "starts_with [] s = True"
| "starts_with (c # p) s = (case s of [] \<Rightarrow> False | d # t \<Rightarrow> c = d \<and> starts_with p t)"

text \<open>\<open>str_contains p s\<close> is Python's \<^verbatim>\<open>p in s\<close> on strings: \<open>p\<close> occurs in \<open>s\<close>.\<close>

fun str_contains :: "string \<Rightarrow> string \<Rightarrow> bool" where
  "str_contains p [] = (p = [])"
| "str_contains p (c # s) = (starts_with p (c # s) \<or> str_contains p s)"

text \<open>\<^verbatim>\<open>f.readline()\<close> on a freshly opened file: the text up to and with the first newline.\<close>

fun readline :: "string \<Rightarrow> string" where
  "readline [] = []"
| "readline (c # cs) = (if c = CHR 0x0A then [c] else c # readline cs)"

definition dquote :: string where
  "dquote = [CHR 0x22]"

section \<open>The hyper-parameter search (recommender\_base.py, RecoBayesSearchHoldOut)\<close>

datatype log_entry =
    LogWarn string
  | LogException py_exception
  | LogError "pyval list"

text \<open>
  The control file changes under the running search, so the file system is a function of
  the number of the observation: \<open>fs t path\<close> is the content of \<open>path\<close> at the \<open>t\<close>-th look,
  \<open>None\<close> when there is no such file. The existence test, the \<open>open\<close> and the \<open>readline\<close> of
  one check are one observation; each round of the pause loop is the next one, and there
  \<open>open\<close> raises \<open>FileNotFoundError\<close> when the file is gone.
  \<^verbatim>\<open>
  while 'pause' in message:
      sleep(1)
      with open(self.interrupt_message_file) as f:
          message = f.readline()
  \<close>
  The loop runs for as long as the file says \<open>pause\<close>: the model takes fuel, and \<open>None\<close>
  is the loop still running when the fuel is spent.
\<close>

fun pause_loop ::
  "nat \<Rightarrow> (nat \<Rightarrow> string \<Rightarrow> string option) \<Rightarrow> string \<Rightarrow> nat \<Rightarrow> string
     \<Rightarrow> (py_exception + nat) option" where
  "pause_loop 0 fs path t message =
     (if str_contains ''pause'' message then None else Some (Inr t))"
| "pause_loop (Suc k) fs path t message =
     (if str_contains ''pause'' message
      then (case fs (Suc t) path of
              None \<Rightarrow> Some (Inl FileNotFoundError)
            | Some content \<Rightarrow> pause_loop k fs path (Suc t) (readline content))
      else Some (Inr t))"

text \<open>
  \<^verbatim>\<open>
  def _check_interrupt(self):
      if self.interrupt_message_file is not None \
              and os.path.exists(self.interrupt_message_file):
          with open(self.interrupt_message_file) as f:
              message = f.readline()
          if 'stop' in message:
              raise InterruptedError('interrupted by "stop" message in %s'
                                     % self.interrupt_message_file)
          elif 'pause' in message:
              logger.warn('Paused by "pause" message in %s'
                          % self.interrupt_message_file)
              while 'pause' in message: ...
              self._check_interrupt()
          elif 'update' in message:
              logger.warn('Updating HP space due to "update" message in %s'
                          % self.interrupt_message_file)
              raise NotImplementedError('not yet implemented')
  \<close>
  The result is the outcome (an exception or a normal return) and the log; \<open>None\<close> is a
  check that is still pausing when the fuel is spent.
\<close>

fun check_interrupt ::
  "nat \<Rightarrow> (nat \<Rightarrow> string \<Rightarrow> string option) \<Rightarrow> string option \<Rightarrow> nat \<Rightarrow> log_entry list
     \<Rightarrow> ((py_exception + unit) \<times> log_entry list) option" where
  "check_interrupt fuel fs None t lg = Some (Inr (), lg)"
| "check_interrupt fuel fs (Some path) t lg =
     (case fs t path of
        None \<Rightarrow> Some (Inr (), lg)
      | Some content \<Rightarrow>
          (let message = readline content in
           if str_contains ''stop'' message
           then Some (Inl (InterruptedError
                  (''interrupted by '' @ dquote @ ''stop'' @ dquote @ '' message in '' @ path)), lg)
           else if str_contains ''pause'' message
           then (let lg' = lg @ [LogWarn
                        (''Paused by '' @ dquote @ ''pause'' @ dquote @ '' message in '' @ path)]
                 in case pause_loop fuel fs path t message of
                      None \<Rightarrow> None
                    | Some (Inl err) \<Rightarrow> Some (Inl err, lg')
                    | Some (Inr t') \<Rightarrow>
                        (case fuel of
                           0 \<Rightarrow> None
                         | Suc k \<Rightarrow> check_interrupt k fs (Some path) (Suc t') lg'))
           else if str_contains ''update'' message
           then Some (Inl (NotImplementedError ''not yet implemented''),
                      lg @ [LogWarn (''Updating HP space due to '' @ dquote @ ''update''
                                      @ dquote @ '' message in '' @ path)])
           else Some (Inr (), lg)))"

text \<open>
  The search object, and what a trial needs from code that is not part of these files:
  the pipeline's constructor, its \<open>fit\<close> and its evaluation, the lookup of the metric in the
  report, the conversion of the sampled values to a dictionary and the two readings of the
  clock. Each of the first four may raise.
\<close>

record ('d, 'r) search_state =
  target_metric :: string
  interrupt_message_file :: "string option"
  training_data :: 'd
  validation_data :: 'd
  all_metrics :: "('r \<times> pyval dict \<times> real \<times> real) list"
  logged :: "log_entry list"

record ('p, 'd, 'r) trial_env =
  init_pipeline :: "pyval list \<Rightarrow> py_exception + 'p"
  fit_pipeline :: "'p \<Rightarrow> 'd \<Rightarrow> py_exception + 'p"
  eval_pipeline :: "'p \<Rightarrow> 'd \<Rightarrow> py_exception + 'r"
  report_loc :: "'r \<Rightarrow> string \<Rightarrow> string \<Rightarrow> py_exception + real"
  values_to_dict :: "pyval list \<Rightarrow> pyval dict"
  time_start :: real
  time_end :: real

definition record_all_metrics ::
  "('p, 'd, 'r) trial_env \<Rightarrow> ('d, 'r) search_state \<Rightarrow> 'r \<Rightarrow> pyval list \<Rightarrow> real \<Rightarrow> real
     \<Rightarrow> ('d, 'r) search_state" where
  "record_all_metrics env s report_df vals time_taken target_loss =
     s\<lparr>all_metrics := all_metrics s @ [(report_df, values_to_dict env vals, time_taken, target_loss)]\<rparr>"

text \<open>
  The body of the \<open>try\<close> block of \<open>objective_func\<close>: the outcome and the state reached.
  \<^verbatim>\<open>
  self._check_interrupt()
  pipeline = self.init_pipeline(values)
  start = time.time()
  pipeline.fit(self.data_dict['training'])
  report_df = pipeline.eval_on_test_by_ranking(
      self.data_dict['validation'], include_train=False, prefix='')
  loss = 1 - report_df.loc['test', self.metric]
  self._record_all_metrics(
      report_df=report_df, values=values,
      time_taken=time.time() - start, target_loss=loss)
  return loss
  \<close>
\<close>

definition trial_body ::
  "nat \<Rightarrow> (nat \<Rightarrow> string \<Rightarrow> string option) \<Rightarrow> ('p, 'd, 'r) trial_env \<Rightarrow> ('d, 'r) search_state
     \<Rightarrow> pyval list \<Rightarrow> ((py_exception + real) \<times> ('d, 'r) search_state) option" where
  "trial_body fuel fs env s vals =
     (case check_interrupt fuel fs (interrupt_message_file s) 0 (logged s) of
        None \<Rightarrow> None
      | Some (Inl err, lg) \<Rightarrow> Some (Inl err, s\<lparr>logged := lg\<rparr>)
      | Some (Inr _, lg) \<Rightarrow>
          (let s1 = s\<lparr>logged := lg\<rparr> in
           case init_pipeline env vals of
             Inl err \<Rightarrow> Some (Inl err, s1)
           | Inr pipeline \<Rightarrow>
               (case fit_pipeline env pipeline (training_data s1) of
                  Inl err \<Rightarrow> Some (Inl err, s1)
                | Inr fitted \<Rightarrow>
                    (case eval_pipeline env fitted (validation_data s1) of
                       Inl err \<Rightarrow> Some (Inl err, s1)
                     | Inr report_df \<Rightarrow>
                         (case report_loc env report_df ''test'' (target_metric s1) of
                            Inl err \<Rightarrow> Some (Inl err, s1)
                          | Inr m \<Rightarrow>
                              (let loss = 1 - m in
                               Some (Inr loss,
                                 record_all_metrics env s1 report_df vals
                                   (time_end env - time_start env) loss)))))))"

text \<open>
  \<^verbatim>\<open>
  except Exception as e:
      logger.exception(e)
      logger.error(values)
      # raise e
      return 1.0
  \<close>
  The handler catches the subclasses of \<open>Exception\<close>; what it does not catch reaches the
  caller.
\<close>

definition objective_func ::
  "nat \<Rightarrow> (nat \<Rightarrow> string \<Rightarrow> string option) \<Rightarrow> ('p, 'd, 'r) trial_env \<Rightarrow> ('d, 'r) search_state
     \<Rightarrow> pyval list \<Rightarrow> ((py_exception + real) \<times> ('d, 'r) search_state) option" where
  "objective_func fuel fs env s vals =
     (case trial_body fuel fs env s vals of
        None \<Rightarrow> None
      | Some (Inr loss, s') \<Rightarrow> Some (Inr loss, s')
      | Some (Inl err, s') \<Rightarrow>
          (if is_Exception err
           then Some (Inr 1.0, s'\<lparr>logged := logged s' @ [LogException err, LogError vals]\<rparr>)
           else Some (Inl err, s')))"

section \<open>The map zoom heuristic (geo.py, ItemsGeoMap)\<close>

text \<open>
  The heuristic computes in binary64 (\<open>np.float64\<close>). A float is a real number, \<open>inf\<close>,
  \<open>-inf\<close> or NaN. The three operations of the arithmetic that the heuristic uses are not
  part of these files and are the fields of \<open>float_ops\<close>: the subtraction, the division and
  \<open>np.log\<close>, each with its rounding.
\<close>

datatype float64 = Fin real | PInf | NInf | NaN

record float_ops =
  f_sub :: "float64 \<Rightarrow> float64 \<Rightarrow> float64"
  f_div :: "float64 \<Rightarrow> float64 \<Rightarrow> float64"
  f_log :: "float64 \<Rightarrow> float64"

definition float_positive :: "float64 \<Rightarrow> bool" where
  \<comment> \<open>\<open>x > 0\<close>; a comparison with NaN is false\<close>
  "float_positive x = (case x of Fin v \<Rightarrow> 0 < v | PInf \<Rightarrow> True | NInf \<Rightarrow> False | NaN \<Rightarrow> False)"

definition py_int :: "float64 \<Rightarrow> py_exception + int" where
  \<comment> \<open>Python's \<open>int(x)\<close> on a float: truncation toward zero; \<open>int(inf)\<close> and \<open>int(nan)\<close> raise\<close>
  "py_int x =
     (case x of
        Fin v \<Rightarrow> Inr (if 0 \<le> v then \<lfloor>v\<rfloor> else \<lceil>v\<rceil>)
      | PInf \<Rightarrow> Inl OverflowError
      | NInf \<Rightarrow> Inl OverflowError
      | NaN \<Rightarrow> Inl ValueError)"

text \<open>
  A column of the frame is a list of reals. The minimum and the maximum of an empty column
  are NaN.
\<close>

definition column_min :: "real list \<Rightarrow> float64" where
  "column_min xs = (if xs = [] then NaN else Fin (Min (set xs)))"

definition column_max :: "real list \<Rightarrow> float64" where
  "column_max xs = (if xs = [] then NaN else Fin (Max (set xs)))"

text \<open>
  \<^verbatim>\<open>
  def gm_heuristic(min_deg, max_deg):
      if max_deg - min_deg > 0:
          return int(np.log(1000 * 360 / (max_deg - min_deg) / 256) / np.log(2))
      else:
          return 14
  \<close>
\<close>

definition gm_heuristic :: "float_ops \<Rightarrow> float64 \<Rightarrow> float64 \<Rightarrow> py_exception + int" where
  "gm_heuristic ops min_deg max_deg =
     (if float_positive (f_sub ops max_deg min_deg)
      then py_int
             (f_div ops
                (f_log ops
                   (f_div ops (f_div ops (Fin (1000 * 360)) (f_sub ops max_deg min_deg))
                      (Fin 256)))
                (f_log ops (Fin 2)))
      else Inr 14)"

text \<open>
  \<^verbatim>\<open>
  ranges = self.df_items[self.loc_cols].apply([np.min, np.max]).values
  zoom_level_lat = gm_heuristic(ranges[0][0], ranges[1][0])
  zoom_level_long = gm_heuristic(ranges[0][1], ranges[1][1])
  return min(zoom_level_lat, zoom_level_long)
  \<close>
  An item is its pair (latitude, longitude).
\<close>

definition zoom_heuristic :: "float_ops \<Rightarrow> (real \<times> real) list \<Rightarrow> py_exception + int" where
  "zoom_heuristic ops df_items =
     (case gm_heuristic ops (column_min (map fst df_items)) (column_max (map fst df_items)) of
        Inl err \<Rightarrow> Inl err
      | Inr zoom_level_lat \<Rightarrow>
          (case gm_heuristic ops (column_min (map snd df_items)) (column_max (map snd df_items)) of
             Inl err \<Rightarrow> Inl err
           | Inr zoom_level_long \<Rightarrow> Inr (min zoom_level_lat zoom_level_long)))"

text \<open>
  What is used of binary64 arithmetic, on the part of its range that the heuristic meets
  with coordinates in degrees: each operation returns the exact result with a relative
  error of at most \<open>float_eps\<close> (eight times the rounding error of one correctly rounded
  operation), as long as the exact result is neither too large nor too small. A quotient
  of \<open>2 ^ 1024\<close> or more overflows to \<open>inf\<close>, and \<open>inf\<close> stays \<open>inf\<close> when it is divided by
  a positive float or its logarithm is taken.
\<close>

definition float_eps :: real where
  "float_eps = 1 / 2 ^ 50"

definition float_accuracy :: "float_ops \<Rightarrow> bool" where
  "float_accuracy ops \<longleftrightarrow>
     (\<forall>a b. \<bar>a\<bar> \<le> 360 \<and> \<bar>b\<bar> \<le> 360 \<longrightarrow>
        (\<exists>r. f_sub ops (Fin a) (Fin b) = Fin r \<and> \<bar>r - (a - b)\<bar> \<le> float_eps * \<bar>a - b\<bar>))
     \<and> (\<forall>a b. 0 < a \<and> 0 < b \<and> 1 / 2 \<le> a / b \<and> a / b < 2 ^ 1023 \<longrightarrow>
          (\<exists>q. f_div ops (Fin a) (Fin b) = Fin q \<and> \<bar>q - a / b\<bar> \<le> float_eps * (a / b)))
     \<and> (\<forall>x. 1 \<le> x \<and> x < 2 ^ 1023 \<longrightarrow>
          (\<exists>l. f_log ops (Fin x) = Fin l \<and> \<bar>l - ln x\<bar> \<le> float_eps * ln x))"

definition float_overflow :: "float_ops \<Rightarrow> bool" where
  "float_overflow ops \<longleftrightarrow>
     (\<forall>a b. 0 < a \<and> 0 < b \<and> 2 ^ 1024 \<le> a / b \<longrightarrow> f_div ops (Fin a) (Fin b) = PInf)
     \<and> (\<forall>b. 0 < b \<longrightarrow> f_div ops PInf (Fin b) = PInf)
     \<and> f_log ops PInf = PInf"

text \<open>
  An arithmetic without rounding, for concrete runs: the exact result where it is below
  \<open>2 ^ 1024\<close> in magnitude, and the infinities and NaN where binary64 gives them.
\<close>

definition exact_sub :: "float64 \<Rightarrow> float64 \<Rightarrow> float64" where
  "exact_sub x y =
     (case (x, y) of
        (Fin a, Fin b) \<Rightarrow> if 2 ^ 1024 \<le> a - b then PInf
                          else if a - b \<le> - (2 ^ 1024) then NInf else Fin (a - b)
      | (Fin a, PInf) \<Rightarrow> NInf
      | (Fin a, NInf) \<Rightarrow> PInf
      | (PInf, Fin b) \<Rightarrow> PInf
      | (PInf, NInf) \<Rightarrow> PInf
      | (NInf, Fin b) \<Rightarrow> NInf
      | (NInf, PInf) \<Rightarrow> NInf
      | _ \<Rightarrow> NaN)"

definition exact_div :: "float64 \<Rightarrow> float64 \<Rightarrow> float64" where
  "exact_div x y =
     (case (x, y) of
        (Fin a, Fin b) \<Rightarrow>
          if b = 0 then (if 0 < a then PInf else if a < 0 then NInf else NaN)
          else if 2 ^ 1024 \<le> a / b then PInf
          else if a / b \<le> - (2 ^ 1024) then NInf else Fin (a / b)
      | (Fin a, PInf) \<Rightarrow> Fin 0
      | (Fin a, NInf) \<Rightarrow> Fin 0
      | (PInf, Fin b) \<Rightarrow> if 0 \<le> b then PInf else NInf
      | (NInf, Fin b) \<Rightarrow> if 0 \<le> b then NInf else PInf
      | _ \<Rightarrow> NaN)"

definition exact_log :: "float64 \<Rightarrow> float64" where
  "exact_log x =
     (case x of
        Fin v \<Rightarrow> if 0 < v then Fin (ln v) else if v = 0 then NInf else NaN
      | PInf \<Rightarrow> PInf
      | _ \<Rightarrow> NaN)"

definition exact_ops :: float_ops where
  "exact_ops = \<lparr>f_sub = exact_sub, f_div = exact_div, f_log = exact_log\<rparr>"

text \<open>
  The zoom of one axis in the words of the specification, from the range of the axis, and
  the ranges on which rounding cannot move the logarithm across an integer: the range is
  zero, or it is at least \<open>2 ^ -1000\<close> and the floor of the logarithm is the same a
  relative \<open>2 ^ -40\<close> below and above it.
\<close>

definition spec_axis_zoom :: "real \<Rightarrow> int" where
  "spec_axis_zoom r = (if r \<noteq> 0 then \<lfloor>log 2 (1000 * 360 / r / 256)\<rfloor> else 14)"

definition stable_range :: "real \<Rightarrow> bool" where
  "stable_range r \<longleftrightarrow>
     r = 0
     \<or> (1 / 2 ^ 1000 \<le> r
        \<and> \<lfloor>(1 - 1 / 2 ^ 40) * log 2 (1000 * 360 / r / 256)\<rfloor>
            = \<lfloor>(1 + 1 / 2 ^ 40) * log 2 (1000 * 360 / r / 256)\<rfloor>)"

definition valid_coordinates :: "(real \<times> real) list \<Rightarrow> bool" where
  \<comment> \<open>latitudes and longitudes in degrees\<close>
  "valid_coordinates df_items =
     (\<forall>(lat, long) \<in> set df_items. -90 \<le> lat \<and> lat \<le> 90 \<and> -180 \<le> long \<and> long \<le> 180)"

section \<open>The instrumentation wrappers (instrumentation.py)\<close>

text \<open>
  What the wrappers read of a result: its type (as \<open>str(type(result))\<close> prints it) and
  whichever of shape, tuple structure, length or printed form \<open>variable_info\<close> looks at.
\<close>

datatype py_result =
    WithShape string string
  | Tuple "py_result list"
  | Sized string nat
  | Plain string string

fun str_of_nat :: "nat \<Rightarrow> string" where
  "str_of_nat n =
     (if n < 10 then [char_of (48 + n)]
      else str_of_nat (n div 10) @ [char_of (48 + n mod 10)])"

fun join :: "string \<Rightarrow> string list \<Rightarrow> string" where
  "join sep [] = []"
| "join sep [x] = x"
| "join sep (x # y # ys) = x @ sep @ join sep (y # ys)"

definition squote :: string where
  "squote = [CHR 0x27]"

text \<open>
  \<^verbatim>\<open>
  def variable_info(result):
      if hasattr(result, 'shape'):
          shape_str = 'shape: %s' % str(result.shape)
      elif isinstance(result, tuple) and len(result) <= 3:
          shape_str = 'tuple: (' + ','.join([variable_info(el) for el in result]) + ')'
      elif hasattr(result, '__len__'):
          shape_str = 'len: %s' % str(len(result))
      else:
          shape_str = str(result)[:50] + '...'
      ret_str = str(type(result)) + ', ' + shape_str
      return ret_str
  \<close>
\<close>

fun variable_info :: "py_result \<Rightarrow> string" where
  "variable_info (WithShape ty shape) = ty @ '', '' @ ''shape: '' @ shape"
| "variable_info (Tuple els) =
     (''<class '' @ squote @ ''tuple'' @ squote @ ''>'') @ '', '' @
     (if length els \<le> 3
      then ''tuple: ('' @ join '','' (map variable_info els) @ '')''
      else ''len: '' @ str_of_nat (length els))"
| "variable_info (Sized ty n) = ty @ '', '' @ ''len: '' @ str_of_nat n"
| "variable_info (Plain ty printed) = ty @ '', '' @ take 50 printed @ ''...''"

text \<open>
  What \<open>inspect\<close> sees of a callable. A module is its namespace: each attribute is a class
  (with its \<open>__name__\<close>) or some other object. A function has an identity, \<open>__name__\<close>,
  \<open>__qualname__\<close> and the module \<open>inspect.getmodule\<close> finds for it (\<open>None\<close> when it finds
  none). A bound method has an identity of its own, the method resolution order of the class
  of \<open>__self__\<close> (each class with its name and, for each name in its \<open>__dict__\<close>, the
  identity of the object stored there) and its \<open>__func__\<close>.
\<close>

datatype py_attribute = ClassObject string | OtherObject

record py_function =
  func_id :: nat
  func_name :: string
  func_qualname :: string
  func_module :: "(string \<times> py_attribute) list option"

record py_class =
  cls_name :: string
  cls_dict :: "(string \<times> nat) list"

datatype py_callable =
    Function py_function
  | BoundMethod nat "py_class list" py_function

fun callable_name :: "py_callable \<Rightarrow> string" where
  \<comment> \<open>\<open>fn.__name__\<close>; a bound method answers with the name of its function\<close>
  "callable_name (Function f) = func_name f"
| "callable_name (BoundMethod i mro f) = func_name f"

fun before_first :: "string \<Rightarrow> string \<Rightarrow> string" where
  \<comment> \<open>\<^verbatim>\<open>s.split(sep, 1)[0]\<close>\<close>
  "before_first sep [] = []"
| "before_first sep (c # s) = (if starts_with sep (c # s) then [] else c # before_first sep s)"

definition before_last_dot :: "string \<Rightarrow> string" where
  \<comment> \<open>\<^verbatim>\<open>s.rsplit('.', 1)[0]\<close>\<close>
  "before_last_dot s =
     (if CHR ''.'' \<in> set s then rev (tl (dropWhile (\<lambda>c. c \<noteq> CHR ''.'') (rev s))) else s)"

text \<open>
  \<^verbatim>\<open>
  def get_class_that_defined_method(meth):
      if inspect.ismethod(meth):
          for cls in inspect.getmro(meth.__self__.__class__)[::-1]:
              if cls.__dict__.get(meth.__name__) is meth:
                  return cls
          meth = meth.__func__  # fallback to __qualname__ parsing
      if inspect.isfunction(meth):
          cls = getattr(inspect.getmodule(meth),
                        meth.__qualname__.split('.<locals>', 1)[0].rsplit('.', 1)[0])
          if isinstance(cls, type):
              return cls
      return getattr(meth, '__objclass__', None)  # handle special descriptor objects
  \<close>
  The result is the name of the class found, or \<open>None\<close>. The \<open>getattr\<close> on the module has
  no default: it raises \<open>AttributeError\<close> when the module has no attribute of that name, and
  so does \<open>getattr\<close> on \<open>None\<close> when no module is found. A function has no \<open>__objclass__\<close>.
\<close>

definition class_of_function :: "py_function \<Rightarrow> py_exception + string option" where
  "class_of_function f =
     (case func_module f of
        None \<Rightarrow> Inl AttributeError
      | Some namespace \<Rightarrow>
          (case map_of namespace (before_last_dot (before_first ''.<locals>'' (func_qualname f))) of
             None \<Rightarrow> Inl AttributeError
           | Some (ClassObject c) \<Rightarrow> Inr (Some c)
           | Some OtherObject \<Rightarrow> Inr None))"

fun get_class_that_defined_method :: "py_callable \<Rightarrow> py_exception + string option" where
  "get_class_that_defined_method (Function f) = class_of_function f"
| "get_class_that_defined_method (BoundMethod i mro f) =
     (case filter (\<lambda>cls. map_of (cls_dict cls) (func_name f) = Some i) (rev mro) of
        cls # _ \<Rightarrow> Inr (Some (cls_name cls))
      | [] \<Rightarrow> class_of_function f)"

definition class_name :: "py_callable \<Rightarrow> py_exception + string" where
  \<comment> \<open>\<^verbatim>\<open>cls_str = cls.__name__ + '.' if cls else ''\<close>\<close>
  "class_name fn =
     (case get_class_that_defined_method fn of
        Inl err \<Rightarrow> Inl err
      | Inr None \<Rightarrow> Inr []
      | Inr (Some c) \<Rightarrow> Inr (c @ ''.''))"

text \<open>
  The world the wrappers observe: the clock, the memory in use (a percentage), the depth of
  the stack as \<open>inspect.stack()\<close> reports it (\<open>None\<close> when \<open>inspect\<close> raises \<open>IndexError\<close>,
  which \<open>get_stack_depth\<close> turns into 0), what the thread of the memory monitor has measured
  since it started, and the records the logger has received (level and message). The
  formatting of floats is left to two functions. A wrapped function runs in this world and
  returns a value or raises.
\<close>

record world =
  now :: real
  memory_percent :: real
  stack_depth :: "nat option"
  monitor_samples :: "real list"
  log_records :: "(nat \<times> string) list"

record float_format =
  format_2f :: "real \<Rightarrow> string"
  str_float :: "real \<Rightarrow> string"

definition WRAPPERS_LOGGING_LEVEL :: nat where
  "WRAPPERS_LOGGING_LEVEL = 20"

definition MIN_TIME_TO_LOG :: real where
  "MIN_TIME_TO_LOG = 1"

definition get_stack_depth :: "world \<Rightarrow> nat" where
  "get_stack_depth w = (case stack_depth w of None \<Rightarrow> 0 | Some d \<Rightarrow> d)"

definition monitor_stop :: "world \<Rightarrow> real \<times> real" where
  \<comment> \<open>\<open>MaxMemoryMonitor.stop\<close>: a last measurement, then (current, peak); the peak starts at 0\<close>
  "monitor_stop w =
     (memory_percent w, fold max (monitor_samples w @ [memory_percent w]) 0)"

text \<open>
  \<^verbatim>\<open>
  def inner(*args, **kwargs):
      mem_monitor = MaxMemoryMonitor().start()
      start = time.time()
      result = fn(*args, **kwargs)
      elapsed = time.time() - start
      duration_str = '%.2f' % elapsed
      cur_mem, peak_mem = mem_monitor.stop()
      mem_str = '%s%%(peak:%s%%)' % (cur_mem, peak_mem)
      ret_str = variable_info(result)
      stack_depth = get_stack_depth()
      fn_str = class_name(fn) + fn.__name__
      msg = ' ' * stack_depth + \
            '%s, elapsed: %s, returned: %s, sys mem: %s' % \
            (fn_str, duration_str, ret_str, mem_str)
      if elapsed >= MIN_TIME_TO_LOG:
          simple_logger.log(WRAPPERS_LOGGING_LEVEL, msg)
      return result
  \<close>
  \<open>fn\<close> is the callable as \<open>inspect\<close> sees it, \<open>body\<close> what calling it does.
\<close>

definition log_time_and_shape ::
  "float_format \<Rightarrow> py_callable \<Rightarrow> ('a \<Rightarrow> world \<Rightarrow> (py_exception + py_result) \<times> world)
     \<Rightarrow> 'a \<Rightarrow> world \<Rightarrow> (py_exception + py_result) \<times> world" where
  "log_time_and_shape fmt fn body args w =
     (let start = now w in
      case body args w of
        (Inl err, w1) \<Rightarrow> (Inl err, w1)
      | (Inr result, w1) \<Rightarrow>
          (let elapsed = now w1 - start;
               duration_str = format_2f fmt elapsed;
               (cur_mem, peak_mem) = monitor_stop w1;
               mem_str = str_float fmt cur_mem @ ''%(peak:'' @ str_float fmt peak_mem @ ''%)'';
               ret_str = variable_info result
           in case class_name fn of
                Inl err \<Rightarrow> (Inl err, w1)
              | Inr cls_str \<Rightarrow>
                  (let fn_str = cls_str @ callable_name fn;
                       msg = replicate (get_stack_depth w1) CHR '' '' @ fn_str @ '', elapsed: ''
                             @ duration_str @ '', returned: '' @ ret_str @ '', sys mem: '' @ mem_str
                   in if elapsed \<ge> MIN_TIME_TO_LOG
                      then (Inr result,
                            w1\<lparr>log_records := log_records w1 @ [(WRAPPERS_LOGGING_LEVEL, msg)]\<rparr>)
                      else (Inr result, w1))))"

text \<open>
  \<^verbatim>\<open>
  def timer_deco(fn):
      log_format = 'function %s: %s s'
      def inner(*args, **kwargs):
          start = time.time()
          result = fn(*args, **kwargs)
          duration = time.time() - start
          simple_logger.log(WRAPPERS_LOGGING_LEVEL, log_format,
                            fn.__name__, duration)
          return result
  \<close>
\<close>

definition timer_deco ::
  "float_format \<Rightarrow> py_callable \<Rightarrow> ('a \<Rightarrow> world \<Rightarrow> (py_exception + 'r) \<times> world)
     \<Rightarrow> 'a \<Rightarrow> world \<Rightarrow> (py_exception + 'r) \<times> world" where
  "timer_deco fmt fn body args w =
     (let start = now w in
      case body args w of
        (Inl err, w1) \<Rightarrow> (Inl err, w1)
      | (Inr result, w1) \<Rightarrow>
          (let duration = now w1 - start
           in (Inr result,
               w1\<lparr>log_records := log_records w1 @
                    [(WRAPPERS_LOGGING_LEVEL,
                      ''function '' @ callable_name fn @ '': '' @ str_float fmt duration @ '' s'')]\<rparr>)))"

section \<open>Frames of recommendations and similarities (recommender\_base.py)\<close>

text \<open>
  A flat frame has one row per (source, target, score): (user, item, prediction) for
  recommendations, (source item, item, prediction) for similarities. A frame of lists has
  one row per source, with the list of its targets and the list of their scores. Scores are
  real numbers. Identifiers are of any type with an order (the order in which \<open>groupby\<close>
  lays out its groups); the casts to \<open>str\<close> of the source are the identity on string ids.
\<close>

type_synonym ('s, 't) flat_df = "('s \<times> 't \<times> real) list"
type_synonym ('s, 't) lists_df = "('s \<times> 't list \<times> real list) list"

datatype ('s, 't) results_df = Flat "('s, 't) flat_df" | Lists "('s, 't) lists_df"

definition py_slice_to :: "int option \<Rightarrow> 'a list \<Rightarrow> 'a list" where
  \<comment> \<open>\<^verbatim>\<open>list(x)[:n_cutoff]\<close>: everything for \<open>None\<close>, counted from the end when negative\<close>
  "py_slice_to n_cutoff xs =
     (case n_cutoff of
        None \<Rightarrow> xs
      | Some k \<Rightarrow> if 0 \<le> k then take (nat k) xs else take (nat (int (length xs) + k)) xs)"

fun unique :: "'a list \<Rightarrow> 'a list" where
  \<comment> \<open>\<open>Series.unique()\<close>: the distinct values in the order of their first appearance\<close>
  "unique [] = []"
| "unique (x # xs) = x # unique (filter (\<lambda>y. y \<noteq> x) xs)"

text \<open>
  \<^verbatim>\<open>
  def _flat_df_to_lists(df, sort_col, group_col, n_cutoff, target_columns):
      order = [group_col] + target_columns
      return df[order]. \
          sort_values(sort_col, ascending=False). \
          groupby(group_col). \
          aggregate(lambda x: list(x)[:n_cutoff]). \
          reset_index()
  \<close>
  Both callers sort by the prediction, group by the source and collect the targets and
  the predictions. The rows are sorted by descending score (rows of equal score stay in
  their order here; pandas does not promise that), the groups come in the order of their
  keys, and each group keeps the order of the sorted rows.
\<close>

definition flat_df_to_lists ::
  "('s::linorder, 't) flat_df \<Rightarrow> int option \<Rightarrow> ('s, 't) lists_df" where
  "flat_df_to_lists df n_cutoff =
     (let sorted_rows = sort_key (\<lambda>(s, t, p). - p) df;
          groups = sort (remdups (map fst sorted_rows))
      in map (\<lambda>g. let rows = filter (\<lambda>(s, t, p). s = g) sorted_rows
                   in (g, py_slice_to n_cutoff (map (\<lambda>(s, t, p). t) rows),
                          py_slice_to n_cutoff (map (\<lambda>(s, t, p). p) rows)))
             groups)"

definition recos_flat_to_lists ::
  "('u::linorder, 'i) flat_df \<Rightarrow> int option \<Rightarrow> ('u, 'i) lists_df" where
  "recos_flat_to_lists df n_cutoff = flat_df_to_lists df n_cutoff"

definition simil_flat_to_lists ::
  "('i::linorder, 'i) flat_df \<Rightarrow> int option \<Rightarrow> ('i, 'i) lists_df" where
  "simil_flat_to_lists df n_cutoff = flat_df_to_lists df n_cutoff"

section \<open>The sparse recommender (recommender\_base.py, BaseDFSparseRecommender)\<close>

text \<open>
  The training frame has one row per observation: user, item and rating. A rating can be
  null (NaN): \<open>None\<close>. \<open>user_train_counts\<close> is the cache of the training counts per user,
  \<open>None\<close> until it is first computed.
\<close>

record ('u, 'i) sparse_recommender =
  train_df :: "('u \<times> 'i \<times> real option) list"
  user_train_counts :: "('u \<times> nat) list option"

definition all_users :: "('u, 'i) sparse_recommender \<Rightarrow> 'u list" where
  "all_users r = unique (map fst (train_df r))"

definition all_items :: "('u, 'i) sparse_recommender \<Rightarrow> 'i list" where
  "all_items r = unique (map (\<lambda>(u, i, rating). i) (train_df r))"

definition filter_array :: "'a list \<Rightarrow> 'a list \<Rightarrow> 'a list" where
  \<comment> \<open>\<^verbatim>\<open>array[np.isin(array, filter_array)]\<close>; the count of the discarded ids is only logged\<close>
  "filter_array array flt = filter (\<lambda>x. x \<in> set flt) array"

definition remove_unseen_users :: "('u, 'i) sparse_recommender \<Rightarrow> 'u list \<Rightarrow> 'u list" where
  "remove_unseen_users r user_ids = filter_array user_ids (all_users r)"

definition remove_unseen_items :: "('u, 'i) sparse_recommender \<Rightarrow> 'i list \<Rightarrow> 'i list" where
  "remove_unseen_items r item_ids = filter_array item_ids (all_items r)"

text \<open>
  \<^verbatim>\<open>
  def _remove_training_from_df(self, flat_df):
      flat_df = pd.merge(
          flat_df, self.train_df,
          left_on=[self._user_col, self._item_col],
          right_on=[self._user_col, self.sparse_mat_builder.iid_source_col],
          how='left')
      # keep only data that was present in left (recommendations) but no in right (training)
      flat_df = flat_df[flat_df[self._rating_col].isnull()] \
          [[self._user_col, self._item_col, self._prediction_col]]
      return flat_df
  \<close>
  The left merge gives one row for every training row that matches a row of the left
  frame, with the rating of that training row (null when the training row has none), and
  one row with a null rating for a left row that nothing matches.
\<close>

definition left_merge_training ::
  "('u, 'i) flat_df \<Rightarrow> ('u \<times> 'i \<times> real option) list
     \<Rightarrow> ('u \<times> 'i \<times> real \<times> real option) list" where
  "left_merge_training flat_df training =
     concat (map (\<lambda>(u, i, p).
        (let matches = filter (\<lambda>(u', i', rating). u' = u \<and> i' = i) training
         in if matches = [] then [(u, i, p, None)]
            else map (\<lambda>(u', i', rating). (u, i, p, rating)) matches)) flat_df)"

definition remove_training_from_df ::
  "('u, 'i) sparse_recommender \<Rightarrow> ('u, 'i) flat_df \<Rightarrow> ('u, 'i) flat_df" where
  "remove_training_from_df r flat_df =
     map (\<lambda>(u, i, p, rating). (u, i, p))
         (filter (\<lambda>(u, i, p, rating). rating = None) (left_merge_training flat_df (train_df r)))"

definition remove_self_similarities :: "('i, 'i) flat_df \<Rightarrow> ('i, 'i) flat_df" where
  \<comment> \<open>\<^verbatim>\<open>flat_df[flat_df[col1].values != flat_df[col2].values].copy()\<close>\<close>
  "remove_self_similarities flat_df = filter (\<lambda>(s, t, p). s \<noteq> t) flat_df"

text \<open>
  \<open>value_counts()\<close>: the number of rows of each user, largest first (users of equal count
  in the order of their first row here; nothing below depends on that order).
  \<^verbatim>\<open>
  def _separate_heavy_users(self, user_ids, threshold=100):
      # calculate the user training counts if not calculated
      if self.user_train_counts is None:
          self.user_train_counts = self.train_df.userid.value_counts()
      user_counts = self.user_train_counts[self.user_train_counts.index.isin(user_ids)]
      heavy_user_counts = user_counts[user_counts >= threshold]
      heavy_users_max = heavy_user_counts.max()
      heavy_users = heavy_user_counts.index.tolist()
      normal_users = user_counts[user_counts < threshold].index.tolist()
      return heavy_users, normal_users, heavy_users_max
  \<close>
  The maximum of no counts is NaN: \<open>None\<close>. The recommender comes back with its cache set.
\<close>

definition value_counts :: "'u list \<Rightarrow> ('u \<times> nat) list" where
  "value_counts xs =
     sort_key (\<lambda>(u, c). - int c) (map (\<lambda>u. (u, count_list xs u)) (unique xs))"

definition separate_heavy_users ::
  "('u, 'i) sparse_recommender \<Rightarrow> 'u list \<Rightarrow> int
     \<Rightarrow> 'u list \<times> 'u list \<times> nat option \<times> ('u, 'i) sparse_recommender" where
  "separate_heavy_users r user_ids threshold =
     (let counts = (case user_train_counts r of
                      None \<Rightarrow> value_counts (map fst (train_df r))
                    | Some c \<Rightarrow> c);
          user_counts = filter (\<lambda>(u, c). u \<in> set user_ids) counts;
          heavy_user_counts = filter (\<lambda>(u, c). int c \<ge> threshold) user_counts;
          heavy_users_max = (if heavy_user_counts = [] then None
                             else Some (Max (set (map snd heavy_user_counts))));
          heavy_users = map fst heavy_user_counts;
          normal_users = map fst (filter (\<lambda>(u, c). int c < threshold) user_counts)
      in (heavy_users, normal_users, heavy_users_max, r\<lparr>user_train_counts := Some counts\<rparr>))"

text \<open>
  \<^verbatim>\<open>
  heavy_users, normal_users, heavy_users_max = \
      self._separate_heavy_users(user_ids=user_ids, threshold=50)
  reco_dfs = []
  for user_group, n_unfilt in zip([heavy_users, normal_users],
                                  [n_rec_unfilt + heavy_users_max, n_rec_unfilt]):
      if len(user_group):
          reco_dfs.append(
              self._get_recommendations_flat_unfilt(
                  user_ids=user_group, item_ids=item_ids, n_rec_unfilt=n_unfilt, pbar=pbar))
  recos_flat = pd.concat(reco_dfs, axis=0)
  \<close>
  \<open>unfilt_requests\<close> is the list the loop runs over: each group of users with the width of
  its request. The width of the heavy group is NaN (\<open>None\<close>) exactly when there is no heavy
  user, and then the group is empty and skipped. \<open>_get_recommendations_flat_unfilt\<close> is
  abstract: \<open>unfilt\<close> stands for it. \<open>pd.concat\<close> of no frames raises \<open>ValueError\<close>.
\<close>

definition unfilt_requests ::
  "'u list \<Rightarrow> 'u list \<Rightarrow> nat option \<Rightarrow> int \<Rightarrow> ('u list \<times> int option) list" where
  "unfilt_requests heavy_users normal_users heavy_users_max n_rec_unfilt =
     zip [heavy_users, normal_users]
         [map_option (\<lambda>m. n_rec_unfilt + int m) heavy_users_max, Some n_rec_unfilt]"

fun collect_recos ::
  "('u list \<Rightarrow> 'i list \<Rightarrow> int \<Rightarrow> py_exception + ('u, 'i) flat_df) \<Rightarrow> 'i list
     \<Rightarrow> ('u list \<times> int option) list \<Rightarrow> py_exception + ('u, 'i) flat_df list" where
  "collect_recos unfilt item_ids [] = Inr []"
| "collect_recos unfilt item_ids ((user_group, n_unfilt) # rest) =
     (if user_group \<noteq> []
      then (case n_unfilt of
              None \<Rightarrow> Inl ValueError
            | Some width \<Rightarrow>
                (case unfilt user_group item_ids width of
                   Inl err \<Rightarrow> Inl err
                 | Inr df \<Rightarrow>
                     (case collect_recos unfilt item_ids rest of
                        Inl err \<Rightarrow> Inl err
                      | Inr dfs \<Rightarrow> Inr (df # dfs))))
      else collect_recos unfilt item_ids rest)"

definition pd_concat :: "'a list list \<Rightarrow> py_exception + 'a list" where
  "pd_concat dfs = (if dfs = [] then Inl ValueError else Inr (concat dfs))"

text \<open>
  \<^verbatim>\<open>
  def get_recommendations(
          self, user_ids=None, item_ids=None, n_rec=10, n_rec_unfilt=100,
          exclude_training=True, pbar=None, results_format='lists'):
      if user_ids is not None:
          user_ids = self.remove_unseen_users(user_ids, message_prefix='get_recommendations: ')
      else:
          user_ids = self.all_users()
      if item_ids is not None:
          item_ids = self.remove_unseen_items(item_ids, message_prefix='get_recommendations: ')
      else:
          item_ids = self.all_items()
      ...
      if exclude_training:
          recos_flat = self._remove_training_from_df(recos_flat)
      if results_format == 'flat':
          return recos_flat
      else:
          return self._recos_flat_to_lists(recos_flat, n_cutoff=n_rec)
  \<close>
\<close>

definition resolve_user_ids :: "('u, 'i) sparse_recommender \<Rightarrow> 'u list option \<Rightarrow> 'u list" where
  "resolve_user_ids r user_ids =
     (case user_ids of Some ids \<Rightarrow> remove_unseen_users r ids | None \<Rightarrow> all_users r)"

definition resolve_item_ids :: "('u, 'i) sparse_recommender \<Rightarrow> 'i list option \<Rightarrow> 'i list" where
  "resolve_item_ids r item_ids =
     (case item_ids of Some ids \<Rightarrow> remove_unseen_items r ids | None \<Rightarrow> all_items r)"

definition get_recommendations ::
  "('u list \<Rightarrow> 'i list \<Rightarrow> int \<Rightarrow> py_exception + ('u::linorder, 'i) flat_df)
     \<Rightarrow> ('u, 'i) sparse_recommender \<Rightarrow> 'u list option \<Rightarrow> 'i list option \<Rightarrow> int \<Rightarrow> int
     \<Rightarrow> bool \<Rightarrow> string
     \<Rightarrow> (py_exception + ('u, 'i) results_df) \<times> ('u, 'i) sparse_recommender" where
  "get_recommendations unfilt r user_ids item_ids n_rec n_rec_unfilt exclude_training
       results_format =
     (let user_ids' = resolve_user_ids r user_ids;
          item_ids' = resolve_item_ids r item_ids
      in case separate_heavy_users r user_ids' 50 of
           (heavy_users, normal_users, heavy_users_max, r') \<Rightarrow>
             (case collect_recos unfilt item_ids'
                     (unfilt_requests heavy_users normal_users heavy_users_max n_rec_unfilt) of
                Inl err \<Rightarrow> (Inl err, r')
              | Inr reco_dfs \<Rightarrow>
                  (case pd_concat reco_dfs of
                     Inl err \<Rightarrow> (Inl err, r')
                   | Inr recos_flat \<Rightarrow>
                       (let recos_flat' = (if exclude_training
                                           then remove_training_from_df r' recos_flat
                                           else recos_flat)
                        in if results_format = ''flat''
                           then (Inr (Flat recos_flat'), r')
                           else (Inr (Lists (recos_flat_to_lists recos_flat' (Some n_rec))), r')))))"



text \<open>
  \<^verbatim>\<open>
  def _format_results_df(self, source_vec, target_ids_mat, scores_mat, results_format):
      if 'recommendations' in results_format: ...
      elif 'similarities' in results_format: ...
      else:
          raise NotImplementedError('results_format: ' + results_format)
      order = [source_col, target_col, scores_col]
      if 'lists' in results_format:
          return pd.DataFrame({
              source_col: source_vec,
              target_col: list(target_ids_mat),
              scores_col: list(scores_mat)
          })[order]
      elif 'flat' in results_format:
          n_rec = target_ids_mat.shape[1]
          return pd.DataFrame({
              source_col: np.array(source_vec).repeat(n_rec),
              target_col: np.concatenate(list(target_ids_mat)),
              scores_col: np.concatenate(list(scores_mat)),
          })[order]
      else:
          raise NotImplementedError('results_format: ' + results_format)
  \<close>
  A matrix is the list of its rows. The first test only chooses the names of the columns.
  A frame cannot be built from columns of different lengths, and \<open>np.concatenate\<close> of no
  rows fails: both raise \<open>ValueError\<close>.
\<close>

definition format_results_df ::
  "'s list \<Rightarrow> 't list list \<Rightarrow> real list list \<Rightarrow> string \<Rightarrow> py_exception + ('s, 't) results_df" where
  "format_results_df source_vec target_ids_mat scores_mat results_format =
     (if \<not> str_contains ''recommendations'' results_format
         \<and> \<not> str_contains ''similarities'' results_format
      then Inl (NotImplementedError (''results_format: '' @ results_format))
      else if str_contains ''lists'' results_format
      then (if length source_vec = length target_ids_mat
               \<and> length target_ids_mat = length scores_mat
            then Inr (Lists (zip source_vec (zip target_ids_mat scores_mat)))
            else Inl ValueError)
      else if str_contains ''flat'' results_format
      then (case target_ids_mat of
              [] \<Rightarrow> Inl ValueError
            | row # _ \<Rightarrow>
                (let n_rec = length row;
                     sources = concat (map (replicate n_rec) source_vec);
                     targets = concat target_ids_mat;
                     scores = concat scores_mat
                 in if scores_mat \<noteq> [] \<and> length sources = length targets
                       \<and> length targets = length scores
                    then Inr (Flat (zip sources (zip targets scores)))
                    else Inl ValueError))
      else Inl (NotImplementedError (''results_format: '' @ results_format)))"

section \<open>Similar items of a factorization recommender (factorization\_base.py)\<close>

text \<open>
  \<open>most_similar\<close> is not part of these files. It stands here as a function of what
  \<open>get_similar_items\<close> asks of it: the source ids, the target ids, the number of neighbours
  \<open>n\<close>, the similarity mode, and the embeddings mode that selects the item factors. It
  answers with the matrix of the best ids and the matrix of their scores, or raises.
\<close>

record 'i similarity_request =
  source_ids :: "'i list"
  target_ids :: "'i list option"
  n_requested :: int
  simil_mode :: string
  embeddings_mode :: "string option"

definition check_item_ids_args ::
  "('u, 'i) sparse_recommender \<Rightarrow> 'i list option \<Rightarrow> 'i list option \<Rightarrow> 'i list \<times> 'i list option" where
  "check_item_ids_args r item_ids target_item_ids =
     ((case item_ids of None \<Rightarrow> all_items r | Some ids \<Rightarrow> remove_unseen_items r ids),
      (case target_item_ids of None \<Rightarrow> None | Some ids \<Rightarrow> Some (remove_unseen_items r ids)))"

text \<open>
  \<^verbatim>\<open>
  item_ids, target_item_ids = self._check_item_ids_args(item_ids, target_item_ids)
  biases, representations = self._get_item_factors(mode=embeddings_mode)
  best_ids, best_scores = most_similar(
      source_ids=item_ids, target_ids=target_item_ids,
      source_encoder=self.sparse_mat_builder.iid_encoder,
      source_mat=representations, source_biases=biases,
      n=n_simil+1 if remove_self else n_simil,
      simil_mode=simil_mode, pbar=pbar)
  simil_df = self._format_results_df(
      item_ids, target_ids_mat=best_ids,
      scores_mat=best_scores, results_format='similarities_flat')
  if remove_self:
      simil_df = self._remove_self_similarities(
          simil_df, col1=self._item_col_simil, col2=self._item_col)
  if 'lists' in results_format:
      simil_df = self._simil_flat_to_lists(simil_df, n_cutoff=n_simil)
  return simil_df
  \<close>
  \<open>similar_items_request\<close> is the request the call of \<open>most_similar\<close> sends. The format
  \<open>similarities_flat\<close> contains \<open>flat\<close> and not \<open>lists\<close>, so the frame that comes back is flat.
\<close>

definition similar_items_request ::
  "('u, 'i) sparse_recommender \<Rightarrow> 'i list option \<Rightarrow> 'i list option \<Rightarrow> int \<Rightarrow> bool
     \<Rightarrow> string option \<Rightarrow> string \<Rightarrow> 'i similarity_request" where
  "similar_items_request r item_ids target_item_ids n_simil remove_self emb_mode sim_mode =
     (case check_item_ids_args r item_ids target_item_ids of
        (item_ids', target_item_ids') \<Rightarrow>
          \<lparr>source_ids = item_ids', target_ids = target_item_ids',
           n_requested = (if remove_self then n_simil + 1 else n_simil),
           simil_mode = sim_mode, embeddings_mode = emb_mode\<rparr>)"

definition get_similar_items ::
  "('i similarity_request \<Rightarrow> py_exception + 'i list list \<times> real list list)
     \<Rightarrow> ('u, 'i::linorder) sparse_recommender \<Rightarrow> 'i list option \<Rightarrow> 'i list option \<Rightarrow> int \<Rightarrow> bool
     \<Rightarrow> string option \<Rightarrow> string \<Rightarrow> string \<Rightarrow> py_exception + ('i, 'i) results_df" where
  "get_similar_items most_similar r item_ids target_item_ids n_simil remove_self emb_mode sim_mode
       results_format =
     (let request = similar_items_request r item_ids target_item_ids n_simil remove_self
                      emb_mode sim_mode
      in case most_similar request of
           Inl err \<Rightarrow> Inl err
         | Inr (best_ids, best_scores) \<Rightarrow>
             (case format_results_df (source_ids request) best_ids best_scores
                     ''similarities_flat'' of
                Inl err \<Rightarrow> Inl err
              | Inr (Lists l) \<Rightarrow> Inr (Lists l)
              | Inr (Flat simil_df) \<Rightarrow>
                  (let simil_df' = (if remove_self then remove_self_similarities simil_df
                                    else simil_df)
                   in if str_contains ''lists'' results_format
                      then Inr (Lists (simil_flat_to_lists simil_df' (Some n_simil)))
                      else Inr (Flat simil_df'))))"

section \<open>The cascade of two recommenders (combination\_ensembles.py, lightfm\_recommender.py)\<close>

text \<open>
  Modelled from the spec: \<open>add_encoded_cols\<close> of the interaction matrix builder, which is not
  part of these files. The builder holds the two label encoders (user id to index, item id
  to index); an id the encoders have not seen cannot be encoded, which is an error. The
  frame gets the two index columns; its rows stay as they are.
\<close>

fun add_encoded_cols ::
  "('u \<Rightarrow> nat option) \<Rightarrow> ('i \<Rightarrow> nat option) \<Rightarrow> ('u, 'i) flat_df
     \<Rightarrow> py_exception + ('u \<times> 'i \<times> real \<times> nat \<times> nat) list" where
  "add_encoded_cols uid_encoder iid_encoder [] = Inr []"
| "add_encoded_cols uid_encoder iid_encoder ((u, i, p) # rows) =
     (case (uid_encoder u, iid_encoder i) of
        (Some cu, Some ci) \<Rightarrow>
          (case add_encoded_cols uid_encoder iid_encoder rows of
             Inl err \<Rightarrow> Inl err
           | Inr rows' \<Rightarrow> Inr ((u, i, p, cu, ci) # rows'))
      | _ \<Rightarrow> Inl ValueError)"

text \<open>
  \<^verbatim>\<open>
  def predict_on_df(self, df):
      mat_builder = self.get_prediction_mat_builder_adapter(self.sparse_mat_builder)
      df = mat_builder.add_encoded_cols(df)
      df[self._prediction_col] = self.model.predict(
          df[mat_builder.uid_col].values,
          df[mat_builder.iid_col].values,
          item_features=self.fit_params['item_features'],
          num_threads=self.fit_params['num_threads'])
      df.drop([mat_builder.uid_col, mat_builder.iid_col], axis=1, inplace=True)
      return df
  \<close>
  \<open>model_predict\<close> is the \<open>predict\<close> of the fitted LightFM model, from the two fit
  parameters and the two arrays of indices to the array of scores. A column can only be
  assigned an array of the length of the frame.
\<close>

definition predict_on_df ::
  "('u \<Rightarrow> nat option) \<Rightarrow> ('i \<Rightarrow> nat option) \<Rightarrow> pyval dict
     \<Rightarrow> (pyval \<Rightarrow> pyval \<Rightarrow> nat list \<Rightarrow> nat list \<Rightarrow> real list)
     \<Rightarrow> ('u, 'i) flat_df \<Rightarrow> py_exception + ('u, 'i) flat_df" where
  "predict_on_df uid_encoder iid_encoder fitp model_predict df =
     (case add_encoded_cols uid_encoder iid_encoder df of
        Inl err \<Rightarrow> Inl err
      | Inr rows \<Rightarrow>
          (case (map_of fitp ''item_features'', map_of fitp ''num_threads'') of
             (Some item_features, Some num_threads) \<Rightarrow>
               (let predictions = model_predict item_features num_threads
                                    (map (\<lambda>(u, i, p, cu, ci). cu) rows)
                                    (map (\<lambda>(u, i, p, cu, ci). ci) rows)
                in if length predictions = length rows
                   then Inr (map (\<lambda>((u, i, p, cu, ci), q). (u, i, q)) (zip rows predictions))
                   else Inl ValueError)
           | _ \<Rightarrow> Inl KeyError))"

definition pointwise_predict ::
  "(nat \<Rightarrow> nat \<Rightarrow> real) \<Rightarrow> pyval \<Rightarrow> pyval \<Rightarrow> nat list \<Rightarrow> nat list \<Rightarrow> real list" where
  \<comment> \<open>a model that scores each (user index, item index) pair on its own\<close>
  "pointwise_predict score item_features num_threads uids iids =
     map (\<lambda>(cu, ci). score cu ci) (zip uids iids)"

text \<open>
  A member of a combination ensemble, as far as the ensembles use it: its unfiltered
  recommendations (user ids, the item ids passed on in \<open>kwargs\<close>, the width) and its
  \<open>predict_on_df\<close>.
  \<^verbatim>\<open>
  class CascadeEnsemble(CombinationEnsembleBase):
      def __init__(self, recommenders, *args, **kwargs):
          super().__init__(recommenders, *args, **kwargs)
          assert self.n_recommenders == 2, 'only 2 recommenders supported'

      def _get_recommendations_flat_unfilt(self, user_ids, n_rec_unfilt, pbar=None, **kwargs):
          recos_df = self.recommenders[0]._get_recommendations_flat_unfilt(
              user_ids=user_ids, n_rec_unfilt=n_rec_unfilt, pbar=None, **kwargs)
          return self.recommenders[1].predict_on_df(recos_df)
  \<close>
  The constructor of the base class reads \<open>recommenders[0]\<close> before the assertion.
\<close>

record ('u, 'i) member =
  flat_unfilt :: "'u list \<Rightarrow> 'i list \<Rightarrow> int \<Rightarrow> py_exception + ('u, 'i) flat_df"
  member_predict_on_df :: "('u, 'i) flat_df \<Rightarrow> py_exception + ('u, 'i) flat_df"

definition cascade_init :: "('u, 'i) member list \<Rightarrow> py_exception + ('u, 'i) member list" where
  "cascade_init recommenders =
     (if recommenders = [] then Inl IndexError
      else if length recommenders = 2 then Inr recommenders
      else Inl AssertionError)"

definition cascade_flat_unfilt ::
  "('u, 'i) member list \<Rightarrow> 'u list \<Rightarrow> 'i list \<Rightarrow> int \<Rightarrow> py_exception + ('u, 'i) flat_df" where
  "cascade_flat_unfilt recommenders user_ids item_ids n_rec_unfilt =
     (case recommenders of
        first # second # _ \<Rightarrow>
          (case flat_unfilt first user_ids item_ids n_rec_unfilt of
             Inl err \<Rightarrow> Inl err
           | Inr recos_df \<Rightarrow> member_predict_on_df second recos_df)
      | _ \<Rightarrow> Inl IndexError)"

section \<open>Rank combination (combination\_ensembles.py, CombinedRankEnsemble)\<close>

text \<open>
  The combined score is a float that can be infinite: \<open>1 / rank\<close> on an array is \<open>inf\<close>
  where the rank is 0. The reductions of numpy and scipy that combine the reciprocal ranks
  of a row are not part of these files: they are the fields of \<open>reductions\<close>.
  \<^verbatim>\<open>
  def rank_combination_function(mode):
      if mode == 'mean':
          return np.mean
      elif mode == 'max':
          return np.max
      elif mode == 'min':
          return np.min
      elif mode == 'gmean':
          return scipy.stats.gmean
      elif mode == 'hmean':
          return scipy.stats.hmean
      else:
          raise ValueError('Unknown rank_combination_mode: ' + mode)
  \<close>
\<close>

datatype np_float = Finite real | PosInf

definition np_recip :: "real \<Rightarrow> np_float" where
  "np_recip r = (if r = 0 then PosInf else Finite (1 / r))"

record reductions =
  np_mean :: "np_float list \<Rightarrow> np_float"
  np_max :: "np_float list \<Rightarrow> np_float"
  np_min :: "np_float list \<Rightarrow> np_float"
  gmean :: "np_float list \<Rightarrow> np_float"
  hmean :: "np_float list \<Rightarrow> np_float"

definition rank_combination_function ::
  "reductions \<Rightarrow> string \<Rightarrow> py_exception + (np_float list \<Rightarrow> np_float)" where
  "rank_combination_function lib mode =
     (if mode = ''mean'' then Inr (np_mean lib)
      else if mode = ''max'' then Inr (np_max lib)
      else if mode = ''min'' then Inr (np_min lib)
      else if mode = ''gmean'' then Inr (gmean lib)
      else if mode = ''hmean'' then Inr (hmean lib)
      else Inl ValueError)"

text \<open>
  \<^verbatim>\<open>df.groupby(groupby_col)[scores_col].rank(ascending=False)\<close>: the rank of a row among the
  rows of its group, 1 for the highest score; rows of equal score share the average of
  their places, which is the number of higher rows plus half of one more than the number
  of rows of that score.
\<close>

definition group_rank :: "('g, 'i) flat_df \<Rightarrow> 'g \<Rightarrow> real \<Rightarrow> real" where
  "group_rank df g s =
     real (length (filter (\<lambda>(g', i', s'). g' = g \<and> s' > s) df))
     + (real (length (filter (\<lambda>(g', i', s'). g' = g \<and> s' = s) df)) + 1) / 2"

definition rank_frame :: "('g, 'i) flat_df \<Rightarrow> (('g \<times> 'i) \<times> real) list" where
  \<comment> \<open>the frame of a member with the rank column in the place of the score column\<close>
  "rank_frame df = map (\<lambda>(g, i, s). ((g, i), group_rank df g s)) df"

definition frame_keys :: "('g, 'i) flat_df \<Rightarrow> ('g \<times> 'i) set" where
  "frame_keys df = (\<lambda>(g, i, s). (g, i)) ` set df"

text \<open>
  The merged frame has the key (group, item) and one rank column per member merged so far;
  a rank is missing (\<open>None\<close>) where the member has no row for the key.
  \<^verbatim>\<open>merged_df = pd.merge(merged_df, df, on=[groupby_col, item_col], how='outer')\<close>
  gives a row for every pair of a left row and a right row of the same key, a row with a
  missing new rank for a left row without partner, and a row with missing old ranks for a
  right row without partner. The rows are laid out here as left rows first; nothing below
  depends on the order of the rows.
\<close>

type_synonym ('g, 'i) rank_table = "(('g \<times> 'i) \<times> real option list) list"

definition outer_merge ::
  "('g, 'i) rank_table \<Rightarrow> nat \<Rightarrow> (('g \<times> 'i) \<times> real) list \<Rightarrow> ('g, 'i) rank_table" where
  "outer_merge merged_df n_cols df =
     concat (map (\<lambda>(key, cols).
        (let partners = filter (\<lambda>(key', r). key' = key) df
         in if partners = [] then [(key, cols @ [None])]
            else map (\<lambda>(key', r). (key, cols @ [Some r])) partners)) merged_df)
     @ map (\<lambda>(key, r). (key, replicate n_cols None @ [Some r]))
           (filter (\<lambda>(key, r). key \<notin> fst ` set merged_df) df)"

text \<open>
  \<^verbatim>\<open>
  def calc_dfs_and_combine_scores(calc_funcs, combine_func, fill_val,
                                  groupby_col, item_col, scores_col, multithreaded=False):
      dfs = []
      if multithreaded:
          with ThreadPool(len(calc_funcs)) as pool:
              dfs = pool.map(lambda f: f(), calc_funcs)
      merged_df = None
      rank_cols = []
      for i, func in enumerate(calc_funcs):
          if dfs:
              df = dfs[i]
          else:
              df = func()
          rank_cols.append('rank_' + str(i))
          df[rank_cols[-1]] = df.groupby(groupby_col)[scores_col].rank(ascending=False)
          df.drop(scores_col, axis=1, inplace=True)
          if merged_df is None:
              merged_df = df
          else:
              merged_df = pd.merge(merged_df, df, on=[groupby_col, item_col], how='outer')
      merged_df.fillna(fill_val, inplace=True)
      # combine ranks
      merged_df[scores_col] = combine_func(1 / merged_df[rank_cols].values, axis=1)
      # drop temp cols
      merged_df.drop(rank_cols, axis=1, inplace=True)
      return merged_df
  \<close>
  A member's function returns its frame or raises. \<open>pool.map\<close> returns the frames in the
  order of the functions; a pool of no threads cannot be made (\<open>ValueError\<close>). With no
  function at all \<open>merged_df\<close> is still \<open>None\<close> after the loop and \<open>fillna\<close> fails
  (\<open>AttributeError\<close>).
\<close>

fun pool_map ::
  "(unit \<Rightarrow> py_exception + ('g, 'i) flat_df) list \<Rightarrow> py_exception + ('g, 'i) flat_df list" where
  "pool_map [] = Inr []"
| "pool_map (func # funcs) =
     (case func () of
        Inl err \<Rightarrow> Inl err
      | Inr df \<Rightarrow> (case pool_map funcs of Inl err \<Rightarrow> Inl err | Inr dfs \<Rightarrow> Inr (df # dfs)))"

fun rank_merge_loop ::
  "('g, 'i) flat_df list \<Rightarrow> nat \<Rightarrow> (unit \<Rightarrow> py_exception + ('g, 'i) flat_df) list
     \<Rightarrow> ('g, 'i) rank_table option \<Rightarrow> py_exception + ('g, 'i) rank_table option" where
  "rank_merge_loop dfs i [] merged_df = Inr merged_df"
| "rank_merge_loop dfs i (func # funcs) merged_df =
     (case (if dfs \<noteq> []
            then (if i < length dfs then Inr (dfs ! i) else Inl IndexError)
            else func ()) of
        Inl err \<Rightarrow> Inl err
      | Inr df \<Rightarrow>
          rank_merge_loop dfs (Suc i) funcs
            (Some (case merged_df of
                     None \<Rightarrow> map (\<lambda>(key, r). (key, [Some r])) (rank_frame df)
                   | Some m \<Rightarrow> outer_merge m i (rank_frame df))))"

definition fillna :: "real \<Rightarrow> ('g, 'i) rank_table \<Rightarrow> (('g \<times> 'i) \<times> real list) list" where
  "fillna fill_val merged_df =
     map (\<lambda>(key, cols). (key, map (\<lambda>c. case c of None \<Rightarrow> fill_val | Some r \<Rightarrow> r) cols)) merged_df"

definition combine_ranks ::
  "(np_float list \<Rightarrow> np_float) \<Rightarrow> (('g \<times> 'i) \<times> real list) list \<Rightarrow> ('g \<times> 'i \<times> np_float) list" where
  "combine_ranks combine_func filled =
     map (\<lambda>((g, i), ranks). (g, i, combine_func (map np_recip ranks))) filled"

definition calc_dfs_and_combine_scores ::
  "(unit \<Rightarrow> py_exception + ('g, 'i) flat_df) list \<Rightarrow> (np_float list \<Rightarrow> np_float) \<Rightarrow> real \<Rightarrow> bool
     \<Rightarrow> py_exception + ('g \<times> 'i \<times> np_float) list" where
  "calc_dfs_and_combine_scores calc_funcs combine_func fill_val multithreaded =
     (case (if multithreaded
            then (if calc_funcs = [] then Inl ValueError else pool_map calc_funcs)
            else Inr []) of
        Inl err \<Rightarrow> Inl err
      | Inr dfs \<Rightarrow>
          (case rank_merge_loop dfs 0 calc_funcs None of
             Inl err \<Rightarrow> Inl err
           | Inr None \<Rightarrow> Inl AttributeError
           | Inr (Some merged_df) \<Rightarrow> Inr (combine_ranks combine_func (fillna fill_val merged_df))))"

text \<open>
  \<^verbatim>\<open>
  def _get_recommendations_flat_unfilt(self, user_ids, n_rec_unfilt, pbar=None, **kwargs):
      calc_funcs = [partial(rec._get_recommendations_flat_unfilt,
                            user_ids=user_ids, n_rec_unfilt=n_rec_unfilt, **kwargs)
                    for rec in self.recommenders]
      return self.calc_dfs_and_combine_scores(
          calc_funcs=calc_funcs,
          combine_func=self.rank_combination_function(self.rank_combination_mode),
          fill_val=self.fill_na_val if self.fill_na_val else (n_rec_unfilt + 1),
          groupby_col=self._user_col, item_col=self._item_col,
          scores_col=self._prediction_col)
  \<close>
  \<open>fill_na_val\<close> is \<open>None\<close> (the default) or a number; \<open>None\<close> and 0 are falsy.
\<close>

record ('u, 'i) rank_ensemble =
  members :: "('u, 'i) member list"
  fill_na_val :: "real option"
  rank_combination_mode :: string

definition ensemble_fill_val :: "real option \<Rightarrow> int \<Rightarrow> real" where
  "ensemble_fill_val fill_na n_rec_unfilt =
     (case fill_na of
        None \<Rightarrow> of_int (n_rec_unfilt + 1)
      | Some v \<Rightarrow> if v \<noteq> 0 then v else of_int (n_rec_unfilt + 1))"

definition rank_ensemble_flat_unfilt ::
  "reductions \<Rightarrow> ('u, 'i) rank_ensemble \<Rightarrow> 'u list \<Rightarrow> 'i list \<Rightarrow> int
     \<Rightarrow> py_exception + ('u \<times> 'i \<times> np_float) list" where
  "rank_ensemble_flat_unfilt lib ens user_ids item_ids n_rec_unfilt =
     (let calc_funcs = map (\<lambda>rec. (\<lambda>_ :: unit. flat_unfilt rec user_ids item_ids n_rec_unfilt))
                           (members ens)
      in case rank_combination_function lib (rank_combination_mode ens) of
           Inl err \<Rightarrow> Inl err
         | Inr combine_func \<Rightarrow>
             calc_dfs_and_combine_scores calc_funcs combine_func
               (ensemble_fill_val (fill_na_val ens) n_rec_unfilt) False)"

text \<open>
  What a merged frame says of the frames merged into it: its keys are the keys of those
  frames, every row has one rank per frame, the rank is missing where the frame has no row
  for the key and is a rank of that key in the frame where it has one.
\<close>

definition table_ok :: "('g, 'i) rank_table \<Rightarrow> ('g, 'i) flat_df list \<Rightarrow> bool" where
  "table_ok t frames \<longleftrightarrow>
     fst ` set t = (\<Union>df \<in> set frames. frame_keys df)
     \<and> (\<forall>(key, cols) \<in> set t.
          length cols = length frames
          \<and> (\<forall>j < length frames.
                (key \<notin> frame_keys (frames ! j) \<longrightarrow> cols ! j = None)
              \<and> (key \<in> frame_keys (frames ! j) \<longrightarrow>
                   (\<exists>r. cols ! j = Some r \<and> (key, r) \<in> set (rank_frame (frames ! j))))))"

fun merge_frames ::
  "nat \<Rightarrow> ('g, 'i) flat_df list \<Rightarrow> ('g, 'i) rank_table option \<Rightarrow> ('g, 'i) rank_table option" where
  \<comment> \<open>the loop over frames that are already there\<close>
  "merge_frames i [] merged_df = merged_df"
| "merge_frames i (df # dfs) merged_df =
     merge_frames (Suc i) dfs
       (Some (case merged_df of
                None \<Rightarrow> map (\<lambda>(key, r). (key, [Some r])) (rank_frame df)
              | Some m \<Rightarrow> outer_merge m i (rank_frame df)))"

text \<open>A stand-in for \<open>np.min\<close> on a row of reciprocal ranks, for concrete runs.\<close>

fun np_less_eq :: "np_float \<Rightarrow> np_float \<Rightarrow> bool" where
  "np_less_eq (Finite a) (Finite b) = (a \<le> b)"
| "np_less_eq PosInf (Finite b) = False"
| "np_less_eq _ PosInf = True"

definition least_of :: "np_float list \<Rightarrow> np_float" where
  "least_of xs = fold (\<lambda>x m. if np_less_eq x m then x else m) xs PosInf"

section \<open>Properties of parameter management\<close>

lemma map_of_update_from_notin:
  "k \<notin> fst ` set u \<Longrightarrow> map_of (update_from d u) k = map_of d k"
  unfolding update_from_def
  by (induction u arbitrary: d) (auto simp: update_conv)

lemma map_of_update_from_in:
  "distinct (map fst u) \<Longrightarrow> (k, v) \<in> set u \<Longrightarrow> map_of (update_from d u) k = Some v"
  unfolding update_from_def
proof (induction u arbitrary: d)
  case Nil
  then show ?case by simp
next
  case (Cons a u)
  obtain k' v' where a: "a = (k', v')" by (cases a)
  show ?case
  proof (cases "(k, v) \<in> set u")
    case True
    with Cons a show ?thesis by simp
  next
    case False
    with Cons.prems a have kv: "k' = k" "v' = v" by auto
    from Cons.prems a kv have "k \<notin> fst ` set u" by auto
    then have "map_of (fold (\<lambda>(k, v). AList.update k v) u (AList.update k v d)) k
                 = map_of (AList.update k v d) k"
      using map_of_update_from_notin [unfolded update_from_def] by fast
    with a kv show ?thesis by (simp add: update_conv)
  qed
qed

lemma dict_update_notin:
  "k \<notin> fst ` set u \<Longrightarrow> map_of (dict_update d (Some u)) k = map_of d k"
  by (simp add: dict_update_def map_of_update_from_notin)

lemma dict_update_in:
  "distinct (map fst u) \<Longrightarrow> (k, v) \<in> set u \<Longrightarrow> map_of (dict_update d (Some u)) k = Some v"
  by (auto simp: dict_update_def map_of_update_from_in)

lemma dict_update_None: "dict_update d None = d"
  by (simp add: dict_update_def)

lemma pop_set_dict_single:
  "snd (pop_set_dict d params [p]) = AList.delete p params"
  by (auto split: option.splits simp: AList.delete_id map_of_eq_None_iff)

lemma subdivision_set_params_model_params:
  assumes "subdivision_set_params f e u = Inr e'"
  shows "model_params e' = dict_update (model_params e) (Some (AList.delete ''n_models'' u))"
proof -
  obtain e1 p' where pp: "pop_set_params e u [''n_models''] = (e1, p')"
    by (cases "pop_set_params e u [''n_models'']")
  then have p': "p' = AList.delete ''n_models'' u" and e1: "model_params e1 = model_params e"
    using pop_set_dict_single [of "attrs e" u "''n_models''"]
    by (auto simp: pop_set_params_def split: prod.splits)
  from assms pp obtain e2 where e2: "init_sub_models (set_params e1 p') = Inr e2"
    and mp: "model_params e' = model_params e2"
    by (auto simp: subdivision_set_params_def split: sum.splits)
  from e2 have "model_params e2 = model_params (set_params e1 p')"
    by (auto simp: init_sub_models_def split: option.splits sum.splits if_splits)
  with mp p' e1 show ?thesis
    by (simp add: set_params_def set_model_params_def)
qed

text \<open>
  Claim C8, as amended. The setters of the base class merge the parameter mapping \<open>u\<close>
  into the stored dictionary: a key that is not in \<open>u\<close> keeps its value, a key of \<open>u\<close>
  takes the value \<open>u\<close> gives it, \<open>None\<close> changes nothing, and the other dictionary is
  left alone. The overriding \<open>set_params\<close> of \<open>SubdivisionEnsembleBase\<close> first moves the key
  \<open>n_models\<close> out of \<open>u\<close> onto the instance and merges the remaining keys only.
\<close>

theorem param_setters_shallow_merge:
  "(\<forall>k. k \<notin> fst ` set u \<longrightarrow>
        map_of (model_params (set_params r u)) k = map_of (model_params r) k
      \<and> map_of (model_params (set_model_params r (Some u))) k = map_of (model_params r) k
      \<and> map_of (fit_params (set_fit_params r (Some u))) k = map_of (fit_params r) k)
   \<and> (distinct (map fst u) \<longrightarrow>
        (\<forall>(k, v) \<in> set u.
           map_of (model_params (set_params r u)) k = Some v
         \<and> map_of (model_params (set_model_params r (Some u))) k = Some v
         \<and> map_of (fit_params (set_fit_params r (Some u))) k = Some v))
   \<and> model_params (set_model_params r None) = model_params r
   \<and> fit_params (set_fit_params r None) = fit_params r
   \<and> fit_params (set_params r u) = fit_params r
   \<and> model_params (set_fit_params r (Some u)) = model_params r
   \<and> (\<forall>e'. subdivision_set_params f e u = Inr e' \<longrightarrow>
          model_params e' = dict_update (model_params e) (Some (AList.delete ''n_models'' u)))"
proof (intro conjI allI impI ballI)
  fix k assume "k \<notin> fst ` set u"
  then show "map_of (model_params (set_params r u)) k = map_of (model_params r) k"
    and "map_of (model_params (set_model_params r (Some u))) k = map_of (model_params r) k"
    and "map_of (fit_params (set_fit_params r (Some u))) k = map_of (fit_params r) k"
    by (simp_all add: set_params_def set_model_params_def set_fit_params_def dict_update_notin)
next
  fix x assume d: "distinct (map fst u)" and x: "x \<in> set u"
  obtain k v where kv: "x = (k, v)" by (cases x)
  from d x kv have "map_of (dict_update d0 (Some u)) k = Some v" for d0 :: "pyval dict"
    by (simp add: dict_update_in)
  then show "case x of (k, v) \<Rightarrow>
           map_of (model_params (set_params r u)) k = Some v
         \<and> map_of (model_params (set_model_params r (Some u))) k = Some v
         \<and> map_of (fit_params (set_fit_params r (Some u))) k = Some v"
    by (simp add: kv set_params_def set_model_params_def set_fit_params_def)
next
  show "model_params (set_model_params r None) = model_params r"
    by (simp add: set_model_params_def dict_update_None)
  show "fit_params (set_fit_params r None) = fit_params r"
    by (simp add: set_fit_params_def dict_update_None)
  show "fit_params (set_params r u) = fit_params r"
    by (simp add: set_params_def set_model_params_def)
  show "model_params (set_fit_params r (Some u)) = model_params r"
    by (simp add: set_fit_params_def)
next
  fix e' assume "subdivision_set_params f e u = Inr e'"
  then show "model_params e' = dict_update (model_params e) (Some (AList.delete ''n_models'' u))"
    by (rule subdivision_set_params_model_params)
qed

text \<open>Witness for C8: the theorem at a concrete recommender and a concrete ensemble.\<close>

theorem param_setters_shallow_merge_witness:
  "map_of (model_params (set_params
       \<lparr>model_params = [(''no_components'', PyInt 10), (''loss'', PyStr ''warp'')],
        fit_params = [(''epochs'', PyInt 5)], attrs = []\<rparr>
       [(''loss'', PyStr ''bpr'')])) ''no_components'' = Some (PyInt 10)
   \<and> map_of (model_params (set_params
       \<lparr>model_params = [(''no_components'', PyInt 10), (''loss'', PyStr ''warp'')],
        fit_params = [(''epochs'', PyInt 5)], attrs = []\<rparr>
       [(''loss'', PyStr ''bpr'')])) ''loss'' = Some (PyStr ''bpr'')
   \<and> subdivision_set_params (\<lambda>m p. Inr (set_params m p))
        \<lparr>model_params = [(''no_components'', PyInt 10)], fit_params = [],
         attrs = [(''n_models'', PyInt 1)],
         sub_class_type = Some \<lparr>model_params = [], fit_params = [], attrs = []\<rparr>,
         sub_models = []\<rparr>
        [(''n_models'', PyInt 2), (''no_components'', PyInt 20)]
      = Inr \<lparr>model_params = [(''no_components'', PyInt 20)], fit_params = [],
         attrs = [(''n_models'', PyInt 2)],
         sub_class_type = Some \<lparr>model_params = [], fit_params = [], attrs = []\<rparr>,
         sub_models = [\<lparr>model_params = [(''no_components'', PyInt 20)], fit_params = [], attrs = []\<rparr>,
                       \<lparr>model_params = [(''no_components'', PyInt 20)], fit_params = [], attrs = []\<rparr>]\<rparr>
   \<and> dict_update [(''no_components'', PyInt 10)]
        (Some (AList.delete ''n_models'' [(''n_models'', PyInt 2), (''no_components'', PyInt 20)]))
      = [(''no_components'', PyInt 20)]"
proof -
  let ?r = "\<lparr>model_params = [(''no_components'', PyInt 10), (''loss'', PyStr ''warp'')],
        fit_params = [(''epochs'', PyInt 5)], attrs = []\<rparr>"
  let ?u = "[(''loss'', PyStr ''bpr'')]"
  let ?e = "\<lparr>model_params = [(''no_components'', PyInt 10)], fit_params = [],
         attrs = [(''n_models'', PyInt 1)],
         sub_class_type = Some \<lparr>model_params = [], fit_params = [], attrs = []\<rparr>,
         sub_models = []\<rparr>"
  let ?f = "\<lambda>(m::base_recommender) p. (Inr (set_params m p) :: py_exception + base_recommender)"
  have run: "subdivision_set_params ?f ?e [(''n_models'', PyInt 2), (''no_components'', PyInt 20)]
      = Inr \<lparr>model_params = [(''no_components'', PyInt 20)], fit_params = [],
         attrs = [(''n_models'', PyInt 2)],
         sub_class_type = Some \<lparr>model_params = [], fit_params = [], attrs = []\<rparr>,
         sub_models = [\<lparr>model_params = [(''no_components'', PyInt 20)], fit_params = [], attrs = []\<rparr>,
                       \<lparr>model_params = [(''no_components'', PyInt 20)], fit_params = [], attrs = []\<rparr>]\<rparr>"
    by (simp add: subdivision_set_params_def pop_set_params_def set_params_def
        set_model_params_def dict_update_def update_from_def init_sub_models_def py_range_def
        numeral_2_eq_2)
  have a: "''no_components'' \<notin> fst ` set ?u" by simp
  have d: "distinct (map fst ?u)" by simp
  have m: "(''loss'', PyStr ''bpr'') \<in> set ?u" by simp
  from param_setters_shallow_merge [of ?u ?r ?f ?e] a d m run show ?thesis
    by (simp add: dict_update_def update_from_def)
qed

text \<open>
  Counterexample to C8 as stated: \<open>set_params(n_models=2)\<close> on a subdivision ensemble
  returns normally and the stored parameter dictionary has no value \<open>2\<close> under the key
  \<open>n_models\<close>.
\<close>

theorem subdivision_set_params_drops_n_models:
  "map_of (model_params (projr (subdivision_set_params (\<lambda>m p. Inr (set_params m p))
        \<lparr>model_params = [(''no_components'', PyInt 10)], fit_params = [],
         attrs = [(''n_models'', PyInt 1)],
         sub_class_type = Some \<lparr>model_params = [], fit_params = [], attrs = []\<rparr>,
         sub_models = []\<rparr>
        [(''n_models'', PyInt 2)]))) ''n_models'' \<noteq> Some (PyInt 2)
   \<and> \<not> isl (subdivision_set_params (\<lambda>m p. Inr (set_params m p))
        \<lparr>model_params = [(''no_components'', PyInt 10)], fit_params = [],
         attrs = [(''n_models'', PyInt 1)],
         sub_class_type = Some \<lparr>model_params = [], fit_params = [], attrs = []\<rparr>,
         sub_models = []\<rparr>
        [(''n_models'', PyInt 2)])"
  by (simp add: subdivision_set_params_def pop_set_params_def set_params_def
        set_model_params_def dict_update_def update_from_def init_sub_models_def py_range_def
        numeral_2_eq_2)

section \<open>Properties of the hyper-parameter search\<close>

text \<open>
  Claim C6. With a control file configured and present, a first line that contains
  \<open>stop\<close> raises \<open>InterruptedError\<close>; a first line that contains \<open>update\<close> and neither
  \<open>stop\<close> nor \<open>pause\<close> raises \<open>NotImplementedError\<close>; with no file configured, no file
  present or no keyword in the first line the check returns and the log is as it was.
  No fuel is needed on any of these paths.
\<close>

theorem check_interrupt_vocabulary:
  "(fs t path = Some content \<and> str_contains ''stop'' (readline content) \<longrightarrow>
      (\<exists>msg. check_interrupt fuel fs (Some path) t lg = Some (Inl (InterruptedError msg), lg)))
   \<and> (fs t path = Some content \<and> str_contains ''update'' (readline content)
        \<and> \<not> str_contains ''stop'' (readline content)
        \<and> \<not> str_contains ''pause'' (readline content) \<longrightarrow>
      (\<exists>msg lg'. check_interrupt fuel fs (Some path) t lg
           = Some (Inl (NotImplementedError msg), lg')))
   \<and> check_interrupt fuel fs None t lg = Some (Inr (), lg)
   \<and> (fs t path = None \<longrightarrow> check_interrupt fuel fs (Some path) t lg = Some (Inr (), lg))
   \<and> (fs t path = Some content \<and> \<not> str_contains ''stop'' (readline content)
        \<and> \<not> str_contains ''pause'' (readline content)
        \<and> \<not> str_contains ''update'' (readline content) \<longrightarrow>
      check_interrupt fuel fs (Some path) t lg = Some (Inr (), lg))"
  by (simp add: Let_def)

text \<open>
  Witness for C6: a control file that says \<open>stop now\<close>, one whose first line says
  \<open>update lr\<close> (the \<open>stop\<close> on its second line is not read), no file, and a file without
  keyword.
\<close>

theorem check_interrupt_vocabulary_witness:
  "check_interrupt 0 (\<lambda>t p. if p = ''ctl'' then Some ''stop now'' else None) (Some ''ctl'') 0 []
     = Some (Inl (InterruptedError
         (''interrupted by '' @ dquote @ ''stop'' @ dquote @ '' message in ctl'')), [])
   \<and> (\<exists>msg lg'. check_interrupt 0
          (\<lambda>t p. if p = ''ctl'' then Some (''update lr'' @ [CHR 0x0A] @ ''stop'') else None)
          (Some ''ctl'') 0 [] = Some (Inl (NotImplementedError msg), lg'))
   \<and> check_interrupt 0 (\<lambda>t p. None) (Some ''ctl'') 0 [] = Some (Inr (), [])
   \<and> check_interrupt 0 (\<lambda>t p. if p = ''ctl'' then Some ''carry on'' else None)
        (Some ''ctl'') 0 [] = Some (Inr (), [])"
proof -
  have a: "str_contains ''stop'' (readline ''stop now'')" by simp
  have b: "str_contains ''update'' (readline (''update lr'' @ [CHR 0x0A] @ ''stop''))"
    "\<not> str_contains ''stop'' (readline (''update lr'' @ [CHR 0x0A] @ ''stop''))"
    "\<not> str_contains ''pause'' (readline (''update lr'' @ [CHR 0x0A] @ ''stop''))"
    by simp_all
  have c: "\<not> str_contains ''stop'' (readline ''carry on'')"
    "\<not> str_contains ''pause'' (readline ''carry on'')"
    "\<not> str_contains ''update'' (readline ''carry on'')"
    by simp_all
  from check_interrupt_vocabulary
      [of "\<lambda>t p. if p = ''ctl'' then Some ''stop now'' else None" 0 "''ctl''" "''stop now''" 0 "[]"] a
  have 1: "\<exists>msg. check_interrupt 0 (\<lambda>t p. if p = ''ctl'' then Some ''stop now'' else None)
      (Some ''ctl'') 0 [] = Some (Inl (InterruptedError msg), [])"
    by simp
  from check_interrupt_vocabulary
      [of "\<lambda>t p. if p = ''ctl'' then Some (''update lr'' @ [CHR 0x0A] @ ''stop'') else None" 0
          "''ctl''" "''update lr'' @ [CHR 0x0A] @ ''stop''" 0 "[]"] b
  have 2: "\<exists>msg lg'. check_interrupt 0
          (\<lambda>t p. if p = ''ctl'' then Some (''update lr'' @ [CHR 0x0A] @ ''stop'') else None)
          (Some ''ctl'') 0 [] = Some (Inl (NotImplementedError msg), lg')"
    by simp
  from check_interrupt_vocabulary [of "\<lambda>t p. None" 0 "''ctl''" "''x''" 0 "[]"]
  have 3: "check_interrupt 0 (\<lambda>t p. None) (Some ''ctl'') 0 [] = Some (Inr (), [])"
    by simp
  from check_interrupt_vocabulary
      [of "\<lambda>t p. if p = ''ctl'' then Some ''carry on'' else None" 0 "''ctl''" "''carry on''" 0 "[]"] c
  have 4: "check_interrupt 0 (\<lambda>t p. if p = ''ctl'' then Some ''carry on'' else None)
        (Some ''ctl'') 0 [] = Some (Inr (), [])"
    by simp
  from 1 have first: "check_interrupt 0 (\<lambda>t p. if p = ''ctl'' then Some ''stop now'' else None) (Some ''ctl'') 0 []
     = Some (Inl (InterruptedError
         (''interrupted by '' @ dquote @ ''stop'' @ dquote @ '' message in ctl'')), [])"
    by (simp add: Let_def)
  from first 2 3 4 show ?thesis by blast
qed

lemma trial_body_raises:
  assumes "check_interrupt fuel fs (interrupt_message_file s) 0 (logged s) = Some (Inr (), lg)"
    and "init_pipeline env vals = Inl err
       \<or> (\<exists>p. init_pipeline env vals = Inr p \<and> fit_pipeline env p (training_data s) = Inl err)
       \<or> (\<exists>p p'. init_pipeline env vals = Inr p \<and> fit_pipeline env p (training_data s) = Inr p'
              \<and> eval_pipeline env p' (validation_data s) = Inl err)"
  shows "trial_body fuel fs env s vals = Some (Inl err, s\<lparr>logged := lg\<rparr>)"
  using assms by (auto simp: trial_body_def Let_def)

lemma objective_func_propagates_only_base:
  "objective_func fuel fs env s vals = Some (Inl err, s') \<Longrightarrow> \<not> is_Exception err"
  by (auto simp: objective_func_def split: option.splits sum.splits prod.splits if_splits)

text \<open>
  Claim C5. When the interrupt check has passed and the construction of the pipeline,
  its fit or its evaluation raises an exception (an instance of \<open>Exception\<close>), the trial
  returns the loss \<open>1.0\<close>, the exception and the sampled values are appended to the log,
  and no exception of class \<open>Exception\<close> ever leaves \<open>objective_func\<close>.
\<close>

theorem objective_func_catches:
  assumes "check_interrupt fuel fs (interrupt_message_file s) 0 (logged s) = Some (Inr (), lg)"
    and "init_pipeline env vals = Inl err
       \<or> (\<exists>p. init_pipeline env vals = Inr p \<and> fit_pipeline env p (training_data s) = Inl err)
       \<or> (\<exists>p p'. init_pipeline env vals = Inr p \<and> fit_pipeline env p (training_data s) = Inr p'
              \<and> eval_pipeline env p' (validation_data s) = Inl err)"
    and "is_Exception err"
  shows "objective_func fuel fs env s vals
           = Some (Inr 1.0, s\<lparr>logged := lg @ [LogException err, LogError vals]\<rparr>)
         \<and> (\<forall>fuel' fs' s0 vals' e s'.
               objective_func fuel' fs' env s0 vals' = Some (Inl e, s') \<longrightarrow> \<not> is_Exception e)"
proof
  from trial_body_raises [OF assms(1,2)] assms(3)
  show "objective_func fuel fs env s vals
           = Some (Inr 1.0, s\<lparr>logged := lg @ [LogException err, LogError vals]\<rparr>)"
    by (simp add: objective_func_def)
  show "\<forall>fuel' fs' s0 vals' e s'.
               objective_func fuel' fs' env s0 vals' = Some (Inl e, s') \<longrightarrow> \<not> is_Exception e"
    using objective_func_propagates_only_base by blast
qed

text \<open>Witness for C5: a trial whose fit raises \<open>ValueError\<close>, with no control file.\<close>

theorem objective_func_catches_witness:
  "objective_func 0 (\<lambda>t p. None)
      \<lparr>init_pipeline = (\<lambda>v. Inr (0::nat)), fit_pipeline = (\<lambda>p (d::nat). Inl ValueError),
       eval_pipeline = (\<lambda>p d. Inr (0::nat)), report_loc = (\<lambda>r a b. Inr 0),
       values_to_dict = (\<lambda>v. []), time_start = 0, time_end = 1\<rparr>
      \<lparr>target_metric = ''AUC'', interrupt_message_file = None, training_data = 0,
       validation_data = 1, all_metrics = [], logged = []\<rparr>
      [PyInt 3]
    = Some (Inr 1.0,
        \<lparr>target_metric = ''AUC'', interrupt_message_file = None, training_data = 0,
         validation_data = 1, all_metrics = [],
         logged = [LogException ValueError, LogError [PyInt 3]]\<rparr>)"
  using objective_func_catches [of 0 "\<lambda>t p. None"
      "\<lparr>target_metric = ''AUC'', interrupt_message_file = None, training_data = 0,
       validation_data = 1, all_metrics = [], logged = []\<rparr>" "[]"
      "\<lparr>init_pipeline = (\<lambda>v. Inr (0::nat)), fit_pipeline = (\<lambda>p (d::nat). Inl ValueError),
       eval_pipeline = (\<lambda>p d. Inr (0::nat)), report_loc = (\<lambda>r a b. Inr 0),
       values_to_dict = (\<lambda>v. []), time_start = 0, time_end = 1\<rparr>"
      "[PyInt 3]" ValueError]
  by simp

lemma objective_func_swallows_stop:
  assumes "interrupt_message_file s = Some path" and "fs 0 path = Some content"
    and "str_contains ''stop'' (readline content)"
  shows "\<exists>s'. objective_func fuel fs env s vals = Some (Inr 1.0, s')"
  using assms by (simp add: objective_func_def trial_body_def Let_def)

section \<open>Properties of the zoom heuristic\<close>

subsection \<open>Relative errors\<close>

text \<open>
  A value known up to a relative error keeps its bounds through a further rounding, an
  inversion and a quotient.
\<close>

lemma rel_bounds:
  fixes x z e :: real
  assumes "\<bar>z - x\<bar> \<le> e * x"
  shows "x * (1 - e) \<le> z" and "z \<le> x * (1 + e)"
  using assms by (auto simp: abs_le_iff algebra_simps)

lemma scale_bounds:
  fixes x y z e lf uf :: real
  assumes "0 < y" and "0 \<le> lf" and "y * lf \<le> x" and "x \<le> y * uf"
    and "\<bar>z - x\<bar> \<le> e * x" and "0 \<le> e" and "e \<le> 1"
  shows "y * (lf * (1 - e)) \<le> z" and "z \<le> y * (uf * (1 + e))"
proof -
  from assms(1,2,3) have x0: "0 \<le> x"
    by (meson mult_nonneg_nonneg less_imp_le order_trans)
  from rel_bounds [OF assms(5)] have z: "x * (1 - e) \<le> z" "z \<le> x * (1 + e)" .
  have "y * lf * (1 - e) \<le> x * (1 - e)"
    using assms(3,7) by (intro mult_right_mono) auto
  with z(1) show "y * (lf * (1 - e)) \<le> z" by (simp add: mult.assoc)
  have "x * (1 + e) \<le> y * uf * (1 + e)"
    using assms(4,6) by (intro mult_right_mono) auto
  with z(2) show "z \<le> y * (uf * (1 + e))" by (simp add: mult.assoc)
qed

lemma inverse_bounds:
  fixes x y c lf uf :: real
  assumes "0 < y" and "0 < lf" and "y * lf \<le> x" and "x \<le> y * uf" and "0 < c"
  shows "(c / y) * (1 / uf) \<le> c / x" and "c / x \<le> (c / y) * (1 / lf)"
proof -
  from assms(1,2) have ylf: "0 < y * lf" by simp
  with assms(3) have x0: "0 < x" by linarith
  from x0 assms(4) have yuf: "0 < y * uf" by linarith
  have "c / (y * uf) \<le> c / x"
    using assms(4,5) x0 by (intro divide_left_mono) (auto simp: yuf)
  then show "(c / y) * (1 / uf) \<le> c / x" by simp
  have "c / x \<le> c / (y * lf)"
    using assms(3,5) x0 ylf by (intro divide_left_mono) auto
  then show "c / x \<le> (c / y) * (1 / lf)" by simp
qed

lemma quotient_bounds:
  fixes c d u v :: real
  assumes "0 < u" and "0 < v" and "0 \<le> lc" and "0 < ld"
    and "u * lc \<le> c" and "c \<le> u * uc" and "v * ld \<le> d" and "d \<le> v * ud"
  shows "(u / v) * (lc / ud) \<le> c / d" and "c / d \<le> (u / v) * (uc / ld)"
proof -
  from assms(2,4) have vld: "0 < v * ld" by simp
  with assms(7) have d0: "0 < d" by linarith
  with assms(8) have vud: "0 < v * ud" by linarith
  from assms(1,3) have ulc: "0 \<le> u * lc" by simp
  with assms(5) have c0: "0 \<le> c" by linarith
  have "(u * lc) / (v * ud) \<le> c / d"
    using ulc assms(5,8) d0 by (intro frac_le) auto
  then show "(u / v) * (lc / ud) \<le> c / d" by simp
  have "c / d \<le> (u * uc) / (v * ld)"
    using c0 assms(6,7) vld by (intro frac_le) auto
  then show "c / d \<le> (u / v) * (uc / ld)" by simp
qed

subsection \<open>The rounding error of the quotient of logarithms\<close>

lemma float_eps_bounds: "0 < float_eps" "float_eps \<le> 1"
  by (simp_all add: float_eps_def)

lemma big_bound: "(360000 :: real) * 2 ^ 1001 < 2 ^ 1023"
proof -
  have "(360000 :: real) < 2 ^ 22" by simp
  then have "(360000 :: real) * 2 ^ 1001 < 2 ^ 22 * 2 ^ 1001"
    by (intro mult_strict_right_mono) auto
  also have "(2 :: real) ^ 22 * 2 ^ 1001 = 2 ^ 1023"
    by (simp add: power_add [symmetric])
  finally show ?thesis .
qed

lemma ln2_bounds: "1 / 2 \<le> ln (2 :: real)" "ln (2 :: real) \<le> 1"
proof -
  have "exp (1 / 2 :: real) * exp (1 / 2) = exp 1"
    by (simp add: exp_add [symmetric])
  with exp_le have "(exp (1 / 2 :: real))\<^sup>2 \<le> 2\<^sup>2"
    by (simp add: power2_eq_square)
  then have "exp (1 / 2 :: real) \<le> 2"
    by (rule power2_le_imp_le) simp
  moreover have "(1 / 2 \<le> ln (2 :: real)) = (exp (1 / 2) \<le> (2 :: real))"
    by (rule ln_ge_iff) simp
  ultimately show "1 / 2 \<le> ln (2 :: real)"
    by blast
  show "ln (2 :: real) \<le> 1"
    using ln_le_minus_one [of "2 :: real"] by simp
qed

lemma ln_ge_one: "3 \<le> x \<Longrightarrow> 1 \<le> ln (x :: real)"
proof -
  assume "3 \<le> x"
  with exp_le have "exp 1 \<le> x" by linarith
  moreover from \<open>3 \<le> x\<close> have "0 < x" by linarith
  ultimately show ?thesis by (simp add: ln_ge_iff)
qed

text \<open>
  For a range between \<open>2 ^ -1000\<close> and 360 degrees no operation of the heuristic leaves
  the accurate part of the arithmetic, and the float that \<open>int\<close> receives is within a
  relative \<open>2 ^ -40\<close> of the exact logarithm: five roundings of at most \<open>float_eps\<close>
  each, of which those before the logarithm are divided by the logarithm itself.
\<close>

lemma quotient_accuracy:
  assumes acc: "float_accuracy ops"
    and lo: "\<bar>lo\<bar> \<le> 360" and hi: "\<bar>hi\<bar> \<le> 360"
    and rlo: "1 / 2 ^ 1000 \<le> hi - lo" and rhi: "hi - lo \<le> 360"
  shows "\<exists>r q. f_sub ops (Fin hi) (Fin lo) = Fin r \<and> 0 < r
             \<and> f_div ops
                 (f_log ops (f_div ops (f_div ops (Fin (1000 * 360)) (Fin r)) (Fin 256)))
                 (f_log ops (Fin 2)) = Fin q
             \<and> 0 \<le> log 2 (1000 * 360 / (hi - lo) / 256)
             \<and> (1 - 1 / 2 ^ 40) * log 2 (1000 * 360 / (hi - lo) / 256) \<le> q
             \<and> q \<le> (1 + 1 / 2 ^ 40) * log 2 (1000 * 360 / (hi - lo) / 256)"
proof -
  let ?e = float_eps
  define R where "R = hi - lo"
  define X where "X = 1000 * 360 / R / 256"
  note rlo = rlo [folded R_def] and rhi = rhi [folded R_def]
  note e = float_eps_bounds
  from acc have
    sub: "\<And>a b. \<bar>a\<bar> \<le> 360 \<Longrightarrow> \<bar>b\<bar> \<le> 360 \<Longrightarrow>
            \<exists>r. f_sub ops (Fin a) (Fin b) = Fin r \<and> \<bar>r - (a - b)\<bar> \<le> ?e * \<bar>a - b\<bar>"
    and dv: "\<And>a b. 0 < a \<Longrightarrow> 0 < b \<Longrightarrow> 1 / 2 \<le> a / b \<Longrightarrow> a / b < 2 ^ 1023 \<Longrightarrow>
            \<exists>q. f_div ops (Fin a) (Fin b) = Fin q \<and> \<bar>q - a / b\<bar> \<le> ?e * (a / b)"
    and lg: "\<And>x. 1 \<le> x \<Longrightarrow> x < 2 ^ 1023 \<Longrightarrow>
            \<exists>l. f_log ops (Fin x) = Fin l \<and> \<bar>l - ln x\<bar> \<le> ?e * ln x"
    unfolding float_accuracy_def by blast+
  have R0: "0 < R" using rlo by (smt (verit) zero_less_divide_1_iff zero_less_numeral zero_less_power)
  \<comment> \<open>the range as the code sees it\<close>
  from sub [OF hi lo] obtain r where
    fr: "f_sub ops (Fin hi) (Fin lo) = Fin r" and "\<bar>r - (hi - lo)\<bar> \<le> ?e * \<bar>hi - lo\<bar>"
    by blast
  with R0 have "\<bar>r - R\<bar> \<le> ?e * R" by (simp add: R_def)
  note r = rel_bounds [OF this]
  have r_lo: "R / 2 \<le> r"
  proof -
    have "R * (1 / 2) \<le> R * (1 - ?e)"
      using R0 by (intro mult_left_mono) (auto simp: float_eps_def)
    with r(1) show ?thesis by simp
  qed
  have r_hi: "r \<le> R * 2"
  proof -
    have "R * (1 + ?e) \<le> R * 2"
      using R0 by (intro mult_left_mono) (auto simp: float_eps_def)
    with r(2) show ?thesis by linarith
  qed
  from r_lo R0 have r0: "0 < r" by linarith
  \<comment> \<open>the size of the exact quotient\<close>
  have X_lo: "3 \<le> X"
  proof -
    have "1000 * 360 / 360 / 256 \<le> 1000 * 360 / R / 256"
      using R0 rhi by (intro divide_right_mono divide_left_mono) auto
    then show ?thesis by (simp add: X_def)
  qed
  have X0: "0 < X" using X_lo by linarith
  have X_hi: "X \<le> 1407 * 2 ^ 1000"
  proof -
    have "1000 * 360 / R \<le> 1000 * 360 / (1 / 2 ^ 1000)"
      using R0 rlo by (intro divide_left_mono) auto
    then have "X \<le> 1000 * 360 / (1 / 2 ^ 1000) / 256"
      unfolding X_def by (intro divide_right_mono) auto
    also have "\<dots> \<le> 1407 * 2 ^ 1000" by simp
    finally show ?thesis .
  qed
  \<comment> \<open>the first division\<close>
  have A: "1000 * 360 / R * (1 / (1 + ?e)) \<le> 1000 * 360 / r"
          "1000 * 360 / r \<le> 1000 * 360 / R * (1 / (1 - ?e))"
    using inverse_bounds [of R "1 - ?e" r "1 + ?e" "1000 * 360"] R0 r
    by (simp_all add: float_eps_def)
  have d1_lo: "1 / 2 \<le> 1000 * 360 / r"
  proof -
    have "1000 * 360 / (360 * 2) \<le> 1000 * 360 / r"
      using r0 r_hi rhi by (intro divide_left_mono) auto
    then show ?thesis by simp
  qed
  have d1_hi: "1000 * 360 / r < 2 ^ 1023"
  proof -
    have "1 / 2 ^ 1001 \<le> R / 2" using rlo by simp
    with r_lo have "1 / 2 ^ 1001 \<le> r" by linarith
    then have "1000 * 360 / r \<le> 1000 * 360 / (1 / 2 ^ 1001)"
      using r0 by (intro divide_left_mono) auto
    also have "\<dots> = 360000 * 2 ^ 1001" by simp
    also have "\<dots> < 2 ^ 1023" by (rule big_bound)
    finally show ?thesis .
  qed
  from dv [OF _ r0 d1_lo d1_hi] obtain q1 where
    q1: "f_div ops (Fin (1000 * 360)) (Fin r) = Fin q1"
    and q1e: "\<bar>q1 - 1000 * 360 / r\<bar> \<le> ?e * (1000 * 360 / r)"
    by auto
  have Q1: "1000 * 360 / R * (1 / (1 + ?e) * (1 - ?e)) \<le> q1"
           "q1 \<le> 1000 * 360 / R * (1 / (1 - ?e) * (1 + ?e))"
    using scale_bounds [OF _ _ A q1e] R0 e by (simp_all add: float_eps_def)
  \<comment> \<open>the division by 256\<close>
  have Q1': "X * (1 / (1 + ?e) * (1 - ?e)) \<le> q1 / 256"
            "q1 / 256 \<le> X * (1 / (1 - ?e) * (1 + ?e))"
  proof -
    have x: "X * c = 1000 * 360 / R * c / 256" for c
      by (simp add: X_def)
    from Q1(1) have "1000 * 360 / R * (1 / (1 + ?e) * (1 - ?e)) / 256 \<le> q1 / 256"
      by (rule divide_right_mono) simp
    then show "X * (1 / (1 + ?e) * (1 - ?e)) \<le> q1 / 256" by (simp only: x)
    from Q1(2) have "q1 / 256 \<le> 1000 * 360 / R * (1 / (1 - ?e) * (1 + ?e)) / 256"
      by (rule divide_right_mono) simp
    then show "q1 / 256 \<le> X * (1 / (1 - ?e) * (1 + ?e))" by (simp only: x)
  qed
  have q1_pos: "0 < q1"
  proof -
    have "0 < 1000 * 360 / R * (1 / (1 + ?e) * (1 - ?e))"
      using R0 by (simp add: float_eps_def)
    with Q1(1) show ?thesis by linarith
  qed
  have f_lo: "(9 / 10 :: real) \<le> 1 / (1 + ?e) * (1 - ?e)"
    and f_hi: "1 / (1 - ?e) * (1 + ?e) \<le> (11 / 10 :: real)"
    by (simp_all add: float_eps_def)
  have d2_lo: "1 / 2 \<le> q1 / 256"
  proof -
    have "X * (9 / 10) \<le> X * (1 / (1 + ?e) * (1 - ?e))"
      using X0 f_lo by (intro mult_left_mono) auto
    with Q1'(1) X_lo show ?thesis by linarith
  qed
  have q1_256_hi: "q1 / 256 \<le> X * (11 / 10)"
  proof -
    have "X * (1 / (1 - ?e) * (1 + ?e)) \<le> X * (11 / 10)"
      using X0 f_hi by (intro mult_left_mono) auto
    with Q1'(2) show ?thesis by linarith
  qed
  have huge: "(1407 * 2 ^ 1000 * 16 :: real) < 2 ^ 1023"
  proof -
    have "(1407 * 16 :: real) < 2 ^ 23" by simp
    then have "(1407 * 16 :: real) * 2 ^ 1000 < 2 ^ 23 * 2 ^ 1000"
      by (intro mult_strict_right_mono) auto
    also have "(2 :: real) ^ 23 * 2 ^ 1000 = 2 ^ 1023" by (simp add: power_add [symmetric])
    finally show ?thesis by (simp add: mult.commute mult.left_commute)
  qed
  define B :: real where "B = 1407 * 2 ^ 1000"
  define T :: real where "T = 2 ^ 1023"
  have B0: "0 < B" by (simp add: B_def)
  have XB: "X \<le> B" using X_hi by (simp add: B_def)
  have BT: "B * 16 < T" using huge by (simp add: B_def T_def)
  have d2_hi: "q1 / 256 < 2 ^ 1023"
  proof -
    from q1_256_hi XB B0 BT have "q1 / 256 < T" by linarith
    then show ?thesis by (simp only: T_def)
  qed
  from dv [OF q1_pos _ d2_lo d2_hi] obtain q2 where
    q2: "f_div ops (Fin q1) (Fin 256) = Fin q2"
    and q2e: "\<bar>q2 - q1 / 256\<bar> \<le> ?e * (q1 / 256)"
    by auto
  have Q2: "X * (1 / (1 + ?e) * (1 - ?e) * (1 - ?e)) \<le> q2"
           "q2 \<le> X * (1 / (1 - ?e) * (1 + ?e) * (1 + ?e))"
    using scale_bounds [OF X0 _ Q1' q2e] e by (simp_all add: float_eps_def)
  have g_lo: "1 - 4 * ?e \<le> 1 / (1 + ?e) * (1 - ?e) * (1 - ?e)"
    and g_hi: "1 / (1 - ?e) * (1 + ?e) * (1 + ?e) \<le> 1 + 4 * ?e"
    by (simp_all add: float_eps_def field_simps)
  have Q2': "X * (1 - 4 * ?e) \<le> q2" "q2 \<le> X * (1 + 4 * ?e)"
  proof -
    have "X * (1 - 4 * ?e) \<le> X * (1 / (1 + ?e) * (1 - ?e) * (1 - ?e))"
      using X0 g_lo by (intro mult_left_mono) auto
    with Q2(1) show "X * (1 - 4 * ?e) \<le> q2" by linarith
    have "X * (1 / (1 - ?e) * (1 + ?e) * (1 + ?e)) \<le> X * (1 + 4 * ?e)"
      using X0 g_hi by (intro mult_left_mono) auto
    with Q2(2) show "q2 \<le> X * (1 + 4 * ?e)" by linarith
  qed
  \<comment> \<open>the logarithm of the quotient\<close>
  have eight: "(1 - 4 * ?e :: real) = 1 - 4 * ?e" ..
  have q2_lo: "1 \<le> q2"
  proof -
    have "(9 / 10 :: real) \<le> 1 - 4 * ?e" by (simp add: float_eps_def)
    then have "X * (9 / 10) \<le> X * (1 - 4 * ?e)"
      using X0 by (intro mult_left_mono) auto
    with Q2'(1) X_lo show ?thesis by linarith
  qed
  have q2_up: "q2 \<le> X * 2"
  proof -
    have "1 + 4 * ?e \<le> (2 :: real)" by (simp add: float_eps_def)
    then have "X * (1 + 4 * ?e) \<le> X * 2"
      using X0 by (intro mult_left_mono) auto
    with Q2'(2) show ?thesis by linarith
  qed
  have q2_hi: "q2 < 2 ^ 1023"
  proof -
    from q2_up XB B0 BT have "q2 < T" by linarith
    then show ?thesis by (simp only: T_def)
  qed
  from lg [OF q2_lo q2_hi] obtain c where
    c: "f_log ops (Fin q2) = Fin c" and ce: "\<bar>c - ln q2\<bar> \<le> ?e * ln q2"
    by auto
  have lnX1: "1 \<le> ln X" using X_lo by (rule ln_ge_one)
  have lnq2_lo: "ln X - 8 * ?e \<le> ln q2"
  proof -
    have pos: "0 < 1 - 4 * ?e" by (simp add: float_eps_def)
    have "- (4 * ?e) - 2 * (4 * ?e)\<^sup>2 \<le> ln (1 - 4 * ?e)"
      by (rule ln_one_minus_pos_lower_bound) (simp_all add: float_eps_def)
    moreover have "- (8 * ?e) \<le> - (4 * ?e) - 2 * (4 * ?e)\<^sup>2"
      by (simp add: float_eps_def power2_eq_square)
    ultimately have l: "- (8 * ?e) \<le> ln (1 - 4 * ?e)" by linarith
    have "ln (X * (1 - 4 * ?e)) \<le> ln q2"
      using Q2'(1) X0 pos by (intro ln_mono) auto
    moreover have "ln (X * (1 - 4 * ?e)) = ln X + ln (1 - 4 * ?e)"
      using X0 pos by (rule ln_mult_pos)
    ultimately show ?thesis using l by linarith
  qed
  have lnq2_hi: "ln q2 \<le> ln X + 4 * ?e"
  proof -
    have pos: "0 < 1 + 4 * ?e" by (simp add: float_eps_def)
    have l: "ln (1 + 4 * ?e) \<le> 4 * ?e"
      by (rule ln_add_one_self_le_self) (simp add: float_eps_def)
    have "ln q2 \<le> ln (X * (1 + 4 * ?e))"
      using Q2'(2) q2_lo by (intro ln_mono) auto
    moreover have "ln (X * (1 + 4 * ?e)) = ln X + ln (1 + 4 * ?e)"
      using X0 pos by (rule ln_mult_pos)
    ultimately show ?thesis using l by linarith
  qed
  define lX where "lX = ln X"
  define lq where "lq = ln q2"
  have lX1: "1 \<le> lX" using lnX1 by (simp add: lX_def)
  have e0: "0 \<le> ?e" using e by simp
  have LQ: "lX * (1 - 8 * ?e) \<le> lq" "lq \<le> lX * (1 + 8 * ?e)"
  proof -
    have "8 * ?e \<le> lX * (8 * ?e)"
      using lX1 e0 by (metis mult.commute mult_left_mono mult.right_neutral mult_nonneg_nonneg zero_le_numeral)
    then have a: "lX * (1 - 8 * ?e) \<le> lX - 8 * ?e" "lX + 4 * ?e \<le> lX * (1 + 8 * ?e)"
      using e0 by (simp_all add: algebra_simps)
    from a(1) lnq2_lo show "lX * (1 - 8 * ?e) \<le> lq" by (simp add: lX_def lq_def)
    from a(2) lnq2_hi show "lq \<le> lX * (1 + 8 * ?e)" by (simp add: lX_def lq_def)
  qed
  have lX0: "0 < lX" using lX1 by linarith
  have C: "lX * ((1 - 8 * ?e) * (1 - ?e)) \<le> c" "c \<le> lX * ((1 + 8 * ?e) * (1 + ?e))"
    using scale_bounds [OF lX0 _ LQ, of c ?e] ce e by (simp_all add: lq_def float_eps_def)
  \<comment> \<open>the logarithm of 2\<close>
  from lg [of 2] obtain d where
    d: "f_log ops (Fin 2) = Fin d" and de: "\<bar>d - ln 2\<bar> \<le> ?e * ln 2"
    by auto
  define l2 where "l2 = ln (2 :: real)"
  have l2b: "1 / 2 \<le> l2" "l2 \<le> 1" using ln2_bounds by (simp_all add: l2_def)
  have l20: "0 < l2" using l2b by linarith
  from rel_bounds [OF de] have D: "l2 * (1 - ?e) \<le> d" "d \<le> l2 * (1 + ?e)"
    by (simp_all add: l2_def)
  \<comment> \<open>the last division\<close>
  define L where "L = lX / l2"
  have L_log: "L = log 2 (1000 * 360 / (hi - lo) / 256)"
    by (simp add: L_def lX_def l2_def X_def R_def log_def)
  have CD: "L * ((1 - 8 * ?e) * (1 - ?e) / (1 + ?e)) \<le> c / d"
           "c / d \<le> L * ((1 + 8 * ?e) * (1 + ?e) / (1 - ?e))"
    using quotient_bounds [OF lX0 l20 _ _ C D] unfolding L_def
    by (simp_all add: float_eps_def)
  have L1: "1 \<le> L"
  proof -
    from l2b(2) lX1 have "l2 \<le> lX" by linarith
    with l20 show ?thesis by (simp add: L_def)
  qed
  have L0: "0 < L" using L1 by linarith
  have LB: "L \<le> B * 2"
  proof -
    have "lX \<le> X - 1" unfolding lX_def using X0 by (rule ln_le_minus_one)
    with XB have "lX \<le> B" by linarith
    moreover have "lX / l2 \<le> lX / (1 / 2)"
      using l2b(1) lX0 by (intro divide_left_mono) auto
    ultimately show ?thesis by (simp add: L_def)
  qed
  have k_lo: "(9 / 10 :: real) \<le> (1 - 8 * ?e) * (1 - ?e) / (1 + ?e)"
    and k_hi: "(1 + 8 * ?e) * (1 + ?e) / (1 - ?e) \<le> (11 / 10 :: real)"
    by (simp_all add: float_eps_def)
  have cd_lo: "1 / 2 \<le> c / d"
  proof -
    have "L * (9 / 10) \<le> L * ((1 - 8 * ?e) * (1 - ?e) / (1 + ?e))"
      using L0 k_lo by (intro mult_left_mono) auto
    with CD(1) L1 show ?thesis by linarith
  qed
  have cd_hi: "c / d < 2 ^ 1023"
  proof -
    have "L * ((1 + 8 * ?e) * (1 + ?e) / (1 - ?e)) \<le> L * (11 / 10)"
      using L0 k_hi by (intro mult_left_mono) auto
    with CD(2) LB B0 BT have "c / d < T" by linarith
    then show ?thesis by (simp only: T_def)
  qed
  have c0: "0 < c"
  proof -
    have "0 < lX * ((1 - 8 * ?e) * (1 - ?e))"
      using lX0 by (simp add: float_eps_def)
    with C(1) show ?thesis by linarith
  qed
  have d0: "0 < d"
  proof -
    have "0 < l2 * (1 - ?e)" using l20 by (simp add: float_eps_def)
    with D(1) show ?thesis by linarith
  qed
  from dv [OF c0 d0 cd_lo cd_hi] obtain q where
    q: "f_div ops (Fin c) (Fin d) = Fin q" and qe: "\<bar>q - c / d\<bar> \<le> ?e * (c / d)"
    by auto
  have Q: "L * ((1 - 8 * ?e) * (1 - ?e) / (1 + ?e) * (1 - ?e)) \<le> q"
          "q \<le> L * ((1 + 8 * ?e) * (1 + ?e) / (1 - ?e) * (1 + ?e))"
    using scale_bounds [OF L0 _ CD qe] e by (simp_all add: float_eps_def)
  have m_lo: "1 - 1 / 2 ^ 40 \<le> (1 - 8 * ?e) * (1 - ?e) / (1 + ?e) * (1 - ?e)"
    and m_hi: "(1 + 8 * ?e) * (1 + ?e) / (1 - ?e) * (1 + ?e) \<le> 1 + 1 / 2 ^ 40"
    by (simp_all add: float_eps_def field_simps)
  have fin1: "(1 - 1 / 2 ^ 40) * L \<le> q"
  proof -
    have "L * (1 - 1 / 2 ^ 40) \<le> L * ((1 - 8 * ?e) * (1 - ?e) / (1 + ?e) * (1 - ?e))"
      using L0 m_lo by (intro mult_left_mono) auto
    from order_trans [OF this Q(1)] show ?thesis by (simp only: mult.commute)
  qed
  have fin2: "q \<le> (1 + 1 / 2 ^ 40) * L"
  proof -
    have "L * ((1 + 8 * ?e) * (1 + ?e) / (1 - ?e) * (1 + ?e)) \<le> L * (1 + 1 / 2 ^ 40)"
      using L0 m_hi by (intro mult_left_mono) auto
    from order_trans [OF Q(2) this] show ?thesis by (simp only: mult.commute)
  qed
  from L0 have "0 \<le> L" by simp
  with fr r0 q1 q2 c d q fin1 fin2 show ?thesis
    by (simp add: L_log)
qed

subsection \<open>One axis\<close>

lemma gm_heuristic_zero:
  assumes "float_accuracy ops" and "\<bar>a\<bar> \<le> 360"
  shows "gm_heuristic ops (Fin a) (Fin a) = Inr 14"
proof -
  from assms obtain r where "f_sub ops (Fin a) (Fin a) = Fin r"
    and "\<bar>r - (a - a)\<bar> \<le> float_eps * \<bar>a - a\<bar>"
    unfolding float_accuracy_def by blast
  then have "f_sub ops (Fin a) (Fin a) = Fin 0" by simp
  then show ?thesis by (simp add: gm_heuristic_def float_positive_def)
qed

lemma gm_heuristic_floor:
  assumes acc: "float_accuracy ops"
    and lo: "\<bar>lo\<bar> \<le> 360" and hi: "\<bar>hi\<bar> \<le> 360"
    and rlo: "1 / 2 ^ 1000 \<le> hi - lo" and rhi: "hi - lo \<le> 360"
    and stable: "\<lfloor>(1 - 1 / 2 ^ 40) * log 2 (1000 * 360 / (hi - lo) / 256)\<rfloor>
                   = \<lfloor>(1 + 1 / 2 ^ 40) * log 2 (1000 * 360 / (hi - lo) / 256)\<rfloor>"
  shows "gm_heuristic ops (Fin lo) (Fin hi) = Inr \<lfloor>log 2 (1000 * 360 / (hi - lo) / 256)\<rfloor>"
proof -
  define L where "L = log 2 (1000 * 360 / (hi - lo) / 256)"
  from quotient_accuracy [OF acc lo hi rlo rhi] obtain r q where
    r: "f_sub ops (Fin hi) (Fin lo) = Fin r" "0 < r"
    and q: "f_div ops
              (f_log ops (f_div ops (f_div ops (Fin (1000 * 360)) (Fin r)) (Fin 256)))
              (f_log ops (Fin 2)) = Fin q"
    and L0: "0 \<le> L"
    and below: "(1 - 1 / 2 ^ 40) * L \<le> q" and above: "q \<le> (1 + 1 / 2 ^ 40) * L"
    unfolding L_def by blast
  have "0 \<le> (1 - 1 / 2 ^ 40) * L"
    using L0 by (intro mult_nonneg_nonneg) auto
  with below have q0: "0 \<le> q" by linarith
  have "(1 - 1 / 2 ^ 40) * L \<le> 1 * L"
    using L0 by (intro mult_right_mono) auto
  then have f1: "\<lfloor>(1 - 1 / 2 ^ 40) * L\<rfloor> \<le> \<lfloor>L\<rfloor>"
    by (simp add: floor_mono)
  have "1 * L \<le> (1 + 1 / 2 ^ 40) * L"
    using L0 by (intro mult_right_mono) auto
  then have f2: "\<lfloor>L\<rfloor> \<le> \<lfloor>(1 + 1 / 2 ^ 40) * L\<rfloor>"
    by (simp add: floor_mono)
  from below have f3: "\<lfloor>(1 - 1 / 2 ^ 40) * L\<rfloor> \<le> \<lfloor>q\<rfloor>" by (rule floor_mono)
  from above have f4: "\<lfloor>q\<rfloor> \<le> \<lfloor>(1 + 1 / 2 ^ 40) * L\<rfloor>" by (rule floor_mono)
  from stable have "\<lfloor>(1 - 1 / 2 ^ 40) * L\<rfloor> = \<lfloor>(1 + 1 / 2 ^ 40) * L\<rfloor>"
    by (simp only: L_def)
  with f1 f2 f3 f4 have "\<lfloor>q\<rfloor> = \<lfloor>L\<rfloor>" by linarith
  with r q q0 show ?thesis
    by (simp add: gm_heuristic_def float_positive_def py_int_def L_def)
qed

lemma gm_heuristic_spec:
  assumes "float_accuracy ops" and "\<bar>lo\<bar> \<le> 360" and "\<bar>hi\<bar> \<le> 360"
    and "hi - lo \<le> 360" and "stable_range (hi - lo)"
  shows "gm_heuristic ops (Fin lo) (Fin hi) = Inr (spec_axis_zoom (hi - lo))"
proof (cases "hi - lo = 0")
  case True
  then have "hi = lo" by simp
  with gm_heuristic_zero [OF assms(1,2)] show ?thesis
    by (simp add: spec_axis_zoom_def)
next
  case False
  with assms(5) have rlo: "1 / 2 ^ 1000 \<le> hi - lo"
    and stable: "\<lfloor>(1 - 1 / 2 ^ 40) * log 2 (1000 * 360 / (hi - lo) / 256)\<rfloor>
                   = \<lfloor>(1 + 1 / 2 ^ 40) * log 2 (1000 * 360 / (hi - lo) / 256)\<rfloor>"
    by (simp_all add: stable_range_def)
  from gm_heuristic_floor [OF assms(1,2,3) rlo assms(4) stable] False show ?thesis
    by (simp add: spec_axis_zoom_def)
qed

lemma log2_one_degree:
  "41 / 4 \<le> log 2 (1000 * 360 / 1 / 256 :: real)" "log 2 (1000 * 360 / 1 / 256 :: real) \<le> 21 / 2"
proof -
  let ?x = "1000 * 360 / 1 / 256 :: real"
  have "(2 :: real) ^ 41 \<le> ?x ^ 4" by (simp add: power_divide)
  then have "real 41 \<le> log 2 (?x ^ 4)"
    by (rule le_log_of_power) simp
  also have "log 2 (?x ^ 4) = real 4 * log 2 ?x"
    by (rule log_nat_power) simp
  finally show "41 / 4 \<le> log 2 ?x" by simp
  have "?x ^ 2 \<le> (2 :: real) ^ 21" by (simp add: power_divide)
  then have "?x ^ 2 \<le> 2 powr real 21"
    by (simp only: powr_realpow [of 2 21, OF zero_less_numeral])
  then have "log 2 (?x ^ 2) \<le> real 21"
    by (subst log_le_iff) simp_all
  also have "log 2 (?x ^ 2) = real 2 * log 2 ?x"
    by (rule log_nat_power) simp
  finally show "log 2 ?x \<le> 21 / 2" by simp
qed

lemma spec_axis_zoom_one_degree: "spec_axis_zoom 1 = 10"
proof -
  from log2_one_degree have "\<lfloor>log 2 (1000 * 360 / 1 / 256 :: real)\<rfloor> = 10"
    by (intro floor_unique) auto
  then show ?thesis by (simp add: spec_axis_zoom_def)
qed

lemma stable_range_zero: "stable_range 0"
  by (simp add: stable_range_def)

lemma stable_range_one_degree: "stable_range 1"
proof -
  define L where "L = log 2 (1000 * 360 / 1 / 256 :: real)"
  from log2_one_degree have L: "41 / 4 \<le> L" "L \<le> 21 / 2" by (simp_all add: L_def)
  have "(1 - 1 / 2 ^ 40) * (41 / 4) \<le> (1 - 1 / 2 ^ 40) * L"
    using L(1) by (intro mult_left_mono) auto
  moreover have "(10 :: real) \<le> (1 - 1 / 2 ^ 40) * (41 / 4)" by simp
  ultimately have a: "10 \<le> (1 - 1 / 2 ^ 40) * L" by linarith
  have "(1 - 1 / 2 ^ 40) * L \<le> 1 * L"
    using L(1) by (intro mult_right_mono) auto
  with L(2) have b: "(1 - 1 / 2 ^ 40) * L < 11" by linarith
  have "1 * L \<le> (1 + 1 / 2 ^ 40) * L"
    using L(1) by (intro mult_right_mono) auto
  with L(1) have c: "10 \<le> (1 + 1 / 2 ^ 40) * L" by linarith
  have "(1 + 1 / 2 ^ 40) * L \<le> (1 + 1 / 2 ^ 40) * (21 / 2)"
    using L(2) by (intro mult_left_mono) auto
  moreover have "(1 + 1 / 2 ^ 40) * (21 / 2) < (11 :: real)" by simp
  ultimately have d: "(1 + 1 / 2 ^ 40) * L < 11" by linarith
  from a b have "\<lfloor>(1 - 1 / 2 ^ 40) * L\<rfloor> = 10" by (intro floor_unique) auto
  moreover from c d have "\<lfloor>(1 + 1 / 2 ^ 40) * L\<rfloor> = 10" by (intro floor_unique) auto
  ultimately show ?thesis
    unfolding stable_range_def L_def by simp
qed

lemma column_range:
  fixes xs :: "real list"
  assumes "xs \<noteq> []" and "\<forall>x \<in> set xs. a \<le> x \<and> x \<le> b"
  shows "a \<le> Min (set xs)" and "Max (set xs) \<le> b" and "Min (set xs) \<le> Max (set xs)"
proof -
  from assms(1) have ne: "set xs \<noteq> {}" by simp
  show "Min (set xs) \<le> Max (set xs)"
    using ne by (simp add: Min_le_iff)
  show "Max (set xs) \<le> b" using assms ne by (simp add: Max_le_iff)
  show "a \<le> Min (set xs)" using assms ne by (simp add: Min_ge_iff)
qed

lemma axis_zoom:
  fixes xs :: "real list"
  assumes acc: "float_accuracy ops" and ne: "xs \<noteq> []"
    and bounds: "\<forall>x \<in> set xs. - b \<le> x \<and> x \<le> b" and b: "b \<le> 180"
    and stable: "stable_range (Max (set xs) - Min (set xs))"
  shows "gm_heuristic ops (column_min xs) (column_max xs)
           = Inr (spec_axis_zoom (Max (set xs) - Min (set xs)))"
proof -
  note c = column_range [OF ne bounds]
  have lo: "\<bar>Min (set xs)\<bar> \<le> 360" and hi: "\<bar>Max (set xs)\<bar> \<le> 360"
    and r: "Max (set xs) - Min (set xs) \<le> 360"
    using c b by linarith+
  from gm_heuristic_spec [OF acc lo hi r stable] ne show ?thesis
    by (simp add: column_min_def column_max_def)
qed

lemma exact_ops_accuracy: "float_accuracy exact_ops"
proof -
  have big: "(720 :: real) < 2 ^ 1024" "(2 :: real) ^ 1023 < 2 ^ 1024" by simp_all
  have sub: "\<exists>r. f_sub exact_ops (Fin a) (Fin b) = Fin r \<and> \<bar>r - (a - b)\<bar> \<le> float_eps * \<bar>a - b\<bar>"
    if "\<bar>a\<bar> \<le> 360" "\<bar>b\<bar> \<le> 360" for a b
  proof -
    define T :: real where "T = 2 ^ 1024"
    from big(1) have "720 < T" by (simp only: T_def)
    with that have "\<not> T \<le> a - b" "\<not> a - b \<le> - T" by linarith+
    then have "exact_sub (Fin a) (Fin b) = Fin (a - b)"
      by (simp add: exact_sub_def T_def)
    then show ?thesis by (simp add: exact_ops_def float_eps_def)
  qed
  have dv: "\<exists>q. f_div exact_ops (Fin a) (Fin b) = Fin q \<and> \<bar>q - a / b\<bar> \<le> float_eps * (a / b)"
    if "0 < a" "0 < b" "a / b < 2 ^ 1023" for a b
  proof -
    define T :: real where "T = 2 ^ 1024"
    define q where "q = a / b"
    from that(1,2) have q0: "0 < q" by (simp add: q_def)
    from that(3) big(2) have "q < T" unfolding T_def q_def by (rule less_trans)
    with q0 have "\<not> T \<le> q" "\<not> q \<le> - T" by linarith+
    with that(2) have "exact_div (Fin a) (Fin b) = Fin (a / b)"
      by (simp add: exact_div_def T_def q_def)
    with q0 show ?thesis by (simp add: exact_ops_def float_eps_def q_def)
  qed
  have lg: "\<exists>l. f_log exact_ops (Fin x) = Fin l \<and> \<bar>l - ln x\<bar> \<le> float_eps * ln x"
    if "1 \<le> x" for x
    using that by (simp add: exact_ops_def exact_log_def float_eps_def)
  from sub dv lg show ?thesis
    unfolding float_accuracy_def by blast
qed

lemma exact_ops_overflow: "float_overflow exact_ops"
  by (simp add: float_overflow_def exact_ops_def exact_div_def exact_log_def)

subsection \<open>Overflow\<close>

text \<open>
  For a positive range of at most \<open>2 ^ -1010\<close> degrees the first division overflows,
  the infinity goes through the logarithm and the last division, and \<open>int\<close> raises.
\<close>

lemma big_two: "(2 :: real) < 2 ^ 1023"
proof -
  have "(2 :: real) ^ 1 < 2 ^ 1023" by (rule power_strict_increasing) simp_all
  then show ?thesis by simp
qed

lemma gm_heuristic_overflow:
  assumes acc: "float_accuracy ops" and ov: "float_overflow ops"
    and lo: "\<bar>lo\<bar> \<le> 360" and hi: "\<bar>hi\<bar> \<le> 360"
    and r0: "0 < hi - lo" and small: "hi - lo \<le> 1 / 2 ^ 1010"
  shows "gm_heuristic ops (Fin lo) (Fin hi) = Inl OverflowError"
proof -
  define R where "R = hi - lo"
  define T :: real where "T = 2 ^ 1024"
  from acc hi lo obtain r where
    fr: "f_sub ops (Fin hi) (Fin lo) = Fin r" and "\<bar>r - (hi - lo)\<bar> \<le> float_eps * \<bar>hi - lo\<bar>"
    unfolding float_accuracy_def by blast
  with r0 have "\<bar>r - R\<bar> \<le> float_eps * R" by (simp add: R_def)
  note r = rel_bounds [OF this]
  have R0: "0 < R" using r0 by (simp add: R_def)
  have "0 < R * (1 - float_eps)"
    using R0 by (simp add: float_eps_def)
  with r(1) have rpos: "0 < r" by linarith
  have "R * (1 + float_eps) \<le> R * 2"
    using R0 by (intro mult_left_mono) (auto simp: float_eps_def)
  with r(2) have "r \<le> R * 2" by linarith
  moreover from small have "R * 2 \<le> 1 / 2 ^ 1009" by (simp add: R_def)
  ultimately have "r \<le> 1 / 2 ^ 1009" by linarith
  then have "1000 * 360 / (1 / 2 ^ 1009) \<le> 1000 * 360 / r"
    using rpos by (intro divide_left_mono) auto
  moreover have "(2 :: real) ^ 1024 \<le> 1000 * 360 / (1 / 2 ^ 1009)" by simp
  ultimately have "2 ^ 1024 \<le> 1000 * 360 / r" by (rule order_trans [rotated])
  with ov rpos have d1: "f_div ops (Fin (1000 * 360)) (Fin r) = PInf"
    unfolding float_overflow_def by simp
  from ov have d2: "f_div ops PInf (Fin 256) = PInf" and l1: "f_log ops PInf = PInf"
    and d3: "\<And>b. 0 < b \<Longrightarrow> f_div ops PInf (Fin b) = PInf"
    unfolding float_overflow_def by simp_all
  from acc obtain d where l2: "f_log ops (Fin 2) = Fin d"
    and de: "\<bar>d - ln 2\<bar> \<le> float_eps * ln 2"
    unfolding float_accuracy_def by (metis one_le_numeral big_two)
  from rel_bounds(1) [OF de] have "ln 2 * (1 - float_eps) \<le> d" .
  moreover have "0 < ln (2 :: real) * (1 - float_eps)"
    by (simp add: float_eps_def)
  ultimately have "0 < d" by linarith
  from d3 [OF this] fr rpos d1 d2 l1 l2 show ?thesis
    by (simp add: gm_heuristic_def float_positive_def py_int_def)
qed

subsection \<open>The zoom of an item set\<close>

text \<open>
  Claim C9, in binary64. For a non-empty item set with coordinates in degrees and an
  arithmetic as accurate as \<open>float_accuracy\<close> says, each axis gets
  \<open>floor(log2(1000 * 360 / range / 256))\<close> when its range is not zero and 14 when it is,
  and the zoom is the minimum of the two, provided that each range is stable: zero, or at
  least \<open>2 ^ -1000\<close> with a logarithm that is not within a relative \<open>2 ^ -40\<close> of the
  next integer. A single point has zoom 14, and a range of one degree, which is stable,
  gives 10 on its axis.
\<close>

theorem zoom_heuristic_spec:
  assumes "float_accuracy ops" and "df_items \<noteq> []" and "valid_coordinates df_items"
    and "stable_range (Max (set (map fst df_items)) - Min (set (map fst df_items)))"
    and "stable_range (Max (set (map snd df_items)) - Min (set (map snd df_items)))"
  shows "zoom_heuristic ops df_items =
           Inr (min (spec_axis_zoom (Max (set (map fst df_items)) - Min (set (map fst df_items))))
                    (spec_axis_zoom (Max (set (map snd df_items)) - Min (set (map snd df_items)))))
         \<and> (valid_coordinates [p] \<longrightarrow> zoom_heuristic ops [p] = Inr 14)
         \<and> spec_axis_zoom 0 = 14
         \<and> (- 360 \<le> lo \<and> lo \<le> 359 \<longrightarrow> gm_heuristic ops (Fin lo) (Fin (lo + 1)) = Inr 10)
         \<and> spec_axis_zoom 1 = 10"
proof (intro conjI impI)
  from assms(3) have lat: "\<forall>x \<in> set (map fst df_items). - 90 \<le> x \<and> x \<le> 90"
    and long: "\<forall>x \<in> set (map snd df_items). - 180 \<le> x \<and> x \<le> 180"
    by (auto simp: valid_coordinates_def)
  from assms(2) have ne: "map fst df_items \<noteq> []" "map snd df_items \<noteq> []" by simp_all
  have 1: "gm_heuristic ops (column_min (map fst df_items)) (column_max (map fst df_items))
             = Inr (spec_axis_zoom (Max (set (map fst df_items)) - Min (set (map fst df_items))))"
    by (rule axis_zoom [OF assms(1) ne(1) lat _ assms(4)]) simp
  have 2: "gm_heuristic ops (column_min (map snd df_items)) (column_max (map snd df_items))
             = Inr (spec_axis_zoom (Max (set (map snd df_items)) - Min (set (map snd df_items))))"
    by (rule axis_zoom [OF assms(1) ne(2) long _ assms(5)]) simp
  show "zoom_heuristic ops df_items =
           Inr (min (spec_axis_zoom (Max (set (map fst df_items)) - Min (set (map fst df_items))))
                    (spec_axis_zoom (Max (set (map snd df_items)) - Min (set (map snd df_items)))))"
    unfolding zoom_heuristic_def 1 2 by simp
  show "spec_axis_zoom 0 = 14"
    by (simp add: spec_axis_zoom_def)
  show "spec_axis_zoom 1 = 10"
    by (rule spec_axis_zoom_one_degree)
next
  assume "valid_coordinates [p]"
  then have "\<bar>fst p\<bar> \<le> 360" "\<bar>snd p\<bar> \<le> 360"
    by (auto simp: valid_coordinates_def split_def)
  then have "gm_heuristic ops (Fin (fst p)) (Fin (fst p)) = Inr 14"
    "gm_heuristic ops (Fin (snd p)) (Fin (snd p)) = Inr 14"
    using assms(1) by (simp_all add: gm_heuristic_zero)
  then show "zoom_heuristic ops [p] = Inr 14"
    by (simp add: zoom_heuristic_def column_min_def column_max_def)
next
  assume lo: "- 360 \<le> lo \<and> lo \<le> 359"
  then have b: "\<bar>lo\<bar> \<le> 360" "\<bar>lo + 1\<bar> \<le> 360" by linarith+
  have "gm_heuristic ops (Fin lo) (Fin (lo + 1)) = Inr (spec_axis_zoom (lo + 1 - lo))"
    by (rule gm_heuristic_spec [OF assms(1) b]) (simp_all add: stable_range_one_degree)
  then show "gm_heuristic ops (Fin lo) (Fin (lo + 1)) = Inr 10"
    by (simp add: spec_axis_zoom_one_degree)
qed

text \<open>
  Witness for C9: two items one degree of latitude apart on one meridian, in the arithmetic
  without rounding; the latitude axis gives 10, the longitude axis 14.
\<close>

theorem zoom_heuristic_spec_witness:
  "float_accuracy exact_ops
   \<and> valid_coordinates [(-33.5, 151), (-32.5, 151)]
   \<and> stable_range (Max (set (map fst [(-33.5, 151), (-32.5, 151 :: real)]))
                   - Min (set (map fst [(-33.5 :: real, 151), (-32.5, 151 :: real)])))
   \<and> stable_range (Max (set (map snd [(-33.5 :: real, 151), (-32.5, 151 :: real)]))
                   - Min (set (map snd [(-33.5 :: real, 151), (-32.5, 151 :: real)])))
   \<and> zoom_heuristic exact_ops [(-33.5, 151), (-32.5, 151)] = Inr 10"
proof -
  have v: "valid_coordinates [(-33.5, 151), (-32.5, 151)]"
    by (simp add: valid_coordinates_def)
  have ne: "[(-33.5, 151), (-32.5, 151)] \<noteq> ([] :: (real \<times> real) list)" by simp
  have r: "Max (set (map fst [(-33.5, 151), (-32.5, 151 :: real)]))
            - Min (set (map fst [(-33.5 :: real, 151), (-32.5, 151 :: real)])) = 1"
    "Max (set (map snd [(-33.5 :: real, 151), (-32.5, 151 :: real)]))
            - Min (set (map snd [(-33.5 :: real, 151), (-32.5, 151 :: real)])) = 0"
    by simp_all
  have s: "stable_range (Max (set (map fst [(-33.5, 151), (-32.5, 151 :: real)]))
                   - Min (set (map fst [(-33.5 :: real, 151), (-32.5, 151 :: real)])))"
    "stable_range (Max (set (map snd [(-33.5 :: real, 151), (-32.5, 151 :: real)]))
                   - Min (set (map snd [(-33.5 :: real, 151), (-32.5, 151 :: real)])))"
    unfolding r by (rule stable_range_one_degree, rule stable_range_zero)
  from zoom_heuristic_spec [OF exact_ops_accuracy ne v s]
  have "zoom_heuristic exact_ops [(-33.5, 151), (-32.5, 151)] = Inr (min 10 14)"
    unfolding r by (simp only:) 
  with exact_ops_accuracy v s show ?thesis by simp
qed

text \<open>
  Counterexample to C9 as stated: two items on the equator whose latitudes differ by
  \<open>2 ^ -1074\<close> degrees, the smallest positive binary64 number. The range is not zero, but
  \<open>1000 * 360 / range\<close> is above \<open>2 ^ 1024\<close> and overflows to \<open>inf\<close>, and
  \<open>int(inf)\<close> raises \<open>OverflowError\<close>: the heuristic returns no zoom at all.
\<close>

theorem zoom_heuristic_tiny_range_overflows:
  "valid_coordinates [(0, 0), (1 / 2 ^ 1074, 0)]
   \<and> Max (set (map fst [(0, 0), (1 / 2 ^ 1074, 0 :: real)]))
       - Min (set (map fst [(0 :: real, 0), (1 / 2 ^ 1074, 0 :: real)])) \<noteq> 0
   \<and> zoom_heuristic exact_ops [(0, 0), (1 / 2 ^ 1074, 0)] = Inl OverflowError"
proof -
  have v: "valid_coordinates [(0, 0), (1 / 2 ^ 1074, 0)]"
    by (simp add: valid_coordinates_def)
  have m: "Min (set (map fst [(0 :: real, 0), (1 / 2 ^ 1074, 0 :: real)])) = 0"
    "Max (set (map fst [(0 :: real, 0), (1 / 2 ^ 1074, 0 :: real)])) = 1 / 2 ^ 1074"
    by simp_all
  have "gm_heuristic exact_ops (Fin 0) (Fin (1 / 2 ^ 1074)) = Inl OverflowError"
    by (rule gm_heuristic_overflow [OF exact_ops_accuracy exact_ops_overflow]) simp_all
  then have "zoom_heuristic exact_ops [(0, 0), (1 / 2 ^ 1074, 0)] = Inl OverflowError"
    unfolding zoom_heuristic_def column_min_def column_max_def m by simp
  with v m show ?thesis by simp
qed

text \<open>
  Outside the degrees of a map the truncation of \<open>int\<close> shows as well: for a range of
  2000 the logarithm is negative and is rounded up to 0, not down to -1.
\<close>

lemma gm_heuristic_truncates:
  "gm_heuristic exact_ops (Fin 0) (Fin 2000) = Inr 0 \<and> spec_axis_zoom 2000 = - 1"
proof -
  have x: "(1000 * 360 / 2000 / 256 :: real) = 45 / 64" by simp
  have neg: "ln (45 / 64 :: real) / ln 2 < 0"
    by (simp add: divide_neg_pos)
  have "(1/2 :: real) < 45 / 64" by simp
  then have "ln (1/2 :: real) < ln (45 / 64)"
    by (subst ln_less_cancel_iff) simp_all
  then have "- ln 2 < ln (45 / 64 :: real)"
    by (simp add: ln_div)
  then have ge: "-1 < ln (45 / 64 :: real) / ln 2"
    by (simp add: field_simps)
  from neg ge have c: "\<lceil>ln (45 / 64 :: real) / ln 2\<rceil> = 0"
    by (simp add: ceiling_eq_iff)
  from neg ge have f: "\<lfloor>ln (45 / 64 :: real) / ln 2\<rfloor> = - 1"
    by (intro floor_unique) auto
  have d1: "exact_div (Fin 360000) (Fin 2000) = Fin 180"
    by (simp add: exact_div_def)
  have d2: "exact_div (Fin 180) (Fin 256) = Fin (45 / 64)"
    by (simp add: exact_div_def)
  define l where "l = ln (45 / 64 :: real) / ln 2"
  define T :: real where "T = 2 ^ 1024"
  have "(1 :: real) < T" unfolding T_def by (rule one_less_power) simp_all
  with neg ge have "\<not> T \<le> l" "\<not> l \<le> - T" unfolding l_def by linarith+
  then have d3: "exact_div (Fin (ln (45 / 64))) (Fin (ln 2)) = Fin (ln (45 / 64) / ln 2)"
    by (simp add: exact_div_def T_def l_def)
  have "gm_heuristic exact_ops (Fin 0) (Fin 2000) = Inr 0"
    using neg c
    by (simp add: gm_heuristic_def exact_ops_def exact_sub_def float_positive_def d1 d2 d3
        exact_log_def py_int_def)
  moreover have "spec_axis_zoom 2000 = - 1"
    using f by (simp add: spec_axis_zoom_def x log_def)
  ultimately show ?thesis ..
qed

section \<open>Properties of the instrumentation wrappers\<close>

lemma timer_deco_returns_result:
  "body args w = (Inr v, w1) \<Longrightarrow> fst (timer_deco fmt fn body args w) = Inr v"
  by (simp add: timer_deco_def Let_def)

lemma log_time_and_shape_returns_result:
  "body args w = (Inr v, w1) \<Longrightarrow> class_name fn = Inr c
     \<Longrightarrow> fst (log_time_and_shape fmt fn body args w) = Inr v"
  by (simp add: log_time_and_shape_def Let_def split: prod.splits)

lemma log_time_and_shape_propagates:
  "body args w = (Inl err, w1) \<Longrightarrow> log_time_and_shape fmt fn body args w = (Inl err, w1)"
  by (simp add: log_time_and_shape_def Let_def)

lemma timer_deco_propagates:
  "body args w = (Inl err, w1) \<Longrightarrow> timer_deco fmt fn body args w = (Inl err, w1)"
  by (simp add: timer_deco_def Let_def)

text \<open>
  Claim C10 at a method of a class nested in a class, with
  \<open>__qualname__ = 'Outer.Inner.run'\<close>: the module has the attribute \<open>Outer\<close> and no
  attribute \<open>Outer.Inner\<close>, the lookup of the defining class raises \<open>AttributeError\<close>
  after the function has returned 42, and the call through \<open>log_time_and_shape\<close> raises
  where the function itself returns. \<open>timer_deco\<close> returns the value.
\<close>

theorem log_time_and_shape_nested_class_raises:
  "fst ((\<lambda>(u::unit) w. (Inr (Plain ''int'' ''42''), w\<lparr>now := now w + 2\<rparr>)) ()
          \<lparr>now = 0, memory_percent = 40, stack_depth = Some 3, monitor_samples = [],
           log_records = []\<rparr>)
     = Inr (Plain ''int'' ''42'')
   \<and> fst (log_time_and_shape
          \<lparr>format_2f = (\<lambda>x. ''2.00''), str_float = (\<lambda>x. ''40.0'')\<rparr>
          (Function \<lparr>func_id = 1, func_name = ''run'', func_qualname = ''Outer.Inner.run'',
                     func_module = Some [(''Outer'', ClassObject ''Outer'')]\<rparr>)
          (\<lambda>(u::unit) w. (Inr (Plain ''int'' ''42''), w\<lparr>now := now w + 2\<rparr>)) ()
          \<lparr>now = 0, memory_percent = 40, stack_depth = Some 3, monitor_samples = [],
           log_records = []\<rparr>)
     = Inl AttributeError
   \<and> fst (timer_deco
          \<lparr>format_2f = (\<lambda>x. ''2.00''), str_float = (\<lambda>x. ''40.0'')\<rparr>
          (Function \<lparr>func_id = 1, func_name = ''run'', func_qualname = ''Outer.Inner.run'',
                     func_module = Some [(''Outer'', ClassObject ''Outer'')]\<rparr>)
          (\<lambda>(u::unit) w. (Inr (Plain ''int'' ''42''), w\<lparr>now := now w + 2\<rparr>)) ()
          \<lparr>now = 0, memory_percent = 40, stack_depth = Some 3, monitor_samples = [],
           log_records = []\<rparr>)
     = Inr (Plain ''int'' ''42'')"
proof -
  have q: "before_last_dot ''Outer.Inner.run'' = ''Outer.Inner''"
    by (simp add: before_last_dot_def)
  show ?thesis
    by (simp add: log_time_and_shape_def timer_deco_def Let_def class_name_def
        class_of_function_def q monitor_stop_def)
qed

lemma log_time_and_shape_top_level_class:
  "log_time_and_shape
          \<lparr>format_2f = (\<lambda>x. ''2.00''), str_float = (\<lambda>x. ''40.0'')\<rparr>
          (Function \<lparr>func_id = 1, func_name = ''run'', func_qualname = ''Outer.run'',
                     func_module = Some [(''Outer'', ClassObject ''Outer'')]\<rparr>)
          (\<lambda>(u::unit) w. (Inr (Plain ''int'' ''42''), w\<lparr>now := now w + 2\<rparr>)) ()
          \<lparr>now = 0, memory_percent = 40, stack_depth = Some 3, monitor_samples = [],
           log_records = []\<rparr>
     = (Inr (Plain ''int'' ''42''),
        \<lparr>now = 2, memory_percent = 40, stack_depth = Some 3, monitor_samples = [],
         log_records = [(20, ''   Outer.run, elapsed: 2.00, returned: int, 42..., sys mem: 40.0%(peak:40.0%)'')]\<rparr>)"
proof -
  have q: "before_last_dot ''Outer.run'' = ''Outer''"
    by (simp add: before_last_dot_def)
  show ?thesis
    by (simp add: log_time_and_shape_def Let_def class_name_def class_of_function_def q
        monitor_stop_def get_stack_depth_def MIN_TIME_TO_LOG_def WRAPPERS_LOGGING_LEVEL_def
        numeral_3_eq_3)
qed

section \<open>Properties of the recommendation frames\<close>

lemma set_unique [simp]: "set (unique xs) = set xs"
  by (induction xs rule: unique.induct) auto

lemma distinct_unique [simp]: "distinct (unique xs)"
  by (induction xs rule: unique.induct) auto

lemma set_py_slice_to: "set (py_slice_to n xs) \<subseteq> set xs"
  by (auto simp: py_slice_to_def split: option.splits dest: in_set_takeD)

lemma length_py_slice_to: "0 \<le> k \<Longrightarrow> length (py_slice_to (Some k) xs) \<le> nat k"
  by (simp add: py_slice_to_def)

lemma flat_df_to_lists_member:
  assumes "(g, ts, ps) \<in> set (flat_df_to_lists df n)" and "t \<in> set ts"
  shows "\<exists>p. (g, t, p) \<in> set df"
proof -
  let ?rows = "filter (\<lambda>(s, t, p). s = g) (sort_key (\<lambda>(s, t, p). - p) df)"
  from assms(1) have "ts = py_slice_to n (map (\<lambda>(s, t, p). t) ?rows)"
    by (auto simp: flat_df_to_lists_def Let_def)
  with assms(2) set_py_slice_to have "t \<in> set (map (\<lambda>(s, t, p). t) ?rows)"
    by fast
  then show ?thesis by auto
qed

lemma flat_df_to_lists_length:
  assumes "(g, ts, ps) \<in> set (flat_df_to_lists df (Some k))" and "0 \<le> k"
  shows "length ts \<le> nat k" and "length ps \<le> nat k"
  using assms by (auto simp: flat_df_to_lists_def Let_def length_py_slice_to)

lemma merge_row_member:
  "(u', i', p', rating) \<in> set
      (let matches = filter (\<lambda>(u'', i'', rt). u'' = u \<and> i'' = i) training
       in if matches = [] then [(u, i, p, None)]
          else map (\<lambda>(u'', i'', rt). (u, i, p, rt)) matches) \<longleftrightarrow>
     u' = u \<and> i' = i \<and> p' = p \<and>
     ((rating = None \<and> (\<forall>rt. (u, i, rt) \<notin> set training)) \<or> (u, i, rating) \<in> set training)"
proof (cases "filter (\<lambda>(u'', i'', rt). u'' = u \<and> i'' = i) training = []")
  case True
  then have "\<forall>rt. (u, i, rt) \<notin> set training"
    by (auto simp: filter_empty_conv)
  with True show ?thesis
    by (auto simp: Let_def)
next
  case False
  then obtain rt0 where "(u, i, rt0) \<in> set training"
    by (auto simp: filter_empty_conv)
  with False show ?thesis
    by (auto simp: Let_def image_iff)
qed

lemma left_merge_training_member:
  "(u, i, p, rating) \<in> set (left_merge_training df training) \<longleftrightarrow>
     (u, i, p) \<in> set df \<and>
     ((rating = None \<and> (\<forall>rt. (u, i, rt) \<notin> set training)) \<or> (u, i, rating) \<in> set training)"
proof -
  have "(u, i, p, rating) \<in> set (left_merge_training df training) \<longleftrightarrow>
          (\<exists>(a, b, c) \<in> set df. (u, i, p, rating) \<in> set
             (let matches = filter (\<lambda>(u'', i'', rt). u'' = a \<and> i'' = b) training
              in if matches = [] then [(a, b, c, None)]
                 else map (\<lambda>(u'', i'', rt). (a, b, c, rt)) matches))"
    unfolding left_merge_training_def by (simp add: split_def Bex_def)
  also have "\<dots> \<longleftrightarrow> (\<exists>(a, b, c) \<in> set df. u = a \<and> i = b \<and> p = c \<and>
     ((rating = None \<and> (\<forall>rt. (a, b, rt) \<notin> set training)) \<or> (a, b, rating) \<in> set training))"
    by (simp only: merge_row_member)
  also have "\<dots> \<longleftrightarrow> (u, i, p) \<in> set df \<and>
     ((rating = None \<and> (\<forall>rt. (u, i, rt) \<notin> set training)) \<or> (u, i, rating) \<in> set training)"
    by auto
  finally show ?thesis .
qed

lemma remove_training_from_df_member:
  "(u, i, p) \<in> set (remove_training_from_df r df) \<longleftrightarrow>
     (u, i, p) \<in> set df
     \<and> ((\<forall>rt. (u, i, rt) \<notin> set (train_df r)) \<or> (u, i, None) \<in> set (train_df r))"
proof -
  have "(u, i, p) \<in> set (remove_training_from_df r df) \<longleftrightarrow>
          (u, i, p, None) \<in> set (left_merge_training df (train_df r))"
    by (force simp: remove_training_from_df_def)
  then show ?thesis
    by (simp add: left_merge_training_member)
qed

lemma separate_heavy_users_train_df:
  "separate_heavy_users r ids th = (h, n, m, r') \<Longrightarrow> train_df r' = train_df r"
  by (auto simp: separate_heavy_users_def Let_def)

lemma get_recommendations_flat_unfolded:
  assumes "get_recommendations unfilt r user_ids item_ids n_rec n_rec_unfilt excl fmt = (Inr out, r')"
  shows "\<exists>df. get_recommendations unfilt r user_ids item_ids n_rec n_rec_unfilt False ''flat''
                 = (Inr (Flat df), r')
            \<and> train_df r' = train_df r
            \<and> out = (let df' = (if excl then remove_training_from_df r' df else df)
                     in if fmt = ''flat'' then Flat df'
                        else Lists (recos_flat_to_lists df' (Some n_rec)))"
proof -
  obtain h n m r1 where sep:
    "separate_heavy_users r (resolve_user_ids r user_ids) 50 = (h, n, m, r1)"
    by (cases "separate_heavy_users r (resolve_user_ids r user_ids) 50") auto
  from assms sep obtain dfs where col:
    "collect_recos unfilt (resolve_item_ids r item_ids) (unfilt_requests h n m n_rec_unfilt) = Inr dfs"
    by (auto simp: get_recommendations_def Let_def split: sum.splits)
  from assms sep col obtain df where cat: "pd_concat dfs = Inr df"
    by (auto simp: get_recommendations_def Let_def split: sum.splits)
  from assms sep col cat have r': "r' = r1"
    by (auto simp: get_recommendations_def Let_def split: if_splits)
  from assms sep col cat have out:
    "out = (let df' = (if excl then remove_training_from_df r1 df else df)
            in if fmt = ''flat'' then Flat df' else Lists (recos_flat_to_lists df' (Some n_rec)))"
    by (auto simp: get_recommendations_def Let_def split: if_splits)
  have "get_recommendations unfilt r user_ids item_ids n_rec n_rec_unfilt False ''flat''
          = (Inr (Flat df), r1)"
    using sep col cat by (simp add: get_recommendations_def Let_def)
  with r' out separate_heavy_users_train_df [OF sep] show ?thesis by auto
qed

text \<open>
  When every training row of a user and an item carries a rating, a result of
  \<open>get_recommendations\<close> with \<open>exclude_training=True\<close> has no row for that user and item
  in the flat format, and does not list the item for the user in the lists format,
  whatever the unfiltered scores are. With \<open>exclude_training=False\<close> and the same inputs the
  flat result is the unfiltered frame itself, of which the filtered result is what
  \<open>_remove_training_from_df\<close> leaves.
\<close>

lemma exclude_training_removes_rated_pairs:
  assumes "(u, x, rating) \<in> set (train_df r)"
    and "(u, x, None) \<notin> set (train_df r)"
    and "get_recommendations unfilt r user_ids item_ids n_rec n_rec_unfilt True fmt = (Inr out, r')"
  shows "(case out of
            Flat rows \<Rightarrow> \<forall>p. (u, x, p) \<notin> set rows
          | Lists rows \<Rightarrow> \<forall>items scores. (u, items, scores) \<in> set rows \<longrightarrow> x \<notin> set items)
         \<and> (\<exists>df. get_recommendations unfilt r user_ids item_ids n_rec n_rec_unfilt False ''flat''
                     = (Inr (Flat df), r')
                \<and> get_recommendations unfilt r user_ids item_ids n_rec n_rec_unfilt True ''flat''
                     = (Inr (Flat (remove_training_from_df r df)), r'))"
proof -
  from get_recommendations_flat_unfolded [OF assms(3)] obtain df where
    f: "get_recommendations unfilt r user_ids item_ids n_rec n_rec_unfilt False ''flat''
          = (Inr (Flat df), r')"
    and t: "train_df r' = train_df r"
    and out: "out = (if fmt = ''flat'' then Flat (remove_training_from_df r' df)
                     else Lists (recos_flat_to_lists (remove_training_from_df r' df) (Some n_rec)))"
    by (auto simp: Let_def)
  have same: "remove_training_from_df r' df = remove_training_from_df r df"
    by (simp add: remove_training_from_df_def t)
  have no: "(u, x, p) \<notin> set (remove_training_from_df r df)" for p
    using assms(1,2) by (auto simp: remove_training_from_df_member)
  have 1: "case out of
            Flat rows \<Rightarrow> \<forall>p. (u, x, p) \<notin> set rows
          | Lists rows \<Rightarrow> \<forall>items scores. (u, items, scores) \<in> set rows \<longrightarrow> x \<notin> set items"
  proof (cases "fmt = ''flat''")
    case True
    with out same no show ?thesis by simp
  next
    case False
    have "x \<notin> set items"
      if "(u, items, scores) \<in> set (flat_df_to_lists (remove_training_from_df r df) (Some n_rec))"
      for items scores
      using flat_df_to_lists_member [OF that] no by blast
    with False out same show ?thesis
      by (simp add: recos_flat_to_lists_def)
  qed
  have "get_recommendations unfilt r user_ids item_ids n_rec n_rec_unfilt True ''flat''
          = (Inr (Flat (remove_training_from_df r df)), r')"
    using f same
    by (auto simp: get_recommendations_def Let_def split: prod.splits sum.splits)
  with 1 f show ?thesis by blast
qed




text \<open>
  User 1 has trained on items 10 and 11, with ratings; the unfiltered step scores item 10
  highest for every user, and the filtered result for user 1 is item 12 alone.
\<close>

lemma exclude_training_removes_rated_pairs_example:
  "get_recommendations (\<lambda>us its w. Inr (concat (map (\<lambda>u. [(u, 10, 9 / 10), (u, 12, 1 / 2)]) us)))
      \<lparr>train_df = [(1::nat, 10::nat, Some 1), (1, 11, Some 1), (2, 10, Some 1)],
       user_train_counts = None\<rparr>
      (Some [1]) None 10 100 True ''flat''
    = (Inr (Flat [(1, 12, 1 / 2)]),
       \<lparr>train_df = [(1, 10, Some 1), (1, 11, Some 1), (2, 10, Some 1)],
        user_train_counts = Some [(1, 2), (2, 1)]\<rparr>)
   \<and> (\<forall>p. (1, 10, p) \<notin> set [(1::nat, 12::nat, 1 / 2 :: real)])
   \<and> get_recommendations (\<lambda>us its w. Inr (concat (map (\<lambda>u. [(u, 10, 9 / 10), (u, 12, 1 / 2)]) us)))
      \<lparr>train_df = [(1::nat, 10::nat, Some 1), (1, 11, Some 1), (2, 10, Some 1)],
       user_train_counts = None\<rparr>
      (Some [1]) None 10 100 False ''flat''
    = (Inr (Flat [(1, 10, 9 / 10), (1, 12, 1 / 2)]),
       \<lparr>train_df = [(1, 10, Some 1), (1, 11, Some 1), (2, 10, Some 1)],
        user_train_counts = Some [(1, 2), (2, 1)]\<rparr>)"
proof -
  let ?unfilt = "\<lambda>(us :: nat list) (its :: nat list) (w :: int).
      (Inr (concat (map (\<lambda>u. [(u, 10::nat, 9 / 10 :: real), (u, 12, 1 / 2)]) us))
         :: py_exception + (nat, nat) flat_df)"
  let ?r = "\<lparr>train_df = [(1::nat, 10::nat, Some (1::real)), (1, 11, Some 1), (2, 10, Some 1)],
             user_train_counts = None\<rparr>"
  let ?r' = "\<lparr>train_df = [(1::nat, 10::nat, Some (1::real)), (1, 11, Some 1), (2, 10, Some 1)],
             user_train_counts = Some [(1, 2), (2, 1)]\<rparr>"
  have mem: "(1, 10, Some 1) \<in> set (train_df ?r)" by simp
  have nonull: "(1, 10, None) \<notin> set (train_df ?r)" by simp
  have run: "get_recommendations ?unfilt ?r (Some [1]) None 10 100 True ''flat''
               = (Inr (Flat [(1, 12, 1 / 2)]), ?r')"
    by (simp add: get_recommendations_def resolve_user_ids_def resolve_item_ids_def
        remove_unseen_users_def all_users_def all_items_def filter_array_def
        separate_heavy_users_def value_counts_def unfilt_requests_def pd_concat_def
        remove_training_from_df_def left_merge_training_def Let_def)
  have run2: "get_recommendations ?unfilt ?r (Some [1]) None 10 100 False ''flat''
               = (Inr (Flat [(1, 10, 9 / 10), (1, 12, 1 / 2)]), ?r')"
    by (simp add: get_recommendations_def resolve_user_ids_def resolve_item_ids_def
        remove_unseen_users_def all_users_def all_items_def filter_array_def
        separate_heavy_users_def value_counts_def unfilt_requests_def pd_concat_def Let_def)
  from exclude_training_removes_rated_pairs [OF mem nonull run] run run2
  show ?thesis by simp
qed

text \<open>
  Claim C1 at a training row with a null rating. User 1 has trained on item 10, and the
  rating of that training row is null; the merged row of (1, 10) then has a null rating
  like a row that nothing matches, the filter keeps it, and the result of
  \<open>get_recommendations\<close> with \<open>exclude_training=True\<close> has item 10 for user 1, in the flat
  format and in the lists format.
\<close>

theorem exclude_training_keeps_null_rated_pair:
  "get_recommendations (\<lambda>us its w. Inr (concat (map (\<lambda>u. [(u, 10, 9 / 10), (u, 12, 1 / 2)]) us)))
      \<lparr>train_df = [(1::nat, 10::nat, None), (1, 11, Some 1), (2, 10, Some 1)],
       user_train_counts = None\<rparr>
      (Some [1]) None 10 100 True ''flat''
    = (Inr (Flat [(1, 10, 9 / 10), (1, 12, 1 / 2)]),
       \<lparr>train_df = [(1, 10, None), (1, 11, Some 1), (2, 10, Some 1)],
        user_train_counts = Some [(1, 2), (2, 1)]\<rparr>)
   \<and> get_recommendations (\<lambda>us its w. Inr (concat (map (\<lambda>u. [(u, 10, 9 / 10), (u, 12, 1 / 2)]) us)))
      \<lparr>train_df = [(1::nat, 10::nat, None), (1, 11, Some 1), (2, 10, Some 1)],
       user_train_counts = None\<rparr>
      (Some [1]) None 10 100 True ''lists''
    = (Inr (Lists [(1, [10, 12], [9 / 10, 1 / 2])]),
       \<lparr>train_df = [(1, 10, None), (1, 11, Some 1), (2, 10, Some 1)],
        user_train_counts = Some [(1, 2), (2, 1)]\<rparr>)"
  by (simp add: get_recommendations_def resolve_user_ids_def resolve_item_ids_def
      remove_unseen_users_def all_users_def all_items_def filter_array_def
      separate_heavy_users_def value_counts_def unfilt_requests_def pd_concat_def
      remove_training_from_df_def left_merge_training_def recos_flat_to_lists_def
      flat_df_to_lists_def py_slice_to_def Let_def)


section \<open>Properties of similar items and of the cascade\<close>

lemma format_similarities_flat:
  assumes "format_results_df src tm sm ''similarities_flat'' = Inr out"
  shows "\<exists>df. out = Flat df"
proof -
  have c: "str_contains ''similarities'' ''similarities_flat''"
    "\<not> str_contains ''lists'' ''similarities_flat''"
    "str_contains ''flat'' ''similarities_flat''"
    by simp_all
  from assms show ?thesis
    unfolding format_results_df_def
    by (simp only: c simp_thms if_True if_False Let_def split: list.splits if_splits) auto
qed

text \<open>
  Claim C7. With \<open>remove_self=True\<close> the request sent to \<open>most_similar\<close> asks for
  \<open>n_simil + 1\<close> neighbours; the flat result is the formatted frame without the rows whose
  source is their target; no source is among its own neighbours in either format; and in
  the lists format every source has at most \<open>n_simil\<close> neighbours (for a count \<open>n_simil\<close>
  that is not negative).
\<close>

theorem get_similar_items_remove_self:
  "n_requested (similar_items_request r item_ids target_item_ids n_simil True emb sim) = n_simil + 1
   \<and> (\<forall>out. get_similar_items most_similar r item_ids target_item_ids n_simil True emb sim fmt
              = Inr out \<longrightarrow>
        (\<exists>best_ids best_scores df.
            most_similar (similar_items_request r item_ids target_item_ids n_simil True emb sim)
              = Inr (best_ids, best_scores)
          \<and> format_results_df
               (source_ids (similar_items_request r item_ids target_item_ids n_simil True emb sim))
               best_ids best_scores ''similarities_flat'' = Inr (Flat df)
          \<and> (case out of
                Flat rows \<Rightarrow> rows = filter (\<lambda>(s, t, p). s \<noteq> t) df
                               \<and> (\<forall>(s, t, p) \<in> set rows. s \<noteq> t)
              | Lists rows \<Rightarrow>
                  str_contains ''lists'' fmt
                  \<and> (\<forall>(s, ts, ps) \<in> set rows.
                        s \<notin> set ts
                        \<and> (0 \<le> n_simil \<longrightarrow> length ts \<le> nat n_simil \<and> length ps \<le> nat n_simil)))))"
proof (intro conjI allI impI)
  show "n_requested (similar_items_request r item_ids target_item_ids n_simil True emb sim)
          = n_simil + 1"
    by (simp add: similar_items_request_def split: prod.splits)
next
  fix out
  let ?req = "similar_items_request r item_ids target_item_ids n_simil True emb sim"
  assume a: "get_similar_items most_similar r item_ids target_item_ids n_simil True emb sim fmt
               = Inr out"
  then obtain best_ids best_scores where ms: "most_similar ?req = Inr (best_ids, best_scores)"
    by (auto simp: get_similar_items_def Let_def split: sum.splits)
  with a obtain fr where fr:
    "format_results_df (source_ids ?req) best_ids best_scores ''similarities_flat'' = Inr fr"
    by (auto simp: get_similar_items_def Let_def split: sum.splits)
  from format_similarities_flat [OF fr] obtain df where df: "fr = Flat df" by blast
  from a ms fr df have out:
    "out = (if str_contains ''lists'' fmt
            then Lists (simil_flat_to_lists (remove_self_similarities df) (Some n_simil))
            else Flat (remove_self_similarities df))"
    by (auto simp: get_similar_items_def Let_def)
  have noself: "s \<noteq> t" if "(s, t, p) \<in> set (remove_self_similarities df)" for s t p
    using that by (simp add: remove_self_similarities_def)
  have shape: "case out of
                Flat rows \<Rightarrow> rows = filter (\<lambda>(s, t, p). s \<noteq> t) df
                               \<and> (\<forall>(s, t, p) \<in> set rows. s \<noteq> t)
              | Lists rows \<Rightarrow>
                  str_contains ''lists'' fmt
                  \<and> (\<forall>(s, ts, ps) \<in> set rows.
                        s \<notin> set ts
                        \<and> (0 \<le> n_simil \<longrightarrow> length ts \<le> nat n_simil \<and> length ps \<le> nat n_simil))"
  proof (cases "str_contains ''lists'' fmt")
    case False
    with out show ?thesis
      by (auto simp: remove_self_similarities_def)
  next
    case True
    have "s \<notin> set ts \<and> (0 \<le> n_simil \<longrightarrow> length ts \<le> nat n_simil \<and> length ps \<le> nat n_simil)"
      if m: "(s, ts, ps) \<in> set (flat_df_to_lists (remove_self_similarities df) (Some n_simil))"
      for s ts ps
    proof -
      have "s \<notin> set ts"
      proof
        assume "s \<in> set ts"
        from flat_df_to_lists_member [OF m this] noself show False by blast
      qed
      with flat_df_to_lists_length [OF m] show ?thesis by blast
    qed
    with True out show ?thesis
      by (auto simp: simil_flat_to_lists_def)
  qed
  from ms fr df shape
  show "\<exists>best_ids best_scores df.
            most_similar ?req = Inr (best_ids, best_scores)
          \<and> format_results_df (source_ids ?req) best_ids best_scores ''similarities_flat''
               = Inr (Flat df)
          \<and> (case out of
                Flat rows \<Rightarrow> rows = filter (\<lambda>(s, t, p). s \<noteq> t) df
                               \<and> (\<forall>(s, t, p) \<in> set rows. s \<noteq> t)
              | Lists rows \<Rightarrow>
                  str_contains ''lists'' fmt
                  \<and> (\<forall>(s, ts, ps) \<in> set rows.
                        s \<notin> set ts
                        \<and> (0 \<le> n_simil \<longrightarrow> length ts \<le> nat n_simil \<and> length ps \<le> nat n_simil)))"
    by blast
qed

text \<open>
  Witness for C7: the similar items of item 1 with \<open>n_simil = 2\<close>; \<open>most_similar\<close> answers
  the request for three neighbours with the item itself and two others.
\<close>

theorem get_similar_items_remove_self_witness:
  "get_similar_items
      (\<lambda>req. Inr (map (\<lambda>s. [s, s + 1, s + 2]) (source_ids req),
                   map (\<lambda>s. [1, 8 / 10, 6 / 10]) (source_ids req)))
      \<lparr>train_df = [(1::nat, 1::nat, Some 1), (1, 2, Some 1), (2, 3, Some 1)],
       user_train_counts = None\<rparr>
      (Some [1]) None 2 True None ''cosine'' ''lists''
    = Inr (Lists [(1, [2, 3], [8 / 10, 6 / 10])])"
proof -
  let ?ms = "\<lambda>req :: nat similarity_request.
      (Inr (map (\<lambda>s. [s, s + 1, s + 2]) (source_ids req),
            map (\<lambda>s. [1, 8 / 10, 6 / 10 :: real]) (source_ids req))
        :: py_exception + nat list list \<times> real list list)"
  let ?r = "\<lparr>train_df = [(1::nat, 1::nat, Some (1::real)), (1, 2, Some 1), (2, 3, Some 1)],
             user_train_counts = None\<rparr>"
  have run: "get_similar_items ?ms ?r (Some [1]) None 2 True None ''cosine'' ''lists''
               = Inr (Lists [(1, [2, 3], [8 / 10, 6 / 10])])"
    by (simp add: get_similar_items_def similar_items_request_def check_item_ids_args_def
        remove_unseen_items_def all_items_def filter_array_def format_results_df_def
        remove_self_similarities_def simil_flat_to_lists_def flat_df_to_lists_def
        py_slice_to_def Let_def numeral_3_eq_3 numeral_2_eq_2)
  from get_similar_items_remove_self [of ?r "Some [1]" None 2 None "''cosine''" ?ms "''lists''"] run
  show ?thesis by simp
qed

lemma add_encoded_cols_rows:
  "add_encoded_cols eu ei df = Inr rows \<Longrightarrow>
     rows = map (\<lambda>(u, i, p). (u, i, p, the (eu u), the (ei i))) df
     \<and> (\<forall>(u, i, p) \<in> set df. eu u \<noteq> None \<and> ei i \<noteq> None)"
proof (induction df arbitrary: rows)
  case Nil
  then show ?case by simp
next
  case (Cons row df)
  obtain u i p where row: "row = (u, i, p)" by (cases row)
  from Cons.prems row obtain cu ci rows' where
    e: "eu u = Some cu" "ei i = Some ci" and
    r: "add_encoded_cols eu ei df = Inr rows'" and
    rows: "rows = (u, i, p, cu, ci) # rows'"
    by (auto split: option.splits sum.splits)
  from Cons.IH [OF r] e rows row show ?case by simp
qed

lemma add_encoded_cols_total:
  "\<forall>(u, i, p) \<in> set df. eu u \<noteq> None \<and> ei i \<noteq> None \<Longrightarrow> \<exists>rows. add_encoded_cols eu ei df = Inr rows"
  by (induction df) (auto split: option.splits sum.splits)

lemma predict_on_df_pointwise:
  assumes "predict_on_df eu ei fitp (pointwise_predict score) df = Inr out"
  shows "out = map (\<lambda>(u, i, p). (u, i, score (the (eu u)) (the (ei i)))) df"
    and "\<forall>(u, i, p) \<in> set df. eu u \<noteq> None \<and> ei i \<noteq> None"
proof -
  from assms obtain rows where r: "add_encoded_cols eu ei df = Inr rows"
    by (auto simp: predict_on_df_def split: sum.splits)
  note rows = add_encoded_cols_rows [OF r]
  from rows show "\<forall>(u, i, p) \<in> set df. eu u \<noteq> None \<and> ei i \<noteq> None" by blast
  have z: "map (\<lambda>(x, q). (fst x, fst (snd x), q))
             (zip (map h xs) (map (\<lambda>(cu, ci). score cu ci)
                (zip (map (\<lambda>x. fst (snd (snd (snd (h x))))) xs)
                     (map (\<lambda>x. snd (snd (snd (snd (h x))))) xs))))
           = map (\<lambda>x. (fst (h x), fst (snd (h x)),
                       score (fst (snd (snd (snd (h x))))) (snd (snd (snd (snd (h x))))))) xs"
    for h :: "'a \<times> 'b \<times> real \<Rightarrow> 'a \<times> 'b \<times> real \<times> nat \<times> nat" and xs
    by (induction xs) (auto simp: split_def)
  from assms r have "out = map (\<lambda>((u, i, p, cu, ci), q). (u, i, q))
       (zip rows (pointwise_predict score undefined undefined
          (map (\<lambda>(u, i, p, cu, ci). cu) rows) (map (\<lambda>(u, i, p, cu, ci). ci) rows)))"
    by (auto simp: predict_on_df_def Let_def pointwise_predict_def
        split: option.splits if_splits)
  also have "\<dots> = map (\<lambda>(u, i, p). (u, i, score (the (eu u)) (the (ei i)))) df"
    unfolding pointwise_predict_def conjunct1 [OF rows]
    using z [of "\<lambda>(u, i, p). (u, i, p, the (eu u), the (ei i))" df]
    by (simp add: split_def comp_def)
  finally show "out = map (\<lambda>(u, i, p). (u, i, score (the (eu u)) (the (ei i)))) df" .
qed

lemma predict_on_df_total:
  assumes "\<forall>(u, i, p) \<in> set df. eu u \<noteq> None \<and> ei i \<noteq> None"
    and "map_of fitp ''item_features'' \<noteq> None" and "map_of fitp ''num_threads'' \<noteq> None"
  shows "\<exists>out. predict_on_df eu ei fitp (pointwise_predict score) df = Inr out"
proof -
  from add_encoded_cols_total [OF assms(1)] obtain rows where
    "add_encoded_cols eu ei df = Inr rows" by blast
  with assms(2,3) show ?thesis
    by (auto simp: predict_on_df_def pointwise_predict_def Let_def)
qed

text \<open>
  Claim C4. In a cascade whose second member predicts pair by pair, a result of the
  unfiltered step has exactly the (user, item) rows the first member produced, in their
  order, and the score of each row is the second member's prediction for the encoded pair;
  the first member's scores are not used. The step returns whenever the first member
  returns candidates the second member can encode and the two fit parameters are set.
\<close>

theorem cascade_scores_from_second_member:
  assumes "cascade_init recommenders = Inr [first, second]"
    and "member_predict_on_df second = predict_on_df eu ei fitp (pointwise_predict score)"
  shows "(\<forall>out. cascade_flat_unfilt recommenders user_ids item_ids n = Inr out \<longrightarrow>
            (\<exists>cands. flat_unfilt first user_ids item_ids n = Inr cands
               \<and> map (\<lambda>(u, i, p). (u, i)) out = map (\<lambda>(u, i, p). (u, i)) cands
               \<and> (\<forall>(u, i, q) \<in> set out.
                     \<exists>cu ci. eu u = Some cu \<and> ei i = Some ci \<and> q = score cu ci)))
         \<and> (\<forall>cands. flat_unfilt first user_ids item_ids n = Inr cands
                \<and> (\<forall>(u, i, p) \<in> set cands. eu u \<noteq> None \<and> ei i \<noteq> None)
                \<and> map_of fitp ''item_features'' \<noteq> None \<and> map_of fitp ''num_threads'' \<noteq> None
              \<longrightarrow> (\<exists>out. cascade_flat_unfilt recommenders user_ids item_ids n = Inr out))"
proof (intro conjI allI impI)
  from assms(1) have rec: "recommenders = [first, second]"
    by (auto simp: cascade_init_def split: if_splits)
  {
    fix out
    assume a: "cascade_flat_unfilt recommenders user_ids item_ids n = Inr out"
    with rec obtain cands where c: "flat_unfilt first user_ids item_ids n = Inr cands"
      and p: "member_predict_on_df second cands = Inr out"
      by (auto simp: cascade_flat_unfilt_def split: sum.splits)
    from p assms(2) have "predict_on_df eu ei fitp (pointwise_predict score) cands = Inr out"
      by simp
    note pw = predict_on_df_pointwise [OF this]
    have k: "map (\<lambda>(u, i, p). (u, i)) out = map (\<lambda>(u, i, p). (u, i)) cands"
      unfolding pw(1) by (simp add: split_def comp_def)
    have s: "\<forall>(u, i, q) \<in> set out. \<exists>cu ci. eu u = Some cu \<and> ei i = Some ci \<and> q = score cu ci"
      unfolding pw(1) using pw(2) by auto
    from c k s
    show "\<exists>cands. flat_unfilt first user_ids item_ids n = Inr cands
               \<and> map (\<lambda>(u, i, p). (u, i)) out = map (\<lambda>(u, i, p). (u, i)) cands
               \<and> (\<forall>(u, i, q) \<in> set out.
                     \<exists>cu ci. eu u = Some cu \<and> ei i = Some ci \<and> q = score cu ci)"
      by blast
  next
    fix cands
    assume a: "flat_unfilt first user_ids item_ids n = Inr cands
                \<and> (\<forall>(u, i, p) \<in> set cands. eu u \<noteq> None \<and> ei i \<noteq> None)
                \<and> map_of fitp ''item_features'' \<noteq> None \<and> map_of fitp ''num_threads'' \<noteq> None"
    then obtain out where "predict_on_df eu ei fitp (pointwise_predict score) cands = Inr out"
      using predict_on_df_total [of cands eu ei fitp score] by blast
    with a rec assms(2) show "\<exists>out. cascade_flat_unfilt recommenders user_ids item_ids n = Inr out"
      by (simp add: cascade_flat_unfilt_def)
  }
qed

text \<open>
  Witness for C4: the first member proposes items 10 and 11 for user 1 with the scores
  0.3 and 0.9; the second member predicts the sum of the two indices.
\<close>

theorem cascade_scores_from_second_member_witness:
  "cascade_flat_unfilt
      [\<lparr>flat_unfilt = (\<lambda>us its w. Inr [(1::nat, 10::nat, 3 / 10), (1, 11, 9 / 10)]),
        member_predict_on_df = (\<lambda>df. Inr df)\<rparr>,
       \<lparr>flat_unfilt = (\<lambda>us its w. Inr []),
        member_predict_on_df =
          predict_on_df (\<lambda>u. if u = 1 then Some 0 else None)
            (\<lambda>i. if i = 10 then Some 0 else if i = 11 then Some 1 else None)
            [(''item_features'', PyNone), (''num_threads'', PyInt 4)]
            (pointwise_predict (\<lambda>cu ci. real (cu + ci)))\<rparr>]
      [1] [] 100
    = Inr [(1, 10, 0), (1, 11, 1)]"
proof -
  let ?eu = "\<lambda>u :: nat. if u = 1 then Some (0::nat) else None"
  let ?ei = "\<lambda>i :: nat. if i = 10 then Some (0::nat) else if i = 11 then Some 1 else None"
  let ?fitp = "[(''item_features'', PyNone), (''num_threads'', PyInt 4)]"
  let ?score = "\<lambda>(cu::nat) (ci::nat). real (cu + ci)"
  let ?first = "\<lparr>flat_unfilt = (\<lambda>(us::nat list) (its::nat list) (w::int).
                   (Inr [(1::nat, 10::nat, 3 / 10 :: real), (1, 11, 9 / 10)]
                      :: py_exception + (nat, nat) flat_df)),
                 member_predict_on_df =
                   (\<lambda>df. (Inr df :: py_exception + (nat, nat) flat_df))\<rparr>"
  let ?second = "\<lparr>flat_unfilt = (\<lambda>(us::nat list) (its::nat list) (w::int).
                   (Inr [] :: py_exception + (nat, nat) flat_df)),
                 member_predict_on_df =
                   predict_on_df ?eu ?ei ?fitp (pointwise_predict ?score)\<rparr>"
  have init: "cascade_init [?first, ?second] = Inr [?first, ?second]"
    by (simp add: cascade_init_def)
  have pred: "member_predict_on_df ?second = predict_on_df ?eu ?ei ?fitp (pointwise_predict ?score)"
    by simp
  have run: "cascade_flat_unfilt [?first, ?second] [1] [] 100 = Inr [(1, 10, 0), (1, 11, 1)]"
    by (simp add: cascade_flat_unfilt_def predict_on_df_def pointwise_predict_def Let_def)
  from cascade_scores_from_second_member [OF init pred, of "[1]" "[]" 100] run
  show ?thesis by simp
qed

section \<open>Properties of the rank combination\<close>

lemma fst_rank_frame: "fst ` set (rank_frame df) = frame_keys df"
  by (force simp: rank_frame_def frame_keys_def image_iff)

lemma outer_merge_row_member:
  "row \<in> set
      (let partners = filter (\<lambda>(key', r). key' = key) df
       in if partners = [] then [(key, cols @ [None])]
          else map (\<lambda>(key', r). (key, cols @ [Some r])) partners) \<longleftrightarrow>
     (key \<notin> fst ` set df \<and> row = (key, cols @ [None]))
     \<or> (\<exists>r. (key, r) \<in> set df \<and> row = (key, cols @ [Some r]))"
proof (cases "filter (\<lambda>(key', r). key' = key) df = []")
  case True
  then have "key \<notin> fst ` set df"
    by (auto simp: filter_empty_conv)
  with True show ?thesis
    by (auto simp: Let_def image_iff)
next
  case False
  then obtain r0 where "(key, r0) \<in> set df"
    by (auto simp: filter_empty_conv)
  then have "key \<in> fst ` set df" by force
  with False show ?thesis
    by (auto simp: Let_def image_iff)
qed

lemma outer_merge_member:
  "row \<in> set (outer_merge t k df) \<longleftrightarrow>
     (\<exists>key cols. (key, cols) \<in> set t \<and>
        ((key \<notin> fst ` set df \<and> row = (key, cols @ [None]))
         \<or> (\<exists>r. (key, r) \<in> set df \<and> row = (key, cols @ [Some r]))))
     \<or> (\<exists>key r. (key, r) \<in> set df \<and> key \<notin> fst ` set t
           \<and> row = (key, replicate k None @ [Some r]))"
proof -
  have l: "row \<in> set (concat (map (\<lambda>(key, cols).
        (let partners = filter (\<lambda>(key', r). key' = key) df
         in if partners = [] then [(key, cols @ [None])]
            else map (\<lambda>(key', r). (key, cols @ [Some r])) partners)) t)) \<longleftrightarrow>
     (\<exists>key cols. (key, cols) \<in> set t \<and>
        ((key \<notin> fst ` set df \<and> row = (key, cols @ [None]))
         \<or> (\<exists>r. (key, r) \<in> set df \<and> row = (key, cols @ [Some r]))))"
  proof -
    have "row \<in> set (concat (map (\<lambda>(key, cols).
        (let partners = filter (\<lambda>(key', r). key' = key) df
         in if partners = [] then [(key, cols @ [None])]
            else map (\<lambda>(key', r). (key, cols @ [Some r])) partners)) t)) \<longleftrightarrow>
      (\<exists>(key, cols) \<in> set t. row \<in> set
        (let partners = filter (\<lambda>(key', r). key' = key) df
         in if partners = [] then [(key, cols @ [None])]
            else map (\<lambda>(key', r). (key, cols @ [Some r])) partners))"
      by (simp add: split_def Bex_def)
    also have "\<dots> \<longleftrightarrow> (\<exists>(key, cols) \<in> set t.
        (key \<notin> fst ` set df \<and> row = (key, cols @ [None]))
         \<or> (\<exists>r. (key, r) \<in> set df \<and> row = (key, cols @ [Some r])))"
      by (simp only: outer_merge_row_member)
    also have "\<dots> \<longleftrightarrow> (\<exists>key cols. (key, cols) \<in> set t \<and>
        ((key \<notin> fst ` set df \<and> row = (key, cols @ [None]))
         \<or> (\<exists>r. (key, r) \<in> set df \<and> row = (key, cols @ [Some r]))))"
      by auto
    finally show ?thesis .
  qed
  have r: "row \<in> set (map (\<lambda>(key, r). (key, replicate k None @ [Some r]))
           (filter (\<lambda>(key, r). key \<notin> fst ` set t) df)) \<longleftrightarrow>
     (\<exists>key r. (key, r) \<in> set df \<and> key \<notin> fst ` set t
           \<and> row = (key, replicate k None @ [Some r]))"
    by (auto simp: image_iff)
  show ?thesis
    unfolding outer_merge_def set_append Un_iff l r ..
qed

lemma table_ok_first:
  "table_ok (map (\<lambda>(key, r). (key, [Some r])) (rank_frame df)) [df]"
proof -
  let ?t = "map (\<lambda>(key, r). (key, [Some r])) (rank_frame df)"
  have "fst ` set ?t = fst ` set (rank_frame df)"
    by (force simp: image_iff)
  then have k: "fst ` set ?t = (\<Union>d \<in> set [df]. frame_keys d)"
    by (simp add: fst_rank_frame)
  have g: "length cols = length [df]
        \<and> (\<forall>j < length [df].
              (key \<notin> frame_keys ([df] ! j) \<longrightarrow> cols ! j = None)
            \<and> (key \<in> frame_keys ([df] ! j) \<longrightarrow>
                 (\<exists>r. cols ! j = Some r \<and> (key, r) \<in> set (rank_frame ([df] ! j)))))"
    if "(key, cols) \<in> set ?t" for key cols
  proof -
    from that obtain r where r: "(key, r) \<in> set (rank_frame df)" and c: "cols = [Some r]"
      by auto
    from r have "key \<in> fst ` set (rank_frame df)" by force
    then have "key \<in> frame_keys df" by (simp only: fst_rank_frame)
    with r c show ?thesis by simp
  qed
  show ?thesis
    unfolding table_ok_def
  proof (intro conjI ballI)
    show "fst ` set ?t = (\<Union>d \<in> set [df]. frame_keys d)" by (rule k)
  next
    fix row assume m: "row \<in> set ?t"
    obtain key cols where row: "row = (key, cols)" by (cases row)
    from m row have "(key, cols) \<in> set ?t" by simp
    from g [OF this] show "case row of (key, cols) \<Rightarrow>
        length cols = length [df]
        \<and> (\<forall>j < length [df].
              (key \<notin> frame_keys ([df] ! j) \<longrightarrow> cols ! j = None)
            \<and> (key \<in> frame_keys ([df] ! j) \<longrightarrow>
                 (\<exists>r. cols ! j = Some r \<and> (key, r) \<in> set (rank_frame ([df] ! j)))))"
      unfolding row prod.case .
  qed
qed

lemma table_ok_step:
  assumes "table_ok t frames"
  shows "table_ok (outer_merge t (length frames) (rank_frame df)) (frames @ [df])"
proof -
  let ?rf = "rank_frame df"
  let ?t' = "outer_merge t (length frames) ?rf"
  from assms have keys: "fst ` set t = (\<Union>d \<in> set frames. frame_keys d)"
    and rows: "\<And>key cols. (key, cols) \<in> set t \<Longrightarrow>
          length cols = length frames
          \<and> (\<forall>j < length frames.
                (key \<notin> frame_keys (frames ! j) \<longrightarrow> cols ! j = None)
              \<and> (key \<in> frame_keys (frames ! j) \<longrightarrow>
                   (\<exists>r. cols ! j = Some r \<and> (key, r) \<in> set (rank_frame (frames ! j)))))"
    unfolding table_ok_def by auto
  have rfk: "fst ` set ?rf = frame_keys df" by (rule fst_rank_frame)
  have good: "length cols' = length (frames @ [df])
          \<and> (\<forall>j < length (frames @ [df]).
                (key \<notin> frame_keys ((frames @ [df]) ! j) \<longrightarrow> cols' ! j = None)
              \<and> (key \<in> frame_keys ((frames @ [df]) ! j) \<longrightarrow>
                   (\<exists>r. cols' ! j = Some r \<and> (key, r) \<in> set (rank_frame ((frames @ [df]) ! j)))))"
    and inkeys: "key \<in> (\<Union>d \<in> set (frames @ [df]). frame_keys d)"
    if m: "(key, cols') \<in> set ?t'" for key cols'
  proof -
    from m [unfolded outer_merge_member] consider
      (left_alone) cols where "(key, cols) \<in> set t" "key \<notin> fst ` set ?rf" "cols' = cols @ [None]"
      | (both) cols r where "(key, cols) \<in> set t" "(key, r) \<in> set ?rf" "cols' = cols @ [Some r]"
      | (right_alone) r where "(key, r) \<in> set ?rf" "key \<notin> fst ` set t"
          "cols' = replicate (length frames) None @ [Some r]"
      by auto
    then have "length cols' = length (frames @ [df])
          \<and> (\<forall>j < length (frames @ [df]).
                (key \<notin> frame_keys ((frames @ [df]) ! j) \<longrightarrow> cols' ! j = None)
              \<and> (key \<in> frame_keys ((frames @ [df]) ! j) \<longrightarrow>
                   (\<exists>r. cols' ! j = Some r \<and> (key, r) \<in> set (rank_frame ((frames @ [df]) ! j)))))
        \<and> key \<in> (\<Union>d \<in> set (frames @ [df]). frame_keys d)"
    proof cases
      case left_alone
      from rows [OF left_alone(1)] left_alone(2,3) rfk
      have "length cols' = length (frames @ [df])
          \<and> (\<forall>j < length (frames @ [df]).
                (key \<notin> frame_keys ((frames @ [df]) ! j) \<longrightarrow> cols' ! j = None)
              \<and> (key \<in> frame_keys ((frames @ [df]) ! j) \<longrightarrow>
                   (\<exists>r. cols' ! j = Some r \<and> (key, r) \<in> set (rank_frame ((frames @ [df]) ! j)))))"
        by (auto simp: nth_append less_Suc_eq)
      moreover from left_alone(1) have "key \<in> fst ` set t" by force
      ultimately show ?thesis using keys by auto
    next
      case both
      from both(2) have "key \<in> frame_keys df" using rfk by force
      with rows [OF both(1)] both(2,3)
      show ?thesis
        by (auto simp: nth_append less_Suc_eq)
    next
      case right_alone
      from right_alone(1) have kd: "key \<in> frame_keys df" using rfk by force
      from right_alone(2) keys have "key \<notin> frame_keys (frames ! j)" if "j < length frames" for j
        using that nth_mem [OF that] by blast
      with right_alone(1,3) kd show ?thesis
        by (auto simp: nth_append less_Suc_eq)
    qed
    then show "length cols' = length (frames @ [df])
          \<and> (\<forall>j < length (frames @ [df]).
                (key \<notin> frame_keys ((frames @ [df]) ! j) \<longrightarrow> cols' ! j = None)
              \<and> (key \<in> frame_keys ((frames @ [df]) ! j) \<longrightarrow>
                   (\<exists>r. cols' ! j = Some r \<and> (key, r) \<in> set (rank_frame ((frames @ [df]) ! j)))))"
      and "key \<in> (\<Union>d \<in> set (frames @ [df]). frame_keys d)"
      by blast+
  qed
  have sub: "(\<Union>d \<in> set (frames @ [df]). frame_keys d) \<subseteq> fst ` set ?t'"
  proof
    fix key assume "key \<in> (\<Union>d \<in> set (frames @ [df]). frame_keys d)"
    then consider "key \<in> fst ` set t" | "key \<notin> fst ` set t" "key \<in> frame_keys df"
      using keys by auto
    then show "key \<in> fst ` set ?t'"
    proof cases
      case 1
      then obtain cols where c: "(key, cols) \<in> set t" by auto
      show ?thesis
      proof (cases "key \<in> fst ` set ?rf")
        case True
        then obtain r where "(key, r) \<in> set ?rf" by auto
        with c have "(key, cols @ [Some r]) \<in> set ?t'"
          unfolding outer_merge_member by blast
        then show ?thesis by force
      next
        case False
        with c have "(key, cols @ [None]) \<in> set ?t'"
          unfolding outer_merge_member by blast
        then show ?thesis by force
      qed
    next
      case 2
      from 2(2) have "key \<in> fst ` set ?rf" by (simp only: rfk)
      then obtain r where "(key, r) \<in> set ?rf" by auto
      with 2(1) have "(key, replicate (length frames) None @ [Some r]) \<in> set ?t'"
        unfolding outer_merge_member by blast
      then show ?thesis by force
    qed
  qed
  have "fst ` set ?t' = (\<Union>d \<in> set (frames @ [df]). frame_keys d)"
  proof
    show "fst ` set ?t' \<subseteq> (\<Union>d \<in> set (frames @ [df]). frame_keys d)"
      using inkeys by (auto simp del: set_append)
    show "(\<Union>d \<in> set (frames @ [df]). frame_keys d) \<subseteq> fst ` set ?t'" by (rule sub)
  qed
  with good show ?thesis
    unfolding table_ok_def by (auto simp del: set_append length_append)
qed

lemma merge_frames_ok:
  "table_ok t frames \<Longrightarrow>
     \<exists>t'. merge_frames (length frames) rest (Some t) = Some t' \<and> table_ok t' (frames @ rest)"
proof (induction rest arbitrary: t frames)
  case Nil
  then show ?case by simp
next
  case (Cons df rest)
  from table_ok_step [OF Cons.prems]
  have "table_ok (outer_merge t (length frames) (rank_frame df)) (frames @ [df])" .
  from Cons.IH [OF this] show ?case by simp
qed

lemma merge_frames_start:
  assumes "frames \<noteq> []"
  shows "\<exists>t. merge_frames 0 frames None = Some t \<and> table_ok t frames"
proof -
  from assms obtain df rest where f: "frames = df # rest" by (cases frames) auto
  from merge_frames_ok [OF table_ok_first, of df rest] f show ?thesis by simp
qed

lemma length_pool_map: "pool_map funcs = Inr dfs \<Longrightarrow> length dfs = length funcs"
  by (induction funcs arbitrary: dfs) (auto split: sum.splits)

lemma rank_merge_loop_sequential:
  "pool_map funcs = Inr dfs \<Longrightarrow> rank_merge_loop [] i funcs m = Inr (merge_frames i dfs m)"
  by (induction funcs arbitrary: dfs i m) (auto split: sum.splits)

lemma rank_merge_loop_threaded:
  "dfs \<noteq> [] \<Longrightarrow> length dfs = i + length funcs \<Longrightarrow>
     rank_merge_loop dfs i funcs m = Inr (merge_frames i (drop i dfs) m)"
proof (induction funcs arbitrary: i m)
  case Nil
  then show ?case by simp
next
  case (Cons func funcs)
  from Cons.prems have i: "i < length dfs" by simp
  then have d: "drop i dfs = dfs ! i # drop (Suc i) dfs"
    by (simp add: Cons_nth_drop_Suc)
  from Cons.prems have "length dfs = Suc i + length funcs" by simp
  from Cons.IH [OF Cons.prems(1) this] i d Cons.prems(1) show ?case by simp
qed

lemma calc_dfs_and_combine_scores_frames:
  assumes "pool_map calc_funcs = Inr frames" and "merge_frames 0 frames None = Some t"
    and "frames \<noteq> []"
  shows "calc_dfs_and_combine_scores calc_funcs combine_func fill_val multithreaded
           = Inr (combine_ranks combine_func (fillna fill_val t))"
proof (cases multithreaded)
  case False
  with rank_merge_loop_sequential [OF assms(1), of 0 None] assms(2) show ?thesis
    by (simp add: calc_dfs_and_combine_scores_def)
next
  case True
  from length_pool_map [OF assms(1)] assms(3) have ne: "calc_funcs \<noteq> []" by auto
  from length_pool_map [OF assms(1)] have "length frames = 0 + length calc_funcs" by simp
  from rank_merge_loop_threaded [OF assms(3) this, of None] assms(2)
  have "rank_merge_loop frames 0 calc_funcs None = Inr (Some t)" by simp
  with True ne assms(1) show ?thesis
    by (simp add: calc_dfs_and_combine_scores_def)
qed

lemma fillna_table:
  assumes "table_ok t frames" and "(key, ranks) \<in> set (fillna fill_val t)"
  shows "length ranks = length frames"
    and "j < length frames \<Longrightarrow> key \<notin> frame_keys (frames ! j) \<Longrightarrow> ranks ! j = fill_val"
    and "j < length frames \<Longrightarrow> key \<in> frame_keys (frames ! j) \<Longrightarrow>
           (key, ranks ! j) \<in> set (rank_frame (frames ! j))"
proof -
  from assms(2) obtain cols where c: "(key, cols) \<in> set t"
    and r: "ranks = map (\<lambda>c. case c of None \<Rightarrow> fill_val | Some r \<Rightarrow> r) cols"
    by (auto simp: fillna_def)
  from assms(1) c have len: "length cols = length frames"
    and ok: "\<And>j. j < length frames \<Longrightarrow>
                (key \<notin> frame_keys (frames ! j) \<longrightarrow> cols ! j = None)
              \<and> (key \<in> frame_keys (frames ! j) \<longrightarrow>
                   (\<exists>r. cols ! j = Some r \<and> (key, r) \<in> set (rank_frame (frames ! j))))"
    unfolding table_ok_def by auto
  from len r show "length ranks = length frames" by simp
  show "ranks ! j = fill_val" if "j < length frames" "key \<notin> frame_keys (frames ! j)"
    using ok [OF that(1)] that len r by simp
  show "(key, ranks ! j) \<in> set (rank_frame (frames ! j))"
    if "j < length frames" "key \<in> frame_keys (frames ! j)"
    using ok [OF that(1)] that len r by auto
qed

lemma keys_combine_ranks:
  "(\<lambda>(g, i, s). (g, i)) ` set (combine_ranks combine_func (fillna fill_val t)) = fst ` set t"
  by (force simp: combine_ranks_def fillna_def image_iff split_def)

lemma rank_ensemble_flat_unfilt_frames:
  assumes "rank_combination_function lib (rank_combination_mode ens) = Inr combine_func"
  shows "rank_ensemble_flat_unfilt lib ens user_ids item_ids n_rec_unfilt
           = calc_dfs_and_combine_scores
               (map (\<lambda>rec. (\<lambda>_ :: unit. flat_unfilt rec user_ids item_ids n_rec_unfilt))
                    (members ens))
               combine_func (ensemble_fill_val (fill_na_val ens) n_rec_unfilt) False"
  using assms by (simp add: rank_ensemble_flat_unfilt_def Let_def)

text \<open>
  Claim C2, as amended. When every member returns its frame, the result is fixed by the
  frames (the same with and without the thread pool): it is the combination of the rows of
  one table of ranks, whose (group, item) pairs are exactly the pairs of the member frames,
  and in every row the rank of a member whose frame does not have the pair is \<open>fill_val\<close>,
  with the reciprocal \<open>1 / fill_val\<close>. The ensemble passes \<open>n_rec_unfilt + 1\<close> as \<open>fill_val\<close>
  when its \<open>fill_na_val\<close> is unset (\<open>None\<close> or 0) and \<open>fill_na_val\<close> otherwise.
\<close>

theorem rank_fusion_union_and_fill:
  assumes "pool_map calc_funcs = Inr frames" and "frames \<noteq> []"
  shows "\<exists>table.
           (\<forall>multithreaded.
               calc_dfs_and_combine_scores calc_funcs combine_func fill_val multithreaded
                 = Inr (combine_ranks combine_func table))
         \<and> (\<lambda>(g, i, s). (g, i)) ` set (combine_ranks combine_func table)
             = (\<Union>df \<in> set frames. frame_keys df)
         \<and> (\<forall>(key, ranks) \<in> set table.
               length ranks = length frames
             \<and> (\<forall>j < length frames.
                   (key \<notin> frame_keys (frames ! j) \<longrightarrow>
                      ranks ! j = fill_val \<and> map np_recip ranks ! j = np_recip fill_val)
                 \<and> (key \<in> frame_keys (frames ! j) \<longrightarrow>
                      (key, ranks ! j) \<in> set (rank_frame (frames ! j)))))
         \<and> ensemble_fill_val None n = of_int (n + 1)
         \<and> ensemble_fill_val (Some 0) n = of_int (n + 1)
         \<and> (\<forall>v. v \<noteq> 0 \<longrightarrow> ensemble_fill_val (Some v) n = v)
         \<and> (fill_val \<noteq> 0 \<longrightarrow> np_recip fill_val = Finite (1 / fill_val))"
proof -
  from merge_frames_start [OF assms(2)] obtain t where
    t: "merge_frames 0 frames None = Some t" and ok: "table_ok t frames"
    by blast
  let ?table = "fillna fill_val t"
  have run: "\<forall>multithreaded.
               calc_dfs_and_combine_scores calc_funcs combine_func fill_val multithreaded
                 = Inr (combine_ranks combine_func ?table)"
    using calc_dfs_and_combine_scores_frames [OF assms(1) t assms(2)] by blast
  from ok have "fst ` set t = (\<Union>df \<in> set frames. frame_keys df)"
    unfolding table_ok_def by blast
  then have keys: "(\<lambda>(g, i, s). (g, i)) ` set (combine_ranks combine_func ?table)
             = (\<Union>df \<in> set frames. frame_keys df)"
    by (simp only: keys_combine_ranks)
  have rows: "\<forall>(key, ranks) \<in> set ?table.
               length ranks = length frames
             \<and> (\<forall>j < length frames.
                   (key \<notin> frame_keys (frames ! j) \<longrightarrow>
                      ranks ! j = fill_val \<and> map np_recip ranks ! j = np_recip fill_val)
                 \<and> (key \<in> frame_keys (frames ! j) \<longrightarrow>
                      (key, ranks ! j) \<in> set (rank_frame (frames ! j))))"
  proof (intro ballI)
    fix row assume m: "row \<in> set ?table"
    obtain key ranks where row: "row = (key, ranks)" by (cases row)
    from m row have kr: "(key, ranks) \<in> set ?table" by simp
    note f = fillna_table [OF ok kr]
    have "length ranks = length frames
             \<and> (\<forall>j < length frames.
                   (key \<notin> frame_keys (frames ! j) \<longrightarrow>
                      ranks ! j = fill_val \<and> map np_recip ranks ! j = np_recip fill_val)
                 \<and> (key \<in> frame_keys (frames ! j) \<longrightarrow>
                      (key, ranks ! j) \<in> set (rank_frame (frames ! j))))"
      using f by simp
    then show "case row of (key, ranks) \<Rightarrow>
               length ranks = length frames
             \<and> (\<forall>j < length frames.
                   (key \<notin> frame_keys (frames ! j) \<longrightarrow>
                      ranks ! j = fill_val \<and> map np_recip ranks ! j = np_recip fill_val)
                 \<and> (key \<in> frame_keys (frames ! j) \<longrightarrow>
                      (key, ranks ! j) \<in> set (rank_frame (frames ! j))))"
      unfolding row prod.case .
  qed
  have fill: "ensemble_fill_val None n = of_int (n + 1)"
    "ensemble_fill_val (Some 0) n = of_int (n + 1)"
    "\<forall>v. v \<noteq> 0 \<longrightarrow> ensemble_fill_val (Some v) n = v"
    "fill_val \<noteq> 0 \<longrightarrow> np_recip fill_val = Finite (1 / fill_val)"
    by (simp_all add: ensemble_fill_val_def np_recip_def)
  from run keys rows fill show ?thesis by blast
qed

text \<open>
  Witness for C2: two members and the width 100. The first member has the items 1 and 2
  for user 1, the second only item 2: its rank for item 1 is 101, and the least reciprocal
  rank of item 1 is 1/101.
\<close>

theorem rank_fusion_union_and_fill_witness:
  "calc_dfs_and_combine_scores
      [\<lambda>_. Inr [(1::nat, 1::nat, 9 / 10), (1, 2, 1 / 2)], \<lambda>_. Inr [(1, 2, 8 / 10)]]
      least_of (ensemble_fill_val None 100) False
    = Inr [(1, 1, Finite (1 / 101)), (1, 2, Finite (1 / 2))]"
proof -
  let ?fa = "[(1::nat, 1::nat, 9 / 10 :: real), (1, 2, 1 / 2)]"
  let ?fb = "[(1::nat, 2::nat, 8 / 10 :: real)]"
  let ?funcs = "[\<lambda>_ :: unit. (Inr ?fa :: py_exception + (nat, nat) flat_df), \<lambda>_. Inr ?fb]"
  have pm: "pool_map ?funcs = Inr [?fa, ?fb]" by simp
  have ne: "[?fa, ?fb] \<noteq> []" by simp
  have run: "calc_dfs_and_combine_scores ?funcs least_of (ensemble_fill_val None 100) False
               = Inr [(1, 1, Finite (1 / 101)), (1, 2, Finite (1 / 2))]"
    by (simp add: calc_dfs_and_combine_scores_def rank_frame_def group_rank_def
        outer_merge_def fillna_def combine_ranks_def np_recip_def least_of_def
        ensemble_fill_val_def Let_def)
  from rank_fusion_union_and_fill [OF pm ne, of least_of "ensemble_fill_val None 100" 100] run
  show ?thesis by simp
qed

text \<open>
  Counterexample to C2 as stated: an ensemble built with \<open>fill_na_val = 5\<close> and asked with
  \<open>n_rec_unfilt = 100\<close>. A member that does not have a pair contributes the rank 5 and the
  reciprocal 1/5, not 101 and 1/101. (Only the reduction for \<open>min\<close> is used.)
\<close>

theorem rank_ensemble_fill_na_val_counterexample:
  "rank_ensemble_flat_unfilt
      \<lparr>np_mean = least_of, np_max = least_of, np_min = least_of, gmean = least_of,
       hmean = least_of\<rparr>
      \<lparr>members =
         [\<lparr>flat_unfilt = (\<lambda>us its w. Inr [(1::nat, 1::nat, 9 / 10)]),
           member_predict_on_df = (\<lambda>df. Inr df)\<rparr>,
          \<lparr>flat_unfilt = (\<lambda>us its w. Inr [(1, 2, 8 / 10)]),
           member_predict_on_df = (\<lambda>df. Inr df)\<rparr>],
       fill_na_val = Some 5, rank_combination_mode = ''min''\<rparr>
      [1] [] 100
    = Inr [(1, 1, Finite (1 / 5)), (1, 2, Finite (1 / 5))]
   \<and> ensemble_fill_val (Some 5) 100 = 5
   \<and> ensemble_fill_val (Some 5) 100 \<noteq> of_int (100 + 1)
   \<and> np_recip (ensemble_fill_val (Some 5) 100) \<noteq> Finite (1 / of_int (100 + 1))"
  by (simp add: rank_ensemble_flat_unfilt_def rank_combination_function_def
      calc_dfs_and_combine_scores_def rank_frame_def group_rank_def
      outer_merge_def fillna_def combine_ranks_def np_recip_def least_of_def
      ensemble_fill_val_def Let_def)

end
